theory Spec2Isabelle
  imports Main "HOL-Library.Word"
begin

section \<open>The firmware state\<close>

text \<open>
  The model follows revision 1.1.0 of \<^verbatim>\<open>PoorMansThrottle.ino\<close>. All motion, configuration
  and link state of the sketch lives in file-scope variables; they become the fields of one
  record, under the names the source gives them. Throttle quantities are \<^verbatim>\<open>int32_t\<close> in the
  source and are modelled as \<open>int\<close> (every store goes through \<^verbatim>\<open>clampI32\<close>); clock values are
  \<^verbatim>\<open>uint32_t\<close> and are modelled as 32-bit words, so that \<^verbatim>\<open>now - start\<close> wraps as it does on
  the target and \<^verbatim>\<open>(int32_t)(now - deadline) < 0\<close> is \<open>sint (now - deadline) < 0\<close>.
  The value that \<^verbatim>\<open>millis()\<close> returns is a parameter \<open>now\<close> of every function that reads
  the clock. The LED service and the serial log are left out: no control decision reads them.
\<close>

type_synonym u32 = "32 word"

datatype Direction = STOP | FWD | REV

datatype RampKind = RK_NONE | MOMENTUM | BRAKE | QUICKSTOP

datatype PendingStage = PS_NONE | WAIT_DIR_DELAY

record firmware =
  pendingFullAccelMs :: u32
  pendingFullDecelMs :: u32
  pendingSkipDirDelay :: bool
  pendingSuppressKickOnce :: bool
  debugMode :: bool
  appliedThrottle :: int
  targetThrottle :: int
  currentDirection :: Direction
  targetDirection :: Direction
  rampActive :: bool
  rampStartMs :: u32
  rampDurationMs :: u32
  rampStartThrottle :: int
  rampTargetThrottle :: int
  rampDirection :: Direction
  rampKind :: RampKind
  cfgMinStart :: int
  cfgKickThrottle :: int
  cfgKickMs :: int
  cfgKickRampDownMs :: int
  cfgKickMaxApply :: int
  kickActive :: bool
  kickEndMs :: u32
  kickHoldThrottle :: int
  kickDirection :: Direction
  postKickPending :: bool
  postKickDir :: Direction
  postKickFinalThr :: int
  postKickIsInstant :: bool
  postKickIsMomentum :: bool
  postKickFullAccelMs :: u32
  postKickFullDecelMs :: u32
  reversePending :: bool
  pendingStage :: PendingStage
  pendingStageUntilMs :: u32
  pendingFinalTargetThrottle :: int
  pendingFinalDirection :: Direction
  pendingFinalIsInstant :: bool
  pendingFinalIsMomentum :: bool
  bleConnected :: bool
  graceActive :: bool
  disconnectMs :: u32
  forcedStopLatched :: bool
  printPeriodic :: bool
  g_peerMtu :: nat
  ledcDutyR :: nat
  ledcDutyL :: nat
  driverEnabled :: bool

subsection \<open>Constants\<close>

definition P_SCALE :: int where "P_SCALE = 1000"
definition PWM_MAX_DUTY :: nat where "PWM_MAX_DUTY = 1023"
definition FULL_MOMENTUM_ACCEL_MS :: u32 where "FULL_MOMENTUM_ACCEL_MS = 20000"
definition FULL_MOMENTUM_DECEL_MS :: u32 where "FULL_MOMENTUM_DECEL_MS = 20000"
definition FULL_QUICKRAMP_ACCEL_MS :: u32 where "FULL_QUICKRAMP_ACCEL_MS = 2500"
definition FULL_QUICKRAMP_DECEL_MS :: u32 where "FULL_QUICKRAMP_DECEL_MS = 2500"
definition FULL_BRAKE_MS :: u32 where "FULL_BRAKE_MS = 10000"
definition FULL_QUICKSTOP_MS :: u32 where "FULL_QUICKSTOP_MS = 3000"
definition DIR_CHANGE_DELAY_MS :: u32 where "DIR_CHANGE_DELAY_MS = 2000"
definition BLE_GRACE_MS :: u32 where "BLE_GRACE_MS = 15000"
definition FW_VERSION :: string where "FW_VERSION = ''1.1.0''"
definition SERVICE_UUID :: string where
  "SERVICE_UUID = ''9b2b7b30-5f3d-4a51-9bd6-1e8cde2c9000''"

section \<open>Helpers\<close>

definition clampI32 :: "int \<Rightarrow> int \<Rightarrow> int \<Rightarrow> int" where
  "clampI32 v lo hi = (if v < lo then lo else if v > hi then hi else v)"

text \<open>C's integer division truncates towards zero; HOL's \<open>div\<close> rounds down.\<close>

definition cdiv :: "int \<Rightarrow> int \<Rightarrow> int" where
  "cdiv a b = sgn a * sgn b * (\<bar>a\<bar> div \<bar>b\<bar>)"

text \<open>
  \<^verbatim>\<open>scaledDurationMs\<close>: the product is taken in 64 bits, where it cannot wrap (a 32-bit value
  times at most 100); the cast back to \<^verbatim>\<open>uint32_t\<close> is the \<open>word_of_nat\<close>.
\<close>

definition scaledDurationMs :: "u32 \<Rightarrow> int \<Rightarrow> u32" where
  "scaledDurationMs fullScaleMs deltaThrottleAbs =
     (let d = clampI32 deltaThrottleAbs 0 100;
          dur = (word_of_nat (unat fullScaleMs * nat d div 100) :: u32)
      in if d > 0 \<and> dur = 0 then 1 else dur)"

text \<open>
  \<^verbatim>\<open>smoothstepEasedThrottle\<close>. The quotient \<^verbatim>\<open>elapsedMs * P_SCALE / durationMs\<close> is computed in
  \<^verbatim>\<open>uint64_t\<close> (no wrap: at most \<open>(2^32 - 1) * 1000\<close>) and then cast to \<^verbatim>\<open>int32_t\<close> before it is
  clamped: the cast keeps the low 32 bits and reads them as two's complement.
\<close>

definition smoothstepEasedThrottle :: "int \<Rightarrow> int \<Rightarrow> u32 \<Rightarrow> u32 \<Rightarrow> int" where
  "smoothstepEasedThrottle startThr targetThr elapsedMs durationMs =
     (if durationMs = 0 then targetThr
      else
        let p0 = sint (word_of_nat (unat elapsedMs * nat P_SCALE div unat durationMs) :: u32);
            p = clampI32 p0 0 P_SCALE;
            p2 = p * p;
            p3 = p2 * p;
            term1 = cdiv (3 * p2) P_SCALE;
            term2 = cdiv (2 * p3) (P_SCALE * P_SCALE);
            e = term1 - term2;
            delta = targetThr - startThr;
            out = startThr + cdiv (delta * e) P_SCALE
        in clampI32 out 0 100)"

subsection \<open>Arduino \<^verbatim>\<open>String\<close> operations used by the command parser\<close>

definition isSpace :: "char \<Rightarrow> bool" where
  "isSpace c = (c \<in> set [CHR '' '', CHR 0x09, CHR 0x0A, CHR 0x0B, CHR 0x0C, CHR 0x0D])"

definition trim :: "string \<Rightarrow> string" where
  "trim s = rev (dropWhile isSpace (rev (dropWhile isSpace s)))"

definition removeChar :: "char \<Rightarrow> string \<Rightarrow> string" where
  "removeChar c s = filter (\<lambda>x. x \<noteq> c) s"

definition toUpperChar :: "char \<Rightarrow> char" where
  "toUpperChar c =
     (case map_of (zip ''abcdefghijklmnopqrstuvwxyz'' ''ABCDEFGHIJKLMNOPQRSTUVWXYZ'') c of
        None \<Rightarrow> c | Some u \<Rightarrow> u)"

definition toUpperCase :: "string \<Rightarrow> string" where
  "toUpperCase s = map toUpperChar s"

definition startsWith :: "string \<Rightarrow> string \<Rightarrow> bool" where
  "startsWith s p = (take (length p) s = p)"

definition substringFrom :: "nat \<Rightarrow> string \<Rightarrow> string" where
  "substringFrom left s = drop left s"

definition substring :: "nat \<Rightarrow> nat \<Rightarrow> string \<Rightarrow> string" where
  "substring left right s =
     (if left > right then take (left - right) (drop right s)
      else take (right - left) (drop left s))"

definition indexOf :: "char \<Rightarrow> string \<Rightarrow> int" where
  "indexOf c s = (if c \<in> set s then int (length (takeWhile (\<lambda>x. x \<noteq> c) s)) else - 1)"

definition isDigit :: "char \<Rightarrow> bool" where
  "isDigit c = (c \<in> set ''0123456789'')"

definition isDigitStr :: "string \<Rightarrow> bool" where
  "isDigitStr s = (s \<noteq> [] \<and> list_all isDigit s)"

text \<open>
  \<^verbatim>\<open>String::toInt\<close> is \<^verbatim>\<open>atol\<close>. The parser calls it only on strings that passed
  \<^verbatim>\<open>isDigitStr\<close>, where it is the decimal value, saturated at \<^verbatim>\<open>LONG_MAX\<close> of the 32-bit
  target.
\<close>

definition digitVal :: "char \<Rightarrow> int" where
  "digitVal c = int (of_char c) - 48"

definition toInt :: "string \<Rightarrow> int" where
  "toInt s = min (foldl (\<lambda>a c. 10 * a + digitVal c) 0 s) 2147483647"

fun decimal :: "nat \<Rightarrow> string" where
  "decimal n =
     (if n < 10 then [''0123456789'' ! n]
      else decimal (n div 10) @ [''0123456789'' ! (n mod 10)])"

definition intToString :: "int \<Rightarrow> string" where
  "intToString i = (if i < 0 then CHR ''-'' # decimal (nat (- i)) else decimal (nat i))"

declare decimal.simps [simp del]

section \<open>Output adapter and applied state\<close>

definition setApplied :: "Direction \<Rightarrow> int \<Rightarrow> firmware \<Rightarrow> firmware" where
  "setApplied dir thr s =
     (let t = clampI32 thr 0 100
      in s\<lparr>currentDirection := (if t = 0 then STOP else dir), appliedThrottle := t\<rparr>)"

definition setTarget :: "Direction \<Rightarrow> int \<Rightarrow> firmware \<Rightarrow> firmware" where
  "setTarget dir thr s =
     (let t = clampI32 thr 0 100
      in s\<lparr>targetDirection := (if t = 0 then STOP else dir), targetThrottle := t\<rparr>)"

definition throttleToDuty :: "int \<Rightarrow> nat" where
  "throttleToDuty thr = nat (clampI32 thr 0 100) * PWM_MAX_DUTY div 100"

definition driverEnable :: "bool \<Rightarrow> firmware \<Rightarrow> firmware" where
  "driverEnable en s = s\<lparr>driverEnabled := en\<rparr>"

definition applyPwmOutputs :: "Direction \<Rightarrow> int \<Rightarrow> firmware \<Rightarrow> firmware" where
  "applyPwmOutputs dir thr s =
     (if thr \<le> 0 \<or> dir = STOP
      then driverEnable False (s\<lparr>ledcDutyR := 0, ledcDutyL := 0\<rparr>)
      else if dir = FWD
      then (driverEnable True s)\<lparr>ledcDutyR := throttleToDuty thr, ledcDutyL := 0\<rparr>
      else (driverEnable True s)\<lparr>ledcDutyR := 0, ledcDutyL := throttleToDuty thr\<rparr>)"

definition stopMotorNow :: "firmware \<Rightarrow> firmware" where
  "stopMotorNow s =
     (let s1 = setTarget STOP 0 (setApplied STOP 0 s);
          s2 = s1\<lparr>rampActive := False, rampKind := RK_NONE, rampStartMs := 0,
                  rampDurationMs := 0, rampStartThrottle := 0, rampTargetThrottle := 0,
                  rampDirection := STOP\<rparr>;
          s3 = s2\<lparr>kickActive := False, kickEndMs := 0, kickHoldThrottle := 0,
                  kickDirection := STOP\<rparr>;
          s4 = s3\<lparr>postKickPending := False, postKickDir := STOP, postKickFinalThr := 0,
                  postKickIsInstant := False, postKickIsMomentum := False,
                  postKickFullAccelMs := FULL_MOMENTUM_ACCEL_MS,
                  postKickFullDecelMs := FULL_MOMENTUM_DECEL_MS\<rparr>;
          s5 = s4\<lparr>reversePending := False, pendingStage := PS_NONE, pendingStageUntilMs := 0,
                  pendingFinalTargetThrottle := 0, pendingFinalDirection := STOP,
                  pendingFinalIsInstant := False, pendingFinalIsMomentum := False,
                  pendingSkipDirDelay := False, pendingSuppressKickOnce := False\<rparr>
      in driverEnable False (applyPwmOutputs STOP 0 s5))"

definition getStateString :: "firmware \<Rightarrow> string" where
  "getStateString s =
     (if appliedThrottle s \<le> 0 \<or> currentDirection s = STOP then ''STOPPED''
      else if currentDirection s = FWD then ''FORWARD '' @ intToString (appliedThrottle s)
      else if currentDirection s = REV then ''REVERSE '' @ intToString (appliedThrottle s)
      else ''STOPPED'')"

text \<open>
  \<^verbatim>\<open>getHwSnapshot\<close> reads back the two enable pins and the two PWM duties; the pair returned
  here is its \<^verbatim>\<open>hwDir\<close> and \<^verbatim>\<open>hwThrottlePct\<close>.
\<close>

definition getHwSnapshot :: "firmware \<Rightarrow> Direction \<times> int" where
  "getHwSnapshot s =
     (let dutyR = ledcDutyR s; dutyL = ledcDutyL s;
          (d, pct) =
            (if \<not> driverEnabled s \<or> (dutyR = 0 \<and> dutyL = 0) then (STOP, 0)
             else if dutyR > 0 \<and> dutyL = 0
             then (FWD, int ((dutyR * 100 + PWM_MAX_DUTY div 2) div PWM_MAX_DUTY))
             else if dutyL > 0 \<and> dutyR = 0
             then (REV, int ((dutyL * 100 + PWM_MAX_DUTY div 2) div PWM_MAX_DUTY))
             else (STOP, 0))
      in (d, clampI32 pct 0 100))"

definition getHwStateString :: "firmware \<Rightarrow> string" where
  "getHwStateString s =
     (let (hwDir, hwThrottlePct) = getHwSnapshot s
      in if hwThrottlePct \<le> 0 \<or> hwDir = STOP then ''HW-STOPPED''
         else if hwDir = FWD then ''HW-FORWARD '' @ intToString hwThrottlePct
         else if hwDir = REV then ''HW-REVERSE '' @ intToString hwThrottlePct
         else ''HW-STOPPED'')"

section \<open>Responses\<close>

text \<open>
  A command handler answers through \<^verbatim>\<open>sendACK\<close>, \<^verbatim>\<open>sendERR\<close> or a raw
  \<^verbatim>\<open>bleNotifyChunked\<close>; the model records which call was made and with what text. What
  reaches the peer is \<open>bleNotifyChunked\<close> of the framed text: nothing while the link is
  down, otherwise the text cut into pieces of at most the payload limit. The source loop
  advances by \<open>min (n - i) limit\<close> bytes per round; the limit is at least 20, and the
  guard on \<open>limit = 0\<close> only makes the recursion total.
\<close>

datatype response = ACK string | ERR string | RAW string

definition getNotifyPayloadLimit :: "firmware \<Rightarrow> nat" where
  "getNotifyPayloadLimit s =
     (if \<not> bleConnected s then 20
      else if g_peerMtu s < 23 then 20
      else if g_peerMtu s - 3 < 20 then 20 else g_peerMtu s - 3)"

function chunked :: "nat \<Rightarrow> string \<Rightarrow> string list" where
  "chunked limit text =
     (if text = [] \<or> limit = 0 then []
      else take limit text # chunked limit (drop limit text))"
  by pat_completeness auto
termination
  by (relation "measure (\<lambda>(limit, text). length text)") auto

declare chunked.simps [simp del]

definition bleNotifyChunked :: "string \<Rightarrow> firmware \<Rightarrow> string list" where
  "bleNotifyChunked text s =
     (if \<not> bleConnected s then [] else chunked (getNotifyPayloadLimit s) text)"

definition transmitted :: "response \<Rightarrow> firmware \<Rightarrow> string list" where
  "transmitted r s =
     (case r of
        ACK original \<Rightarrow> bleNotifyChunked (''ACK:'' @ original) s
      | ERR original \<Rightarrow> bleNotifyChunked (''ERR:'' @ original) s
      | RAW text \<Rightarrow> bleNotifyChunked text s)"

section \<open>Ramp engine\<close>

definition cancelPendingReverse :: "firmware \<Rightarrow> firmware" where
  "cancelPendingReverse s =
     s\<lparr>reversePending := False, pendingStage := PS_NONE, pendingSuppressKickOnce := False\<rparr>"

definition cancelAllMotionActivities :: "firmware \<Rightarrow> firmware" where
  "cancelAllMotionActivities s =
     s\<lparr>rampActive := False, kickActive := False, postKickPending := False\<rparr>"

definition startRamp ::
  "Direction \<Rightarrow> int \<Rightarrow> int \<Rightarrow> u32 \<Rightarrow> RampKind \<Rightarrow> u32 \<Rightarrow> firmware \<Rightarrow> firmware" where
  "startRamp dirDuringRamp startThr endThr durationMs kind now s =
     (let s1 = cancelAllMotionActivities s;
          st = clampI32 startThr 0 100;
          en = clampI32 endThr 0 100;
          s2 = s1\<lparr>rampKind := kind, rampDirection := dirDuringRamp,
                  targetDirection := (if en = 0 then STOP else dirDuringRamp),
                  targetThrottle := en\<rparr>
      in if durationMs = 0 \<or> st = en
         then (let s3 = setApplied dirDuringRamp en s2
               in applyPwmOutputs (currentDirection s3) (appliedThrottle s3) s3)
         else s2\<lparr>rampActive := True, rampStartMs := now, rampDurationMs := durationMs,
                 rampStartThrottle := st, rampTargetThrottle := en,
                 currentDirection := (if st = 0 \<and> en = 0 then STOP else dirDuringRamp)\<rparr>)"

section \<open>Start assist: MINSTART and KICK\<close>

definition effectiveStartTargetThrottle :: "int \<Rightarrow> bool \<Rightarrow> firmware \<Rightarrow> int" where
  "effectiveStartTargetThrottle requestedThr startingFromStop s =
     (let r = clampI32 requestedThr 0 100
      in if \<not> startingFromStop then r
         else if cfgMinStart s > 0 \<and> r > 0 then max r (cfgMinStart s)
         else r)"

definition shouldKickOnStart :: "bool \<Rightarrow> int \<Rightarrow> firmware \<Rightarrow> bool" where
  "shouldKickOnStart startingFromStop finalTargetThr s =
     (if \<not> startingFromStop then False
      else if finalTargetThr \<le> 0 then False
      else if cfgKickThrottle s \<le> 0 \<or> cfgKickMs s \<le> 0 then False
      else if finalTargetThr > cfgKickMaxApply s then False
      else True)"

definition beginKick ::
  "Direction \<Rightarrow> int \<Rightarrow> bool \<Rightarrow> bool \<Rightarrow> u32 \<Rightarrow> u32 \<Rightarrow> u32 \<Rightarrow> firmware \<Rightarrow> firmware" where
  "beginKick dir finalTargetThr afterKickIsInstant afterKickIsMomentum accelMs decelMs now s =
     (let kickThr = clampI32 (max (cfgKickThrottle s) (cfgMinStart s)) 0 100;
          s1 = s\<lparr>kickActive := True, kickDirection := dir, kickHoldThrottle := kickThr,
                 kickEndMs := now + word_of_int (cfgKickMs s)\<rparr>;
          s2 = setApplied dir (kickHoldThrottle s1) s1;
          s3 = applyPwmOutputs (currentDirection s2) (appliedThrottle s2) s2;
          s4 = s3\<lparr>postKickPending := True, postKickDir := dir,
                  postKickFinalThr := finalTargetThr,
                  postKickIsInstant := afterKickIsInstant,
                  postKickIsMomentum := afterKickIsMomentum,
                  postKickFullAccelMs := accelMs, postKickFullDecelMs := decelMs\<rparr>
      in setTarget dir finalTargetThr s4)"

definition continueAfterKickIfNeeded :: "u32 \<Rightarrow> firmware \<Rightarrow> firmware" where
  "continueAfterKickIfNeeded now s =
     (if \<not> postKickPending s then s
      else
        let dir = postKickDir s;
            finalThr = clampI32 (postKickFinalThr s) 0 100;
            s1 = s\<lparr>postKickPending := False\<rparr>;
            isInstant = postKickIsInstant s1;
            recoverTo = (if isInstant then finalThr else 0);
            rd = (word_of_int (cfgKickRampDownMs s1) :: u32);
            s2 = (if \<not> isInstant
                  then s1\<lparr>pendingFinalDirection := dir,
                          pendingFinalTargetThrottle := finalThr,
                          pendingFinalIsInstant := False,
                          pendingFinalIsMomentum := True,
                          pendingFullAccelMs := postKickFullAccelMs s1,
                          pendingFullDecelMs := postKickFullDecelMs s1,
                          pendingSkipDirDelay := True,
                          reversePending := True,
                          pendingStage := PS_NONE,
                          pendingSuppressKickOnce := True\<rparr>
                  else s1)
        in if rd = 0
           then (let s3 = setApplied dir recoverTo s2;
                     s4 = applyPwmOutputs (currentDirection s3) (appliedThrottle s3) s3
                 in if \<not> isInstant \<and> recoverTo = 0 \<and> reversePending s4
                    then s4\<lparr>pendingStage := WAIT_DIR_DELAY, pendingStageUntilMs := now,
                            pendingSkipDirDelay := False\<rparr>
                    else s4)
           else startRamp dir (appliedThrottle s2) recoverTo rd QUICKSTOP now s2)"

section \<open>Motion command execution\<close>

definition executeStopRamp :: "RampKind \<Rightarrow> u32 \<Rightarrow> firmware \<Rightarrow> firmware" where
  "executeStopRamp kind now s =
     (let s1 = cancelAllMotionActivities s;
          startThr = appliedThrottle s1;
          deltaAbs = \<bar>startThr\<bar>;
          full = (if kind = MOMENTUM then FULL_MOMENTUM_DECEL_MS
                  else if kind = BRAKE then FULL_BRAKE_MS
                  else FULL_QUICKSTOP_MS);
          dur = scaledDurationMs full deltaAbs;
          s2 = setTarget STOP 0 s1;
          dir = (if currentDirection s2 = STOP then STOP else currentDirection s2)
      in startRamp dir startThr 0 dur kind now s2)"

definition scheduleReverseAfterStop ::
  "Direction \<Rightarrow> int \<Rightarrow> bool \<Rightarrow> bool \<Rightarrow> firmware \<Rightarrow> firmware" where
  "scheduleReverseAfterStop finalDir finalThr isInstant isMomentum s =
     s\<lparr>pendingFinalTargetThrottle := finalThr, pendingFinalDirection := finalDir,
       pendingFinalIsInstant := isInstant, pendingFinalIsMomentum := isMomentum,
       reversePending := True, pendingStage := PS_NONE\<rparr>"

definition executeInstant :: "Direction \<Rightarrow> int \<Rightarrow> u32 \<Rightarrow> firmware \<Rightarrow> firmware" where
  "executeInstant dir requestedThr now s =
     (let s1 = cancelAllMotionActivities (cancelPendingReverse s);
          thr = clampI32 requestedThr 0 100;
          s2 = setTarget dir thr s1
      in if thr = 0 then stopMotorNow s2
         else if currentDirection s2 \<noteq> STOP \<and> currentDirection s2 \<noteq> dir
         then executeStopRamp QUICKSTOP now (scheduleReverseAfterStop dir thr True False s2)
         else
           let startingFromStop = (appliedThrottle s2 = 0 \<and> currentDirection s2 = STOP);
               effThr = effectiveStartTargetThrottle thr startingFromStop s2;
               s3 = setTarget dir effThr s2
           in if shouldKickOnStart startingFromStop effThr s3
              then beginKick dir effThr True False 0 0 now s3
              else (let s4 = setApplied dir effThr s3
                    in applyPwmOutputs (currentDirection s4) (appliedThrottle s4) s4))"

definition executeRampedMove ::
  "Direction \<Rightarrow> int \<Rightarrow> u32 \<Rightarrow> u32 \<Rightarrow> RampKind \<Rightarrow> u32 \<Rightarrow> firmware \<Rightarrow> firmware" where
  "executeRampedMove dir requestedThr fullScaleAccelMs fullScaleDecelMs stopFirstRampKind now s =
     (let s1 = cancelAllMotionActivities (cancelPendingReverse s);
          thr = clampI32 requestedThr 0 100;
          s2 = setTarget dir thr s1
      in if thr = 0 then executeStopRamp stopFirstRampKind now s2
         else if currentDirection s2 \<noteq> STOP \<and> currentDirection s2 \<noteq> dir
         then executeStopRamp stopFirstRampKind now
                ((scheduleReverseAfterStop dir thr False True s2)
                   \<lparr>pendingFullAccelMs := fullScaleAccelMs,
                    pendingFullDecelMs := fullScaleDecelMs\<rparr>)
         else
           let startingFromStop = (appliedThrottle s2 = 0 \<and> currentDirection s2 = STOP);
               effTarget = effectiveStartTargetThrottle thr startingFromStop s2;
               s3 = setTarget dir effTarget s2;
               s4 = (if startingFromStop then s3\<lparr>currentDirection := dir\<rparr> else s3)
           in if shouldKickOnStart startingFromStop effTarget s4
              then beginKick dir effTarget False True fullScaleAccelMs fullScaleDecelMs now
                     (s4\<lparr>pendingFullAccelMs := fullScaleAccelMs,
                         pendingFullDecelMs := fullScaleDecelMs\<rparr>)
              else
                let startThr = appliedThrottle s4;
                    deltaAbs = \<bar>effTarget - startThr\<bar>
                in if deltaAbs = 0
                   then applyPwmOutputs (currentDirection s4) (appliedThrottle s4) s4
                   else
                     let full = (if effTarget > startThr then fullScaleAccelMs
                                 else fullScaleDecelMs);
                         dur = scaledDurationMs full deltaAbs
                     in startRamp dir startThr effTarget dur MOMENTUM now s4)"

definition executeMomentum :: "Direction \<Rightarrow> int \<Rightarrow> u32 \<Rightarrow> firmware \<Rightarrow> firmware" where
  "executeMomentum dir requestedThr now s =
     executeRampedMove dir requestedThr FULL_MOMENTUM_ACCEL_MS FULL_MOMENTUM_DECEL_MS
       MOMENTUM now s"

definition executeQuickRamp :: "Direction \<Rightarrow> int \<Rightarrow> u32 \<Rightarrow> firmware \<Rightarrow> firmware" where
  "executeQuickRamp dir requestedThr now s =
     executeRampedMove dir requestedThr FULL_QUICKRAMP_ACCEL_MS FULL_QUICKRAMP_DECEL_MS
       QUICKSTOP now s"

section \<open>Link callbacks\<close>

definition onConnect :: "nat \<Rightarrow> firmware \<Rightarrow> firmware" where
  "onConnect mtu s =
     (let s1 = s\<lparr>bleConnected := True, g_peerMtu := (if mtu < 23 then 23 else mtu)\<rparr>
      in if graceActive s1 then s1\<lparr>graceActive := False\<rparr> else s1)"

definition onDisconnect :: "u32 \<Rightarrow> firmware \<Rightarrow> firmware" where
  "onDisconnect now s =
     s\<lparr>bleConnected := False, g_peerMtu := 23, graceActive := True, disconnectMs := now\<rparr>"

section \<open>Command dispatcher\<close>

text \<open>
  The tokenizer of the \<^verbatim>\<open>K\<close> handler fills at most four slots; the first argument of
  \<open>kickTokens\<close> is the number of slots still free (the loop condition \<^verbatim>\<open>tokCount < 4\<close>).
\<close>

fun kickTokens :: "nat \<Rightarrow> string \<Rightarrow> string list" where
  "kickTokens 0 args = []"
| "kickTokens (Suc n) args =
     (let comma = indexOf (CHR '','') args
      in if comma < 0 then [args]
         else substring 0 (nat comma) args
                # kickTokens n (trim (substringFrom (nat (comma + 1)) args)))"

definition onWriteKick :: "string \<Rightarrow> string \<Rightarrow> firmware \<Rightarrow> response option \<times> firmware" where
  "onWriteKick preserved original s =
     (let tok0 = kickTokens 4 (trim (substringFrom 1 original));
          tokCount = length tok0
      in if tokCount \<noteq> 2 \<and> tokCount \<noteq> 4 then (Some (ERR preserved), s)
         else
           let tok = map trim tok0
           in if \<not> isDigitStr (tok ! 0) \<or> \<not> isDigitStr (tok ! 1)
              then (Some (ERR preserved), s)
              else
                let s1 = s\<lparr>cfgKickThrottle := clampI32 (toInt (tok ! 0)) 0 100,
                           cfgKickMs := clampI32 (toInt (tok ! 1)) 0 2000\<rparr>
                in if tokCount = 4
                   then (if \<not> isDigitStr (tok ! 2) \<or> \<not> isDigitStr (tok ! 3)
                         then (Some (ERR preserved), s1)
                         else (Some (ACK preserved),
                               s1\<lparr>cfgKickRampDownMs := clampI32 (toInt (tok ! 2)) 0 2000,
                                  cfgKickMaxApply := clampI32 (toInt (tok ! 3)) 0 100\<rparr>))
                   else (Some (ACK preserved),
                         s1\<lparr>cfgKickRampDownMs := 80, cfgKickMaxApply := 15\<rparr>))"

definition onWrite :: "string \<Rightarrow> u32 \<Rightarrow> firmware \<Rightarrow> response option \<times> firmware" where
  "onWrite val now s =
     (if val = [] then (None, s)
      else
        let preserved = takeWhile (\<lambda>c. c \<noteq> CHR 0x00) val;
            original = removeChar (CHR 0x0A) (removeChar (CHR 0x0D) (trim preserved));
            upper = toUpperCase original;
            allowMotionNow = (\<not> (forcedStopLatched s \<and> \<not> bleConnected s))
        in if upper = ''?'' then (Some (RAW (getHwStateString s)), s)
           else if upper = ''??'' then (Some (RAW (getStateString s)), s)
           else if upper = ''V'' then (Some (ACK FW_VERSION), s)
           else if upper = ''G''
           then (Some (RAW (substringFrom (length SERVICE_UUID - 17) SERVICE_UUID)), s)
           else if upper = ''D1'' then (Some (ACK preserved), s\<lparr>debugMode := True\<rparr>)
           else if upper = ''D0'' then (Some (ACK preserved), s\<lparr>debugMode := False\<rparr>)
           else if upper = ''P0'' then (Some (ACK preserved), s\<lparr>printPeriodic := True\<rparr>)
           else if upper = ''P1'' then (Some (ACK preserved), s\<lparr>printPeriodic := False\<rparr>)
           else if startsWith upper ''M''
           then (let nStr = trim (substringFrom (length ''M'') original)
                 in if \<not> isDigitStr nStr then (Some (ERR preserved), s)
                    else (Some (ACK preserved),
                          s\<lparr>cfgMinStart := clampI32 (toInt nStr) 0 100\<rparr>))
           else if startsWith upper ''K'' then onWriteKick preserved original s
           else if upper = ''S''
           then (Some (ACK preserved),
                 if allowMotionNow then executeStopRamp QUICKSTOP now s else stopMotorNow s)
           else if upper = ''B''
           then (Some (ACK preserved),
                 if allowMotionNow then executeStopRamp BRAKE now s else stopMotorNow s)
           else if startsWith upper ''FQ'' \<or> startsWith upper ''RQ''
           then (let nStr = trim (substringFrom 2 original)
                 in if \<not> isDigitStr nStr then (Some (ERR preserved), s)
                    else
                      let n = clampI32 (toInt nStr) 0 100
                      in (Some (ACK preserved),
                          if allowMotionNow
                          then executeQuickRamp (if startsWith upper ''FQ'' then FWD else REV) n
                                 now
                                 (if forcedStopLatched s \<and> bleConnected s
                                  then s\<lparr>forcedStopLatched := False\<rparr> else s)
                          else stopMotorNow s))
           else if startsWith upper ''F'' \<or> startsWith upper ''R''
           then (if startsWith upper ''FQ'' \<or> startsWith upper ''RQ''
                 then (Some (ERR preserved), s)
                 else
                   let nStr = trim (substringFrom 1 original)
                   in if \<not> isDigitStr nStr then (Some (ERR preserved), s)
                      else
                        let n = clampI32 (toInt nStr) 0 100
                        in (Some (ACK preserved),
                            if allowMotionNow
                            then executeMomentum (if startsWith upper ''F'' then FWD else REV) n
                                   now
                                   (if forcedStopLatched s \<and> bleConnected s
                                    then s\<lparr>forcedStopLatched := False\<rparr> else s)
                            else stopMotorNow s))
           else (Some (ERR preserved), s))"

section \<open>The periodic tick\<close>

definition processRamp :: "u32 \<Rightarrow> firmware \<Rightarrow> firmware" where
  "processRamp now s =
     (if \<not> rampActive s then s
      else
        let elapsed = now - rampStartMs s;
            newThr = smoothstepEasedThrottle (rampStartThrottle s) (rampTargetThrottle s)
                       elapsed (rampDurationMs s);
            s1 = (if rampTargetThrottle s = 0 \<and> newThr = 0
                  then applyPwmOutputs STOP 0 (setApplied STOP 0 s)
                  else (let a = setApplied (rampDirection s) newThr s
                        in applyPwmOutputs (currentDirection a) (appliedThrottle a) a))
        in if elapsed \<ge> rampDurationMs s1
           then
             let s2 = s1\<lparr>rampActive := False\<rparr>;
                 s3 = (if rampTargetThrottle s2 = 0
                       then applyPwmOutputs STOP 0 (setApplied STOP 0 s2)
                       else (let a = setApplied (rampDirection s2) (rampTargetThrottle s2) s2
                             in applyPwmOutputs (currentDirection a) (appliedThrottle a) a))
             in if reversePending s3 \<and> rampTargetThrottle s3 = 0
                then s3\<lparr>pendingStage := WAIT_DIR_DELAY,
                        pendingStageUntilMs :=
                          now + (if pendingSkipDirDelay s3 then 0 else DIR_CHANGE_DELAY_MS),
                        pendingSkipDirDelay := False\<rparr>
                else s3
           else s1)"

definition processPendingReverse :: "u32 \<Rightarrow> firmware \<Rightarrow> firmware" where
  "processPendingReverse now s =
     (if \<not> reversePending s then s
      else if pendingStage s \<noteq> WAIT_DIR_DELAY then s
      else if sint (now - pendingStageUntilMs s) < 0 then s
      else
        let suppressKick = pendingSuppressKickOnce s;
            s1 = s\<lparr>pendingStage := PS_NONE, pendingSuppressKickOnce := False\<rparr>;
            dir = pendingFinalDirection s1;
            thr = clampI32 (pendingFinalTargetThrottle s1) 0 100;
            startingFromStop = (appliedThrottle s1 = 0 \<and> currentDirection s1 = STOP);
            effThr = effectiveStartTargetThrottle thr startingFromStop s1;
            s2 = setTarget dir effThr s1
        in if \<not> suppressKick \<and> shouldKickOnStart startingFromStop effThr s2
           then beginKick dir effThr (pendingFinalIsInstant s2) (pendingFinalIsMomentum s2)
                  (pendingFullAccelMs s2) (pendingFullDecelMs s2) now s2
           else
             let s3 = s2\<lparr>reversePending := False\<rparr>
             in if pendingFinalIsInstant s3
                then (let a = setApplied dir effThr s3
                      in applyPwmOutputs (currentDirection a) (appliedThrottle a) a)
                else if pendingFinalIsMomentum s3
                then startRamp dir 0 effThr (scaledDurationMs (pendingFullAccelMs s3) \<bar>effThr\<bar>)
                       MOMENTUM now s3
                else (let a = setApplied dir effThr s3
                      in applyPwmOutputs (currentDirection a) (appliedThrottle a) a))"

definition processKick :: "u32 \<Rightarrow> firmware \<Rightarrow> firmware" where
  "processKick now s =
     (if \<not> kickActive s then s
      else if sint (now - kickEndMs s) < 0
      then (let a = setApplied (kickDirection s) (kickHoldThrottle s) s
            in applyPwmOutputs (currentDirection a) (appliedThrottle a) a)
      else continueAfterKickIfNeeded now (s\<lparr>kickActive := False\<rparr>))"

definition processBleGrace :: "u32 \<Rightarrow> firmware \<Rightarrow> firmware" where
  "processBleGrace now s =
     (if \<not> graceActive s then s
      else if now - disconnectMs s \<ge> BLE_GRACE_MS
      then executeStopRamp QUICKSTOP now (s\<lparr>graceActive := False, forcedStopLatched := True\<rparr>)
      else s)"

text \<open>The last step of \<^verbatim>\<open>loop()\<close>: re-assert the output while neither ramp nor kick runs.\<close>

definition idleReassert :: "firmware \<Rightarrow> firmware" where
  "idleReassert s =
     (if \<not> rampActive s \<and> \<not> kickActive s
      then (let s1 = (if appliedThrottle s = 0 then s\<lparr>currentDirection := STOP\<rparr> else s)
            in applyPwmOutputs (currentDirection s1) (appliedThrottle s1) s1)
      else s)"

text \<open>
  One pass of \<^verbatim>\<open>loop()\<close>, with the clock read once for the whole pass. The sub-steps are
  also events of their own below, each with its own clock value.
\<close>

definition loop :: "u32 \<Rightarrow> firmware \<Rightarrow> firmware" where
  "loop now s =
     idleReassert (processPendingReverse now (processRamp now (processKick now
       (processBleGrace now s))))"

section \<open>Boot state and executions\<close>

text \<open>The initialisers of the file-scope variables, followed by \<^verbatim>\<open>stopMotorNow("Boot")\<close>.\<close>

definition initialGlobals :: firmware where
  "initialGlobals =
     \<lparr>pendingFullAccelMs = FULL_MOMENTUM_ACCEL_MS, pendingFullDecelMs = FULL_MOMENTUM_DECEL_MS,
      pendingSkipDirDelay = False, pendingSuppressKickOnce = False, debugMode = False,
      appliedThrottle = 0, targetThrottle = 0, currentDirection = STOP,
      targetDirection = STOP, rampActive = False, rampStartMs = 0, rampDurationMs = 0,
      rampStartThrottle = 0, rampTargetThrottle = 0, rampDirection = STOP,
      rampKind = RK_NONE, cfgMinStart = 0, cfgKickThrottle = 0, cfgKickMs = 0,
      cfgKickRampDownMs = 80, cfgKickMaxApply = 15, kickActive = False, kickEndMs = 0,
      kickHoldThrottle = 0, kickDirection = STOP, postKickPending = False,
      postKickDir = STOP, postKickFinalThr = 0, postKickIsInstant = False,
      postKickIsMomentum = False, postKickFullAccelMs = FULL_MOMENTUM_ACCEL_MS,
      postKickFullDecelMs = FULL_MOMENTUM_DECEL_MS, reversePending = False,
      pendingStage = PS_NONE, pendingStageUntilMs = 0, pendingFinalTargetThrottle = 0,
      pendingFinalDirection = STOP, pendingFinalIsInstant = False,
      pendingFinalIsMomentum = False, bleConnected = False, graceActive = False,
      disconnectMs = 0, forcedStopLatched = False, printPeriodic = True, g_peerMtu = 23,
      ledcDutyR = 0, ledcDutyL = 0, driverEnabled = False\<rparr>"

definition boot :: firmware where
  "boot = stopMotorNow initialGlobals"

text \<open>
  An execution is a list of events: a command written by the peer, a link notification, one
  whole pass of the tick, or one sub-step of it. Commands and sub-steps are atomic here; the
  list may interleave them in any order and with any clock values.
\<close>

datatype event =
    Write string u32
  | Connect nat
  | Disconnect u32
  | BleGrace u32
  | Kick u32
  | Ramp u32
  | PendingReverse u32
  | Idle
  | Tick u32

fun step :: "event \<Rightarrow> firmware \<Rightarrow> firmware" where
  "step (Write val now) s = snd (onWrite val now s)"
| "step (Connect mtu) s = onConnect mtu s"
| "step (Disconnect now) s = onDisconnect now s"
| "step (BleGrace now) s = processBleGrace now s"
| "step (Kick now) s = processKick now s"
| "step (Ramp now) s = processRamp now s"
| "step (PendingReverse now) s = processPendingReverse now s"
| "step Idle s = idleReassert s"
| "step (Tick now) s = loop now s"

definition run :: "event list \<Rightarrow> firmware \<Rightarrow> firmware" where
  "run evs s = foldl (\<lambda>st e. step e st) s evs"

definition ticks :: "u32 list \<Rightarrow> firmware \<Rightarrow> firmware" where
  "ticks ts s = foldl (\<lambda>st t. loop t st) s ts"

section \<open>Reachable-state invariant\<close>

text \<open>
  The facts about the state that every command, link notification and tick sub-step
  preserves: the applied throttle is a percentage, a non-zero throttle has a direction,
  every armed activity carries a driving direction, a ramp and a kick never run together,
  the direction-delay stage is only waited in at rest, the start-assist configuration is
  within its ranges, and a grace countdown only runs while the link is down.
\<close>

definition wellformed :: "firmware \<Rightarrow> bool" where
  "wellformed s =
     (0 \<le> appliedThrottle s \<and> appliedThrottle s \<le> 100
      \<and> (appliedThrottle s \<noteq> 0 \<longrightarrow> currentDirection s \<noteq> STOP)
      \<and> (rampActive s \<longrightarrow> rampDirection s \<noteq> STOP)
      \<and> (rampActive s \<longrightarrow> \<not> kickActive s)
      \<and> (kickActive s \<longrightarrow> kickDirection s \<noteq> STOP)
      \<and> (postKickPending s \<longrightarrow> postKickDir s \<noteq> STOP)
      \<and> (reversePending s \<longrightarrow> pendingFinalDirection s \<noteq> STOP)
      \<and> (pendingStage s = WAIT_DIR_DELAY \<longrightarrow> appliedThrottle s = 0)
      \<and> (pendingStage s = WAIT_DIR_DELAY \<longrightarrow> \<not> rampActive s)
      \<and> (pendingStage s = WAIT_DIR_DELAY \<longrightarrow> \<not> kickActive s)
      \<and> 0 \<le> cfgMinStart s \<and> cfgMinStart s \<le> 100
      \<and> 0 \<le> cfgKickThrottle s \<and> cfgKickThrottle s \<le> 100
      \<and> 0 \<le> cfgKickMs s \<and> cfgKickMs s \<le> 2000
      \<and> 0 \<le> cfgKickRampDownMs s \<and> cfgKickRampDownMs s \<le> 2000
      \<and> 0 \<le> cfgKickMaxApply s \<and> cfgKickMaxApply s \<le> 100
      \<and> (graceActive s \<longrightarrow> \<not> bleConnected s))"

text \<open>
  The state with its output fields blanked. A running ramp changes nothing else, so two
  states of one ramp agree under \<open>controlState\<close>.
\<close>

definition controlState :: "firmware \<Rightarrow> firmware" where
  "controlState s =
     s\<lparr>currentDirection := STOP, appliedThrottle := 0, ledcDutyR := 0, ledcDutyL := 0,
       driverEnabled := False\<rparr>"

section \<open>The easing curve as the specification words it\<close>

text \<open>
  Written from the specification, for comparison with \<open>smoothstepEasedThrottle\<close>: the
  progress \<open>p\<close> is the quotient \<open>elapsed * 1000 / duration\<close> clamped to \<open>[0, 1000]\<close>, with no
  intermediate narrowing; \<open>e = 3 p\<^sup>2 / 1000 - 2 p\<^sup>3 / 1000\<^sup>2\<close>; the result is
  \<open>start + (end - start) * e / 1000\<close> clamped to \<open>[0, 100]\<close>.
\<close>

definition smoothstep_spec :: "int \<Rightarrow> int \<Rightarrow> nat \<Rightarrow> nat \<Rightarrow> int" where
  "smoothstep_spec startThr endThr elapsed duration =
     (if duration = 0 then endThr
      else
        let p = clampI32 (int (elapsed * 1000 div duration)) 0 1000;
            e = cdiv (3 * p * p) 1000 - cdiv (2 * p * p * p) (1000 * 1000)
        in clampI32 (startThr + cdiv ((endThr - startThr) * e) 1000) 0 100)"

section \<open>Named executions\<close>

text \<open>
  \<open>latched_moving\<close>: the peer connects, sends \<^verbatim>\<open>FQ50\<close>, the quick ramp completes at 50 percent
  forward, the link drops, and the grace countdown expires 15 s later; the forced stop is
  latched and the QuickStop ramp has just begun.
\<close>

definition latched_moving :: firmware where
  "latched_moving =
     run [Connect 23, Write ''FQ50'' 0, Ramp 1250, Disconnect 2000, BleGrace 17000] boot"

text \<open>\<open>ramp_started\<close>: the peer connects and sends \<^verbatim>\<open>F40\<close> to the stopped engine.\<close>

definition ramp_started :: firmware where
  "ramp_started = run [Connect 23, Write ''F40'' 1000] boot"

text \<open>
  \<open>kick_recovering\<close>: with kick configured by \<^verbatim>\<open>K60,200\<close>, \<^verbatim>\<open>F10\<close> from rest starts a kick at
  60 percent; the tick at its expiry stages the continuation and starts the 80 ms recovery
  ramp. \<open>reversal_commanded\<close>: \<^verbatim>\<open>R10\<close> arrives 10 ms into that recovery ramp.
  \<open>reversed_in_recovery\<close>: a tick half-way through the stop ramp of that reversal.
  \<open>stopped_in_reversal\<close>: a tick one millisecond before the stop ramp is due to end.
\<close>

definition kick_recovering :: firmware where
  "kick_recovering =
     run [Connect 23, Write ''K60,200'' 500, Write ''F10'' 1000, Tick 1200] boot"

definition reversal_commanded :: firmware where
  "reversal_commanded = run [Write ''R10'' 1210] kick_recovering"

definition reversed_in_recovery :: firmware where
  "reversed_in_recovery = run [Tick 7210] reversal_commanded"

definition stopped_in_reversal :: firmware where
  "stopped_in_reversal = run [Tick 13209] reversed_in_recovery"

text \<open>\<open>kick_configured\<close>: the peer connects and configures the kick with \<^verbatim>\<open>K60,200\<close>.\<close>

definition kick_configured :: firmware where
  "kick_configured = run [Connect 23, Write ''K60,200'' 500] boot"

text \<open>
  \<open>cruising\<close>: the peer connects and \<^verbatim>\<open>FQ100\<close> has brought the engine to 100 percent forward.
  \<open>reversal_on_link_loss\<close>: \<^verbatim>\<open>R30\<close> starts the stop-first reversal (a 20 s momentum stop
  ramp), the link drops one second later, and the tick at 18000 ms finds the stop ramp at
  three quarters of its time. \<open>latched_reversing\<close>: the tick at 19000 ms, 15 s after the link
  loss, at which the grace countdown expires. \<open>stopped_while_latched\<close>: two ticks later the
  QuickStop ramp has ended. \<open>resumed_while_latched\<close>: three more ticks, with the link still
  down and no command received.
\<close>

definition cruising :: firmware where
  "cruising = run [Connect 23, Write ''FQ100'' 0, Ramp 2500] boot"

definition reversal_on_link_loss :: firmware where
  "reversal_on_link_loss = run [Write ''R30'' 3000, Disconnect 4000, Tick 18000] cruising"

definition latched_reversing :: firmware where
  "latched_reversing = run [Tick 19000] reversal_on_link_loss"

definition stopped_while_latched :: firmware where
  "stopped_while_latched = run [Tick 19240, Tick 19480] latched_reversing"

definition resumed_while_latched :: firmware where
  "resumed_while_latched = run [Tick 21480, Tick 24480, Tick 27480] stopped_while_latched"

text \<open>
  \<open>strong_kick_recovering\<close>: with the kick configured by \<^verbatim>\<open>K100,200\<close>, \<^verbatim>\<open>F10\<close> from rest starts
  a kick at 100 percent, and the tick at its expiry starts the recovery ramp.
  \<open>strong_kick_reversal\<close>: \<^verbatim>\<open>R10\<close> arrives 10 ms later, the link drops, and the tick at
  16210 ms finds the stop ramp of the reversal at three quarters of its time.
  \<open>latched_in_reversal\<close>: the tick at 17000 ms, at which the grace countdown expires.
  \<open>reversed_while_latched\<close>: the tick at which the QuickStop ramp ends.
\<close>

definition strong_kick_recovering :: firmware where
  "strong_kick_recovering =
     run [Connect 23, Write ''K100,200'' 500, Write ''F10'' 1000, Tick 1200] boot"

definition strong_kick_reversal :: firmware where
  "strong_kick_reversal =
     run [Write ''R10'' 1210, Disconnect 2000, Tick 16210] strong_kick_recovering"

definition latched_in_reversal :: firmware where
  "latched_in_reversal = run [Tick 17000] strong_kick_reversal"

definition reversed_while_latched :: firmware where
  "reversed_while_latched = run [Tick 17480] latched_in_reversal"
section \<open>Basic facts\<close>

lemmas const_defs = P_SCALE_def PWM_MAX_DUTY_def FULL_MOMENTUM_ACCEL_MS_def FULL_MOMENTUM_DECEL_MS_def
  FULL_QUICKRAMP_ACCEL_MS_def FULL_QUICKRAMP_DECEL_MS_def FULL_BRAKE_MS_def FULL_QUICKSTOP_MS_def
  DIR_CHANGE_DELAY_MS_def BLE_GRACE_MS_def

lemma clamp_range [simp]: "lo \<le> hi \<Longrightarrow> lo \<le> clampI32 v lo hi \<and> clampI32 v lo hi \<le> hi"
  by (simp add: clampI32_def)

lemma clamp_id: "lo \<le> v \<Longrightarrow> v \<le> hi \<Longrightarrow> clampI32 v lo hi = v"
  by (simp add: clampI32_def)

lemma smooth_range: "0 \<le> b \<Longrightarrow> b \<le> 100 \<Longrightarrow> 0 \<le> smoothstepEasedThrottle a b e d \<and> smoothstepEasedThrottle a b e d \<le> 100"
  by (simp add: smoothstepEasedThrottle_def Let_def)

lemma scaled_zero [simp]: "scaledDurationMs f 0 = 0"
  by (simp add: scaledDurationMs_def clampI32_def)


lemma clamp_clamp [simp]: "clampI32 (clampI32 v 0 100) 0 100 = clampI32 v 0 100"
  by (simp add: clampI32_def)

lemma clamp_0 [simp]: "clampI32 0 0 100 = 0"
  by (simp add: clampI32_def)

lemma setApplied_nf:
  "setApplied dir thr s =
     s\<lparr>currentDirection := (if clampI32 thr 0 100 = 0 then STOP else dir),
       appliedThrottle := clampI32 thr 0 100\<rparr>"
  by (simp add: setApplied_def Let_def)

lemma setTarget_nf:
  "setTarget dir thr s =
     s\<lparr>targetDirection := (if clampI32 thr 0 100 = 0 then STOP else dir),
       targetThrottle := clampI32 thr 0 100\<rparr>"
  by (simp add: setTarget_def Let_def)

lemma applyPwmOutputs_nf:
  "applyPwmOutputs dir thr s =
     s\<lparr>ledcDutyR := (if thr \<le> 0 \<or> dir = STOP then 0
                      else if dir = FWD then throttleToDuty thr else 0),
       ledcDutyL := (if thr \<le> 0 \<or> dir = STOP then 0
                      else if dir = FWD then 0 else throttleToDuty thr),
       driverEnabled := (\<not> (thr \<le> 0 \<or> dir = STOP))\<rparr>"
  by (simp add: applyPwmOutputs_def driverEnable_def)

lemmas prim_nf = setApplied_nf setTarget_nf applyPwmOutputs_nf driverEnable_def
  cancelAllMotionActivities_def cancelPendingReverse_def scheduleReverseAfterStop_def

lemma startRamp_nf:
  "startRamp dir a b d k now s =
     (let st = clampI32 a 0 100; en = clampI32 b 0 100; imm = (d = 0 \<or> st = en);
          cd = (if imm then (if en = 0 then STOP else dir) else dir)
      in s\<lparr>rampActive := \<not> imm, kickActive := False, postKickPending := False,
           rampKind := k, rampDirection := dir,
           targetDirection := (if en = 0 then STOP else dir), targetThrottle := en,
           rampStartMs := (if imm then rampStartMs s else now),
           rampDurationMs := (if imm then rampDurationMs s else d),
           rampStartThrottle := (if imm then rampStartThrottle s else st),
           rampTargetThrottle := (if imm then rampTargetThrottle s else en),
           currentDirection := cd,
           appliedThrottle := (if imm then en else appliedThrottle s),
           ledcDutyR := (if imm then (if en \<le> 0 \<or> cd = STOP then 0
                                       else if cd = FWD then throttleToDuty en else 0)
                         else ledcDutyR s),
           ledcDutyL := (if imm then (if en \<le> 0 \<or> cd = STOP then 0
                                       else if cd = FWD then 0 else throttleToDuty en)
                         else ledcDutyL s),
           driverEnabled := (if imm then \<not> (en \<le> 0 \<or> cd = STOP) else driverEnabled s)\<rparr>)"
  by (simp add: startRamp_def prim_nf Let_def)


lemma beginKick_nf:
  "beginKick dir fin ai am acc dec now s =
     (let kt = clampI32 (max (cfgKickThrottle s) (cfgMinStart s)) 0 100;
          cd = (if kt = 0 then STOP else dir)
      in s\<lparr>kickActive := True, kickDirection := dir, kickHoldThrottle := kt,
           kickEndMs := now + word_of_int (cfgKickMs s),
           currentDirection := cd, appliedThrottle := kt,
           ledcDutyR := (if kt \<le> 0 \<or> cd = STOP then 0
                          else if cd = FWD then throttleToDuty kt else 0),
           ledcDutyL := (if kt \<le> 0 \<or> cd = STOP then 0
                          else if cd = FWD then 0 else throttleToDuty kt),
           driverEnabled := (\<not> (kt \<le> 0 \<or> cd = STOP)),
           postKickPending := True, postKickDir := dir, postKickFinalThr := fin,
           postKickIsInstant := ai, postKickIsMomentum := am,
           postKickFullAccelMs := acc, postKickFullDecelMs := dec,
           targetDirection := (if clampI32 fin 0 100 = 0 then STOP else dir),
           targetThrottle := clampI32 fin 0 100\<rparr>)"
  by (simp add: beginKick_def prim_nf Let_def)

lemma wellformed_executeStopRamp: "wellformed s \<Longrightarrow> wellformed (executeStopRamp kind now s)"
  unfolding wellformed_def
  apply (elim conjE)
  apply (intro conjI)
  apply (simp_all add: executeStopRamp_def startRamp_nf prim_nf Let_def clamp_id)
  done

lemma wellformed_cong:
  "appliedThrottle s' = appliedThrottle s \<Longrightarrow> currentDirection s' = currentDirection s \<Longrightarrow>
   rampActive s' = rampActive s \<Longrightarrow> rampDirection s' = rampDirection s \<Longrightarrow>
   kickActive s' = kickActive s \<Longrightarrow> kickDirection s' = kickDirection s \<Longrightarrow>
   postKickPending s' = postKickPending s \<Longrightarrow> postKickDir s' = postKickDir s \<Longrightarrow>
   reversePending s' = reversePending s \<Longrightarrow>
   pendingFinalDirection s' = pendingFinalDirection s \<Longrightarrow>
   pendingStage s' = pendingStage s \<Longrightarrow> cfgMinStart s' = cfgMinStart s \<Longrightarrow>
   cfgKickThrottle s' = cfgKickThrottle s \<Longrightarrow> cfgKickMs s' = cfgKickMs s \<Longrightarrow>
   cfgKickRampDownMs s' = cfgKickRampDownMs s \<Longrightarrow>
   cfgKickMaxApply s' = cfgKickMaxApply s \<Longrightarrow> graceActive s' = graceActive s \<Longrightarrow>
   bleConnected s' = bleConnected s \<Longrightarrow> wellformed s' = wellformed s"
  by (simp add: wellformed_def)

lemma wellformed_setTarget [simp]: "wellformed (setTarget d t s) = wellformed s"
  by (rule wellformed_cong) (simp_all add: setTarget_nf)

lemma wellformed_applyPwmOutputs [simp]: "wellformed (applyPwmOutputs d t s) = wellformed s"
  by (rule wellformed_cong) (simp_all add: applyPwmOutputs_nf)

lemma wellformed_driverEnable [simp]: "wellformed (driverEnable b s) = wellformed s"
  by (rule wellformed_cong) (simp_all add: driverEnable_def)

lemma wellformed_cancelAll: "wellformed s \<Longrightarrow> wellformed (cancelAllMotionActivities s)"
  by (simp add: wellformed_def cancelAllMotionActivities_def)

lemma wellformed_cancelPending: "wellformed s \<Longrightarrow> wellformed (cancelPendingReverse s)"
  by (simp add: wellformed_def cancelPendingReverse_def)

lemma wellformed_schedule: "wellformed s \<Longrightarrow> dir \<noteq> STOP \<Longrightarrow> wellformed (scheduleReverseAfterStop dir t i m s)"
  by (simp add: wellformed_def scheduleReverseAfterStop_def)

lemma wellformed_setApplied:
  "wellformed s \<Longrightarrow> (clampI32 t 0 100 \<noteq> 0 \<longrightarrow> dir \<noteq> STOP) \<Longrightarrow>
   (pendingStage s = WAIT_DIR_DELAY \<longrightarrow> clampI32 t 0 100 = 0) \<Longrightarrow> wellformed (setApplied dir t s)"
  by (simp add: wellformed_def setApplied_nf)

lemma wellformed_startRamp:
  "wellformed s \<Longrightarrow> dir \<noteq> STOP \<Longrightarrow> pendingStage s \<noteq> WAIT_DIR_DELAY \<Longrightarrow>
   wellformed (startRamp dir a b d k now s)"
  unfolding wellformed_def
  apply (elim conjE)
  apply (intro conjI)
  apply (simp_all add: startRamp_nf Let_def)
  done

lemma wellformed_beginKick:
  "wellformed s \<Longrightarrow> dir \<noteq> STOP \<Longrightarrow> \<not> rampActive s \<Longrightarrow> pendingStage s \<noteq> WAIT_DIR_DELAY \<Longrightarrow>
   wellformed (beginKick dir fin ai am acc dec now s)"
  unfolding wellformed_def
  apply (elim conjE)
  apply (intro conjI)
  apply (simp_all add: beginKick_nf Let_def)
  done

lemma wellformed_stopMotorNow: "wellformed s \<Longrightarrow> wellformed (stopMotorNow s)"
  unfolding wellformed_def
  apply (elim conjE)
  apply (intro conjI)
  apply (simp_all add: stopMotorNow_def prim_nf Let_def)
  done

lemma effectiveStartTargetThrottle_frame [simp]:
  "effectiveStartTargetThrottle r b (s\<lparr>pendingFullAccelMs := u_pendingFullAccelMs\<rparr>) = effectiveStartTargetThrottle r b s"
  "effectiveStartTargetThrottle r b (s\<lparr>pendingFullDecelMs := u_pendingFullDecelMs\<rparr>) = effectiveStartTargetThrottle r b s"
  "effectiveStartTargetThrottle r b (s\<lparr>pendingSkipDirDelay := u_pendingSkipDirDelay\<rparr>) = effectiveStartTargetThrottle r b s"
  "effectiveStartTargetThrottle r b (s\<lparr>pendingSuppressKickOnce := u_pendingSuppressKickOnce\<rparr>) = effectiveStartTargetThrottle r b s"
  "effectiveStartTargetThrottle r b (s\<lparr>debugMode := u_debugMode\<rparr>) = effectiveStartTargetThrottle r b s"
  "effectiveStartTargetThrottle r b (s\<lparr>appliedThrottle := u_appliedThrottle\<rparr>) = effectiveStartTargetThrottle r b s"
  "effectiveStartTargetThrottle r b (s\<lparr>targetThrottle := u_targetThrottle\<rparr>) = effectiveStartTargetThrottle r b s"
  "effectiveStartTargetThrottle r b (s\<lparr>currentDirection := u_currentDirection\<rparr>) = effectiveStartTargetThrottle r b s"
  "effectiveStartTargetThrottle r b (s\<lparr>targetDirection := u_targetDirection\<rparr>) = effectiveStartTargetThrottle r b s"
  "effectiveStartTargetThrottle r b (s\<lparr>rampActive := u_rampActive\<rparr>) = effectiveStartTargetThrottle r b s"
  "effectiveStartTargetThrottle r b (s\<lparr>rampStartMs := u_rampStartMs\<rparr>) = effectiveStartTargetThrottle r b s"
  "effectiveStartTargetThrottle r b (s\<lparr>rampDurationMs := u_rampDurationMs\<rparr>) = effectiveStartTargetThrottle r b s"
  "effectiveStartTargetThrottle r b (s\<lparr>rampStartThrottle := u_rampStartThrottle\<rparr>) = effectiveStartTargetThrottle r b s"
  "effectiveStartTargetThrottle r b (s\<lparr>rampTargetThrottle := u_rampTargetThrottle\<rparr>) = effectiveStartTargetThrottle r b s"
  "effectiveStartTargetThrottle r b (s\<lparr>rampDirection := u_rampDirection\<rparr>) = effectiveStartTargetThrottle r b s"
  "effectiveStartTargetThrottle r b (s\<lparr>rampKind := u_rampKind\<rparr>) = effectiveStartTargetThrottle r b s"
  "effectiveStartTargetThrottle r b (s\<lparr>cfgKickThrottle := u_cfgKickThrottle\<rparr>) = effectiveStartTargetThrottle r b s"
  "effectiveStartTargetThrottle r b (s\<lparr>cfgKickMs := u_cfgKickMs\<rparr>) = effectiveStartTargetThrottle r b s"
  "effectiveStartTargetThrottle r b (s\<lparr>cfgKickRampDownMs := u_cfgKickRampDownMs\<rparr>) = effectiveStartTargetThrottle r b s"
  "effectiveStartTargetThrottle r b (s\<lparr>cfgKickMaxApply := u_cfgKickMaxApply\<rparr>) = effectiveStartTargetThrottle r b s"
  "effectiveStartTargetThrottle r b (s\<lparr>kickActive := u_kickActive\<rparr>) = effectiveStartTargetThrottle r b s"
  "effectiveStartTargetThrottle r b (s\<lparr>kickEndMs := u_kickEndMs\<rparr>) = effectiveStartTargetThrottle r b s"
  "effectiveStartTargetThrottle r b (s\<lparr>kickHoldThrottle := u_kickHoldThrottle\<rparr>) = effectiveStartTargetThrottle r b s"
  "effectiveStartTargetThrottle r b (s\<lparr>kickDirection := u_kickDirection\<rparr>) = effectiveStartTargetThrottle r b s"
  "effectiveStartTargetThrottle r b (s\<lparr>postKickPending := u_postKickPending\<rparr>) = effectiveStartTargetThrottle r b s"
  "effectiveStartTargetThrottle r b (s\<lparr>postKickDir := u_postKickDir\<rparr>) = effectiveStartTargetThrottle r b s"
  "effectiveStartTargetThrottle r b (s\<lparr>postKickFinalThr := u_postKickFinalThr\<rparr>) = effectiveStartTargetThrottle r b s"
  "effectiveStartTargetThrottle r b (s\<lparr>postKickIsInstant := u_postKickIsInstant\<rparr>) = effectiveStartTargetThrottle r b s"
  "effectiveStartTargetThrottle r b (s\<lparr>postKickIsMomentum := u_postKickIsMomentum\<rparr>) = effectiveStartTargetThrottle r b s"
  "effectiveStartTargetThrottle r b (s\<lparr>postKickFullAccelMs := u_postKickFullAccelMs\<rparr>) = effectiveStartTargetThrottle r b s"
  "effectiveStartTargetThrottle r b (s\<lparr>postKickFullDecelMs := u_postKickFullDecelMs\<rparr>) = effectiveStartTargetThrottle r b s"
  "effectiveStartTargetThrottle r b (s\<lparr>reversePending := u_reversePending\<rparr>) = effectiveStartTargetThrottle r b s"
  "effectiveStartTargetThrottle r b (s\<lparr>pendingStage := u_pendingStage\<rparr>) = effectiveStartTargetThrottle r b s"
  "effectiveStartTargetThrottle r b (s\<lparr>pendingStageUntilMs := u_pendingStageUntilMs\<rparr>) = effectiveStartTargetThrottle r b s"
  "effectiveStartTargetThrottle r b (s\<lparr>pendingFinalTargetThrottle := u_pendingFinalTargetThrottle\<rparr>) = effectiveStartTargetThrottle r b s"
  "effectiveStartTargetThrottle r b (s\<lparr>pendingFinalDirection := u_pendingFinalDirection\<rparr>) = effectiveStartTargetThrottle r b s"
  "effectiveStartTargetThrottle r b (s\<lparr>pendingFinalIsInstant := u_pendingFinalIsInstant\<rparr>) = effectiveStartTargetThrottle r b s"
  "effectiveStartTargetThrottle r b (s\<lparr>pendingFinalIsMomentum := u_pendingFinalIsMomentum\<rparr>) = effectiveStartTargetThrottle r b s"
  "effectiveStartTargetThrottle r b (s\<lparr>bleConnected := u_bleConnected\<rparr>) = effectiveStartTargetThrottle r b s"
  "effectiveStartTargetThrottle r b (s\<lparr>graceActive := u_graceActive\<rparr>) = effectiveStartTargetThrottle r b s"
  "effectiveStartTargetThrottle r b (s\<lparr>disconnectMs := u_disconnectMs\<rparr>) = effectiveStartTargetThrottle r b s"
  "effectiveStartTargetThrottle r b (s\<lparr>forcedStopLatched := u_forcedStopLatched\<rparr>) = effectiveStartTargetThrottle r b s"
  "effectiveStartTargetThrottle r b (s\<lparr>printPeriodic := u_printPeriodic\<rparr>) = effectiveStartTargetThrottle r b s"
  "effectiveStartTargetThrottle r b (s\<lparr>g_peerMtu := u_g_peerMtu\<rparr>) = effectiveStartTargetThrottle r b s"
  "effectiveStartTargetThrottle r b (s\<lparr>ledcDutyR := u_ledcDutyR\<rparr>) = effectiveStartTargetThrottle r b s"
  "effectiveStartTargetThrottle r b (s\<lparr>ledcDutyL := u_ledcDutyL\<rparr>) = effectiveStartTargetThrottle r b s"
  "effectiveStartTargetThrottle r b (s\<lparr>driverEnabled := u_driverEnabled\<rparr>) = effectiveStartTargetThrottle r b s"
  by (simp_all add: effectiveStartTargetThrottle_def Let_def)

lemma shouldKickOnStart_frame [simp]:
  "shouldKickOnStart b t (s\<lparr>pendingFullAccelMs := u_pendingFullAccelMs\<rparr>) = shouldKickOnStart b t s"
  "shouldKickOnStart b t (s\<lparr>pendingFullDecelMs := u_pendingFullDecelMs\<rparr>) = shouldKickOnStart b t s"
  "shouldKickOnStart b t (s\<lparr>pendingSkipDirDelay := u_pendingSkipDirDelay\<rparr>) = shouldKickOnStart b t s"
  "shouldKickOnStart b t (s\<lparr>pendingSuppressKickOnce := u_pendingSuppressKickOnce\<rparr>) = shouldKickOnStart b t s"
  "shouldKickOnStart b t (s\<lparr>debugMode := u_debugMode\<rparr>) = shouldKickOnStart b t s"
  "shouldKickOnStart b t (s\<lparr>appliedThrottle := u_appliedThrottle\<rparr>) = shouldKickOnStart b t s"
  "shouldKickOnStart b t (s\<lparr>targetThrottle := u_targetThrottle\<rparr>) = shouldKickOnStart b t s"
  "shouldKickOnStart b t (s\<lparr>currentDirection := u_currentDirection\<rparr>) = shouldKickOnStart b t s"
  "shouldKickOnStart b t (s\<lparr>targetDirection := u_targetDirection\<rparr>) = shouldKickOnStart b t s"
  "shouldKickOnStart b t (s\<lparr>rampActive := u_rampActive\<rparr>) = shouldKickOnStart b t s"
  "shouldKickOnStart b t (s\<lparr>rampStartMs := u_rampStartMs\<rparr>) = shouldKickOnStart b t s"
  "shouldKickOnStart b t (s\<lparr>rampDurationMs := u_rampDurationMs\<rparr>) = shouldKickOnStart b t s"
  "shouldKickOnStart b t (s\<lparr>rampStartThrottle := u_rampStartThrottle\<rparr>) = shouldKickOnStart b t s"
  "shouldKickOnStart b t (s\<lparr>rampTargetThrottle := u_rampTargetThrottle\<rparr>) = shouldKickOnStart b t s"
  "shouldKickOnStart b t (s\<lparr>rampDirection := u_rampDirection\<rparr>) = shouldKickOnStart b t s"
  "shouldKickOnStart b t (s\<lparr>rampKind := u_rampKind\<rparr>) = shouldKickOnStart b t s"
  "shouldKickOnStart b t (s\<lparr>cfgMinStart := u_cfgMinStart\<rparr>) = shouldKickOnStart b t s"
  "shouldKickOnStart b t (s\<lparr>cfgKickRampDownMs := u_cfgKickRampDownMs\<rparr>) = shouldKickOnStart b t s"
  "shouldKickOnStart b t (s\<lparr>kickActive := u_kickActive\<rparr>) = shouldKickOnStart b t s"
  "shouldKickOnStart b t (s\<lparr>kickEndMs := u_kickEndMs\<rparr>) = shouldKickOnStart b t s"
  "shouldKickOnStart b t (s\<lparr>kickHoldThrottle := u_kickHoldThrottle\<rparr>) = shouldKickOnStart b t s"
  "shouldKickOnStart b t (s\<lparr>kickDirection := u_kickDirection\<rparr>) = shouldKickOnStart b t s"
  "shouldKickOnStart b t (s\<lparr>postKickPending := u_postKickPending\<rparr>) = shouldKickOnStart b t s"
  "shouldKickOnStart b t (s\<lparr>postKickDir := u_postKickDir\<rparr>) = shouldKickOnStart b t s"
  "shouldKickOnStart b t (s\<lparr>postKickFinalThr := u_postKickFinalThr\<rparr>) = shouldKickOnStart b t s"
  "shouldKickOnStart b t (s\<lparr>postKickIsInstant := u_postKickIsInstant\<rparr>) = shouldKickOnStart b t s"
  "shouldKickOnStart b t (s\<lparr>postKickIsMomentum := u_postKickIsMomentum\<rparr>) = shouldKickOnStart b t s"
  "shouldKickOnStart b t (s\<lparr>postKickFullAccelMs := u_postKickFullAccelMs\<rparr>) = shouldKickOnStart b t s"
  "shouldKickOnStart b t (s\<lparr>postKickFullDecelMs := u_postKickFullDecelMs\<rparr>) = shouldKickOnStart b t s"
  "shouldKickOnStart b t (s\<lparr>reversePending := u_reversePending\<rparr>) = shouldKickOnStart b t s"
  "shouldKickOnStart b t (s\<lparr>pendingStage := u_pendingStage\<rparr>) = shouldKickOnStart b t s"
  "shouldKickOnStart b t (s\<lparr>pendingStageUntilMs := u_pendingStageUntilMs\<rparr>) = shouldKickOnStart b t s"
  "shouldKickOnStart b t (s\<lparr>pendingFinalTargetThrottle := u_pendingFinalTargetThrottle\<rparr>) = shouldKickOnStart b t s"
  "shouldKickOnStart b t (s\<lparr>pendingFinalDirection := u_pendingFinalDirection\<rparr>) = shouldKickOnStart b t s"
  "shouldKickOnStart b t (s\<lparr>pendingFinalIsInstant := u_pendingFinalIsInstant\<rparr>) = shouldKickOnStart b t s"
  "shouldKickOnStart b t (s\<lparr>pendingFinalIsMomentum := u_pendingFinalIsMomentum\<rparr>) = shouldKickOnStart b t s"
  "shouldKickOnStart b t (s\<lparr>bleConnected := u_bleConnected\<rparr>) = shouldKickOnStart b t s"
  "shouldKickOnStart b t (s\<lparr>graceActive := u_graceActive\<rparr>) = shouldKickOnStart b t s"
  "shouldKickOnStart b t (s\<lparr>disconnectMs := u_disconnectMs\<rparr>) = shouldKickOnStart b t s"
  "shouldKickOnStart b t (s\<lparr>forcedStopLatched := u_forcedStopLatched\<rparr>) = shouldKickOnStart b t s"
  "shouldKickOnStart b t (s\<lparr>printPeriodic := u_printPeriodic\<rparr>) = shouldKickOnStart b t s"
  "shouldKickOnStart b t (s\<lparr>g_peerMtu := u_g_peerMtu\<rparr>) = shouldKickOnStart b t s"
  "shouldKickOnStart b t (s\<lparr>ledcDutyR := u_ledcDutyR\<rparr>) = shouldKickOnStart b t s"
  "shouldKickOnStart b t (s\<lparr>ledcDutyL := u_ledcDutyL\<rparr>) = shouldKickOnStart b t s"
  "shouldKickOnStart b t (s\<lparr>driverEnabled := u_driverEnabled\<rparr>) = shouldKickOnStart b t s"
  by (simp_all add: shouldKickOnStart_def)


lemma scaled_pos: "0 < d \<Longrightarrow> scaledDurationMs f d \<noteq> 0"
  by (simp add: scaledDurationMs_def Let_def clampI32_def)

lemma executeRampedMove_stop:
  "clampI32 n 0 100 = 0 \<Longrightarrow>
   executeRampedMove dir n a d k now s =
     executeStopRamp k now
       (setTarget dir 0 (cancelAllMotionActivities (cancelPendingReverse s)))"
  by (simp add: executeRampedMove_def Let_def)

lemma executeRampedMove_reverse:
  "clampI32 n 0 100 \<noteq> 0 \<Longrightarrow> currentDirection s \<noteq> STOP \<Longrightarrow> currentDirection s \<noteq> dir \<Longrightarrow>
   executeRampedMove dir n a d k now s =
     executeStopRamp k now
       ((scheduleReverseAfterStop dir (clampI32 n 0 100) False True
           (setTarget dir n (cancelAllMotionActivities (cancelPendingReverse s))))
          \<lparr>pendingFullAccelMs := a, pendingFullDecelMs := d\<rparr>)"
  by (simp add: executeRampedMove_def Let_def prim_nf)

lemma executeRampedMove_kick:
  "clampI32 n 0 100 \<noteq> 0 \<Longrightarrow> appliedThrottle s = 0 \<Longrightarrow> currentDirection s = STOP \<Longrightarrow>
   shouldKickOnStart True (effectiveStartTargetThrottle (clampI32 n 0 100) True s) s \<Longrightarrow>
   executeRampedMove dir n a d k now s =
     beginKick dir (effectiveStartTargetThrottle (clampI32 n 0 100) True s) False True a d now
       ((setTarget dir (effectiveStartTargetThrottle (clampI32 n 0 100) True s)
           (cancelAllMotionActivities (cancelPendingReverse s)))
          \<lparr>currentDirection := dir, pendingFullAccelMs := a, pendingFullDecelMs := d\<rparr>)"
  by (simp add: executeRampedMove_def Let_def prim_nf)

lemma executeRampedMove_start:
  "clampI32 n 0 100 \<noteq> 0 \<Longrightarrow> appliedThrottle s = 0 \<Longrightarrow> currentDirection s = STOP \<Longrightarrow>
   \<not> shouldKickOnStart True (effectiveStartTargetThrottle (clampI32 n 0 100) True s) s \<Longrightarrow>
   executeRampedMove dir n a d k now s =
     startRamp dir 0 (effectiveStartTargetThrottle (clampI32 n 0 100) True s)
       (scaledDurationMs a \<bar>effectiveStartTargetThrottle (clampI32 n 0 100) True s\<bar>)
       MOMENTUM now
       ((setTarget dir (effectiveStartTargetThrottle (clampI32 n 0 100) True s)
           (cancelAllMotionActivities (cancelPendingReverse s)))
          \<lparr>currentDirection := dir\<rparr>)"
  apply (subgoal_tac "0 < effectiveStartTargetThrottle (clampI32 n 0 100) True s")
   apply (simp add: executeRampedMove_def Let_def prim_nf)
  apply (simp add: effectiveStartTargetThrottle_def Let_def clampI32_def split: if_splits)
  done


lemma eff_False [simp]: "effectiveStartTargetThrottle r False s = clampI32 r 0 100"
  by (simp add: effectiveStartTargetThrottle_def)

lemma kick_False [simp]: "shouldKickOnStart False t s = False"
  by (simp add: shouldKickOnStart_def)

lemma executeRampedMove_same:
  "clampI32 n 0 100 \<noteq> 0 \<Longrightarrow> currentDirection s = dir \<Longrightarrow> dir \<noteq> STOP \<Longrightarrow>
   appliedThrottle s = clampI32 n 0 100 \<Longrightarrow>
   executeRampedMove dir n a d k now s =
     applyPwmOutputs dir (clampI32 n 0 100)
       (setTarget dir n (cancelAllMotionActivities (cancelPendingReverse s)))"
  by (simp add: executeRampedMove_def Let_def prim_nf)

lemma executeRampedMove_retarget:
  "clampI32 n 0 100 \<noteq> 0 \<Longrightarrow> currentDirection s = dir \<Longrightarrow> dir \<noteq> STOP \<Longrightarrow>
   appliedThrottle s \<noteq> clampI32 n 0 100 \<Longrightarrow>
   executeRampedMove dir n a d k now s =
     startRamp dir (appliedThrottle s) (clampI32 n 0 100)
       (scaledDurationMs (if clampI32 n 0 100 > appliedThrottle s then a else d)
          \<bar>clampI32 n 0 100 - appliedThrottle s\<bar>)
       MOMENTUM now
       (setTarget dir n (cancelAllMotionActivities (cancelPendingReverse s)))"
  by (simp add: executeRampedMove_def Let_def prim_nf)


lemma wellformed_upd_pendingFull [simp]:
  "wellformed (s\<lparr>pendingFullAccelMs := a, pendingFullDecelMs := d\<rparr>) = wellformed s"
  by (rule wellformed_cong) simp_all

lemma wellformed_executeRampedMove:
  assumes w: "wellformed s" and d: "dir \<noteq> STOP"
  shows "wellformed (executeRampedMove dir n a d' k now s)"
proof -
  let ?c = "cancelAllMotionActivities (cancelPendingReverse s)"
  have wc: "wellformed ?c"
    using w by (simp add: wellformed_cancelAll wellformed_cancelPending)
  have st: "pendingStage ?c = PS_NONE" and r: "\<not> rampActive ?c"
    by (simp_all add: cancelAllMotionActivities_def cancelPendingReverse_def)
  have wd: "wellformed (?c\<lparr>currentDirection := dir\<rparr>)"
    using wc d by (simp add: wellformed_def)
  have st': "\<And>x y. pendingStage (setTarget x y ?c) = PS_NONE"
    and r': "\<And>x y. \<not> rampActive (setTarget x y ?c)"
    by (simp_all add: setTarget_nf cancelAllMotionActivities_def cancelPendingReverse_def)
  have ad: "appliedThrottle s \<noteq> 0 \<longrightarrow> currentDirection s \<noteq> STOP"
    using w by (simp add: wellformed_def)
  consider (stop) "clampI32 n 0 100 = 0"
    | (reverse) "clampI32 n 0 100 \<noteq> 0" "currentDirection s \<noteq> STOP" "currentDirection s \<noteq> dir"
    | (kick) "clampI32 n 0 100 \<noteq> 0" "appliedThrottle s = 0" "currentDirection s = STOP"
        "shouldKickOnStart True (effectiveStartTargetThrottle (clampI32 n 0 100) True s) s"
    | (start) "clampI32 n 0 100 \<noteq> 0" "appliedThrottle s = 0" "currentDirection s = STOP"
        "\<not> shouldKickOnStart True (effectiveStartTargetThrottle (clampI32 n 0 100) True s) s"
    | (same) "clampI32 n 0 100 \<noteq> 0" "currentDirection s = dir"
        "appliedThrottle s = clampI32 n 0 100"
    | (retarget) "clampI32 n 0 100 \<noteq> 0" "currentDirection s = dir"
        "appliedThrottle s \<noteq> clampI32 n 0 100"
    using ad by blast
  then show ?thesis
  proof cases
    case stop
    then show ?thesis
      using wc by (simp add: executeRampedMove_stop wellformed_executeStopRamp)
  next
    case reverse
    then show ?thesis
      using wc d
      by (simp add: executeRampedMove_reverse wellformed_executeStopRamp wellformed_schedule)
  next
    case kick
    have "wellformed ((setTarget dir (effectiveStartTargetThrottle (clampI32 n 0 100) True s) ?c)
            \<lparr>currentDirection := dir, pendingFullAccelMs := a, pendingFullDecelMs := d'\<rparr>)"
      using wd by (simp add: setTarget_nf wellformed_def)
    then show ?thesis
      using kick d by (simp add: executeRampedMove_kick wellformed_beginKick setTarget_nf st r)
  next
    case start
    have "wellformed ((setTarget dir (effectiveStartTargetThrottle (clampI32 n 0 100) True s) ?c)
            \<lparr>currentDirection := dir\<rparr>)"
      using wd by (simp add: setTarget_nf wellformed_def)
    then show ?thesis
      using start d by (simp add: executeRampedMove_start wellformed_startRamp setTarget_nf st)
  next
    case same
    then show ?thesis
      using wc d by (simp add: executeRampedMove_same)
  next
    case retarget
    then show ?thesis
      using wc d by (simp add: executeRampedMove_retarget wellformed_startRamp st')
  qed
qed


lemma wellformed_processRamp: "wellformed s \<Longrightarrow> wellformed (processRamp now s)"
  unfolding wellformed_def
  apply (elim conjE)
  apply (intro conjI)
  apply (simp_all add: processRamp_def prim_nf Let_def smooth_range)
  apply blast+
  done

lemma wellformed_processKick: "wellformed s \<Longrightarrow> wellformed (processKick now s)"
  unfolding wellformed_def
  apply (elim conjE)
  apply (intro conjI)
  apply (simp_all add: processKick_def continueAfterKickIfNeeded_def startRamp_nf prim_nf Let_def)
  apply blast+
  done

lemma wellformed_processPendingReverse:
  "wellformed s \<Longrightarrow> wellformed (processPendingReverse now s)"
  unfolding wellformed_def
  apply (elim conjE)
  apply (intro conjI)
  apply (simp_all add: processPendingReverse_def startRamp_nf beginKick_nf prim_nf Let_def)
  done

lemma wellformed_processBleGrace: "wellformed s \<Longrightarrow> wellformed (processBleGrace now s)"
proof -
  assume w: "wellformed s"
  have "wellformed (s\<lparr>graceActive := False, forcedStopLatched := True\<rparr>)"
    using w by (simp add: wellformed_def)
  then show ?thesis
    using w by (simp add: processBleGrace_def wellformed_executeStopRamp)
qed

lemma wellformed_idleReassert: "wellformed s \<Longrightarrow> wellformed (idleReassert s)"
  unfolding wellformed_def
  apply (elim conjE)
  apply (intro conjI)
  apply (simp_all add: idleReassert_def prim_nf Let_def)
  done

lemma wellformed_onConnect: "wellformed s \<Longrightarrow> wellformed (onConnect mtu s)"
  by (simp add: wellformed_def onConnect_def Let_def)

lemma wellformed_onDisconnect: "wellformed s \<Longrightarrow> wellformed (onDisconnect now s)"
  by (simp add: wellformed_def onDisconnect_def)

lemma wellformed_upd_flags [simp]:
  "wellformed (s\<lparr>debugMode := b\<rparr>) = wellformed s"
  "wellformed (s\<lparr>printPeriodic := b\<rparr>) = wellformed s"
  "wellformed (s\<lparr>forcedStopLatched := b\<rparr>) = wellformed s"
  by (rule wellformed_cong; simp)+

lemma wellformed_upd_cfg:
  "wellformed s \<Longrightarrow> wellformed (s\<lparr>cfgMinStart := clampI32 v 0 100\<rparr>)"
  "wellformed s \<Longrightarrow>
   wellformed (s\<lparr>cfgKickThrottle := clampI32 a 0 100, cfgKickMs := clampI32 b 0 2000\<rparr>)"
  "wellformed s \<Longrightarrow>
   wellformed (s\<lparr>cfgKickThrottle := clampI32 a 0 100, cfgKickMs := clampI32 b 0 2000,
                  cfgKickRampDownMs := clampI32 c 0 2000,
                  cfgKickMaxApply := clampI32 d 0 100\<rparr>)"
  "wellformed s \<Longrightarrow>
   wellformed (s\<lparr>cfgKickThrottle := clampI32 a 0 100, cfgKickMs := clampI32 b 0 2000,
                  cfgKickRampDownMs := 80, cfgKickMaxApply := 15\<rparr>)"
  by (simp_all add: wellformed_def)

lemma wellformed_onWriteKick:
  "wellformed s \<Longrightarrow> wellformed (snd (onWriteKick preserved original s))"
  by (simp add: onWriteKick_def Let_def wellformed_upd_cfg)

lemma wellformed_onWrite: "wellformed s \<Longrightarrow> wellformed (snd (onWrite val now s))"
  by (simp add: onWrite_def Let_def wellformed_onWriteKick wellformed_upd_cfg
      wellformed_executeStopRamp wellformed_stopMotorNow wellformed_executeRampedMove
      executeMomentum_def executeQuickRamp_def)

lemma wellformed_boot: "wellformed boot"
proof -
  have "wellformed initialGlobals"
    by (simp add: wellformed_def initialGlobals_def)
  then show ?thesis
    unfolding boot_def by (rule wellformed_stopMotorNow)
qed

lemma wellformed_loop: "wellformed s \<Longrightarrow> wellformed (loop now s)"
  by (simp add: loop_def wellformed_processBleGrace wellformed_processKick
      wellformed_processRamp wellformed_processPendingReverse wellformed_idleReassert)

lemma wellformed_step: "wellformed s \<Longrightarrow> wellformed (step e s)"
  by (cases e)
    (simp_all add: wellformed_onWrite wellformed_onConnect wellformed_onDisconnect
      wellformed_processBleGrace wellformed_processKick wellformed_processRamp
      wellformed_processPendingReverse wellformed_idleReassert wellformed_loop)

lemma wellformed_run: "wellformed s \<Longrightarrow> wellformed (run evs s)"
  unfolding run_def by (induction evs arbitrary: s) (simp_all add: wellformed_step)

lemma wellformed_ticks: "wellformed s \<Longrightarrow> wellformed (ticks ts s)"
  unfolding ticks_def by (induction ts arbitrary: s) (simp_all add: wellformed_loop)

lemma isDigit_not_space: "isDigit c \<Longrightarrow> \<not> isSpace c"
  apply (simp add: isDigit_def)
  apply (elim disjE; simp add: isSpace_def)
  done

lemma isDigit_neq:
  "isDigit c \<Longrightarrow>
     c \<noteq> CHR 0x00 \<and> c \<noteq> CHR 0x0D \<and> c \<noteq> CHR 0x0A \<and> c \<noteq> CHR '','' \<and> c \<noteq> CHR ''Q''"
  apply (simp add: isDigit_def)
  apply (elim disjE; simp)
  done

lemma isDigit_upper: "isDigit c \<Longrightarrow> toUpperChar c = c"
  apply (simp add: isDigit_def)
  apply (elim disjE; simp add: toUpperChar_def)
  done

lemma isDigit_props:
  "isDigit c \<Longrightarrow> \<not> isSpace c \<and> c \<noteq> CHR 0x00 \<and> c \<noteq> CHR 0x0D \<and> c \<noteq> CHR 0x0A \<and>
     c \<noteq> CHR '','' \<and> c \<noteq> CHR ''Q'' \<and> toUpperChar c = c"
  by (simp add: isDigit_not_space isDigit_neq isDigit_upper)

lemma dropWhile_hd: "s \<noteq> [] \<Longrightarrow> \<not> P (hd s) \<Longrightarrow> dropWhile P s = s"
  by (cases s) simp_all

lemma trim_id: "s \<noteq> [] \<Longrightarrow> \<not> isSpace (hd s) \<Longrightarrow> \<not> isSpace (last s) \<Longrightarrow> trim s = s"
  by (simp add: trim_def dropWhile_hd hd_rev)

lemma digits_all: "isDigitStr n \<Longrightarrow> c \<in> set n \<Longrightarrow> isDigit c"
  by (simp add: isDigitStr_def list_all_iff)

lemma digits_nonempty: "isDigitStr n \<Longrightarrow> n \<noteq> []"
  by (simp add: isDigitStr_def)

lemma digits_trim [simp]: "isDigitStr n \<Longrightarrow> trim n = n"
proof (rule trim_id)
  assume d: "isDigitStr n"
  then show "n \<noteq> []" by (rule digits_nonempty)
  then have h: "hd n \<in> set n" and l: "last n \<in> set n" by simp_all
  show "\<not> isSpace (hd n)"
    by (rule isDigit_not_space [OF digits_all [OF d h]])
  show "\<not> isSpace (last n)"
    by (rule isDigit_not_space [OF digits_all [OF d l]])
qed

lemma digits_filter [simp]:
  "isDigitStr n \<Longrightarrow> removeChar (CHR 0x0D) n = n"
  "isDigitStr n \<Longrightarrow> removeChar (CHR 0x0A) n = n"
  using isDigit_neq digits_all by (fastforce simp: removeChar_def filter_id_conv)+

lemma digits_takeWhile [simp]:
  "isDigitStr n \<Longrightarrow> takeWhile (\<lambda>c. c \<noteq> CHR 0x00) n = n"
  using isDigit_neq digits_all by (fastforce simp: takeWhile_eq_all_conv)

lemma digits_upper [simp]: "isDigitStr n \<Longrightarrow> toUpperCase n = n"
  unfolding toUpperCase_def
  by (rule map_idI) (blast intro: isDigit_upper digits_all)

lemma digits_no_comma [simp]: "isDigitStr n \<Longrightarrow> indexOf (CHR '','') n = - 1"
  using isDigit_neq digits_all by (fastforce simp: indexOf_def)

lemma digits_not_Q [simp]: "isDigitStr n \<Longrightarrow> take (Suc 0) n \<noteq> [CHR ''Q'']"
proof (cases n)
  case Nil
  then show ?thesis by simp
next
  case (Cons c cs)
  assume "isDigitStr n"
  with Cons have "isDigit c" by (simp add: isDigitStr_def)
  then have "c \<noteq> CHR ''Q''" by (simp add: isDigit_neq)
  with Cons show ?thesis by simp
qed

lemma norm_id:
  assumes ne: "cmd \<noteq> []" and pl: "\<forall>c\<in>set cmd. \<not> isSpace c \<and> c \<noteq> CHR 0x00"
  shows "takeWhile (\<lambda>c. c \<noteq> CHR 0x00) cmd = cmd"
    and "removeChar (CHR 0x0A) (removeChar (CHR 0x0D) (trim cmd)) = cmd"
proof -
  show "takeWhile (\<lambda>c. c \<noteq> CHR 0x00) cmd = cmd"
    using pl by (simp add: takeWhile_eq_all_conv)
  have h: "\<not> isSpace (hd cmd)" and l: "\<not> isSpace (last cmd)"
    using ne pl by simp_all
  have t: "trim cmd = cmd"
    using ne h l by (rule trim_id)
  have cr: "\<forall>c\<in>set cmd. c \<noteq> CHR 0x0D" and lf: "\<forall>c\<in>set cmd. c \<noteq> CHR 0x0A"
    using pl by (auto simp: isSpace_def)
  show "removeChar (CHR 0x0A) (removeChar (CHR 0x0D) (trim cmd)) = cmd"
    using cr lf by (simp add: t removeChar_def filter_id_conv)
qed

lemma digits_plain: "isDigitStr n \<Longrightarrow> \<forall>c\<in>set n. \<not> isSpace c \<and> c \<noteq> CHR 0x00"
  using isDigit_not_space isDigit_neq digits_all by blast

lemma toUpperCase_Cons [simp]: "toUpperCase (c # cs) = toUpperChar c # toUpperCase cs"
  by (simp add: toUpperCase_def)

lemma toUpperChar_verbs [simp]:
  "toUpperChar (CHR ''F'') = CHR ''F''" "toUpperChar (CHR ''R'') = CHR ''R''"
  "toUpperChar (CHR ''Q'') = CHR ''Q''" "toUpperChar (CHR ''K'') = CHR ''K''"
  "toUpperChar (CHR ''S'') = CHR ''S''" "toUpperChar (CHR ''B'') = CHR ''B''"
  "toUpperChar (CHR '','') = CHR '',''"
  by (simp_all add: toUpperChar_def)

lemma onWrite_F:
  assumes d: "isDigitStr n"
  shows "onWrite (''F'' @ n) now s =
     (Some (ACK (''F'' @ n)),
      if \<not> (forcedStopLatched s \<and> \<not> bleConnected s)
      then executeMomentum FWD (clampI32 (toInt n) 0 100) now
             (if forcedStopLatched s \<and> bleConnected s
              then s\<lparr>forcedStopLatched := False\<rparr> else s)
      else stopMotorNow s)"
proof -
  have pl: "\<forall>c\<in>set (''F'' @ n). \<not> isSpace c \<and> c \<noteq> CHR 0x00"
    using digits_plain [OF d] by (simp add: isSpace_def)
  note nm = norm_id [OF _ pl, simplified]
  show ?thesis
    using d by (simp add: onWrite_def Let_def nm startsWith_def substringFrom_def)
qed

lemma onWrite_R:
  assumes d: "isDigitStr n"
  shows "onWrite (''R'' @ n) now s =
     (Some (ACK (''R'' @ n)),
      if \<not> (forcedStopLatched s \<and> \<not> bleConnected s)
      then executeMomentum REV (clampI32 (toInt n) 0 100) now
             (if forcedStopLatched s \<and> bleConnected s
              then s\<lparr>forcedStopLatched := False\<rparr> else s)
      else stopMotorNow s)"
proof -
  have pl: "\<forall>c\<in>set (''R'' @ n). \<not> isSpace c \<and> c \<noteq> CHR 0x00"
    using digits_plain [OF d] by (simp add: isSpace_def)
  note nm = norm_id [OF _ pl, simplified]
  show ?thesis
    using d by (simp add: onWrite_def Let_def nm startsWith_def substringFrom_def)
qed

lemma onWrite_FQ:
  assumes d: "isDigitStr n"
  shows "onWrite (''FQ'' @ n) now s =
     (Some (ACK (''FQ'' @ n)),
      if \<not> (forcedStopLatched s \<and> \<not> bleConnected s)
      then executeQuickRamp FWD (clampI32 (toInt n) 0 100) now
             (if forcedStopLatched s \<and> bleConnected s
              then s\<lparr>forcedStopLatched := False\<rparr> else s)
      else stopMotorNow s)"
proof -
  have pl: "\<forall>c\<in>set (''FQ'' @ n). \<not> isSpace c \<and> c \<noteq> CHR 0x00"
    using digits_plain [OF d] by (simp add: isSpace_def)
  note nm = norm_id [OF _ pl, simplified]
  show ?thesis
    using d by (simp add: onWrite_def Let_def nm startsWith_def substringFrom_def)
qed

lemma onWrite_RQ:
  assumes d: "isDigitStr n"
  shows "onWrite (''RQ'' @ n) now s =
     (Some (ACK (''RQ'' @ n)),
      if \<not> (forcedStopLatched s \<and> \<not> bleConnected s)
      then executeQuickRamp REV (clampI32 (toInt n) 0 100) now
             (if forcedStopLatched s \<and> bleConnected s
              then s\<lparr>forcedStopLatched := False\<rparr> else s)
      else stopMotorNow s)"
proof -
  have pl: "\<forall>c\<in>set (''RQ'' @ n). \<not> isSpace c \<and> c \<noteq> CHR 0x00"
    using digits_plain [OF d] by (simp add: isSpace_def)
  note nm = norm_id [OF _ pl, simplified]
  show ?thesis
    using d by (simp add: onWrite_def Let_def nm startsWith_def substringFrom_def)
qed

lemmas str_defs = isSpace_def trim_def removeChar_def toUpperChar_def toUpperCase_def
  startsWith_def substringFrom_def substring_def indexOf_def isDigit_def isDigitStr_def
  digitVal_def toInt_def

lemma onWrite_S:
  "onWrite ''S'' now s =
     (Some (ACK ''S''),
      if \<not> (forcedStopLatched s \<and> \<not> bleConnected s)
      then executeStopRamp QUICKSTOP now s else stopMotorNow s)"
  by (simp add: onWrite_def Let_def str_defs)

lemma onWrite_B:
  "onWrite ''B'' now s =
     (Some (ACK ''B''),
      if \<not> (forcedStopLatched s \<and> \<not> bleConnected s)
      then executeStopRamp BRAKE now s else stopMotorNow s)"
  by (simp add: onWrite_def Let_def str_defs)

lemma indexOf_digits_comma:
  "isDigitStr t \<Longrightarrow> indexOf (CHR '','') (t @ CHR '','' # r) = int (length t)"
proof -
  assume d: "isDigitStr t"
  have "\<forall>c\<in>set t. c \<noteq> CHR '',''"
    using isDigit_neq digits_all [OF d] by blast
  then have "takeWhile (\<lambda>x. x \<noteq> CHR '','') (t @ CHR '','' # r) = t"
    by (simp add: takeWhile_append2)
  then show ?thesis by (simp add: indexOf_def)
qed

lemma kickTokens_two:
  "isDigitStr t \<Longrightarrow> isDigitStr ms \<Longrightarrow> kickTokens 4 (t @ '','' @ ms) = [t, ms]"
proof -
  assume t: "isDigitStr t" and m: "isDigitStr ms"
  have n: "nat (int (length t) + 1) = Suc (length t)" by simp
  have e4: "(4::nat) = Suc 3" and e3: "(3::nat) = Suc 2" by simp_all
  have k3: "kickTokens 3 ms = [ms]"
    using m by (subst e3, subst kickTokens.simps(2)) simp
  show ?thesis
    using t m
    by (subst e4, subst kickTokens.simps(2))
      (simp add: indexOf_digits_comma substring_def substringFrom_def n k3)
qed

lemma toUpperCase_append [simp]: "toUpperCase (a @ b) = toUpperCase a @ toUpperCase b"
  by (simp add: toUpperCase_def)

lemma onWrite_K2:
  assumes t: "isDigitStr t" and m: "isDigitStr ms"
  shows "onWrite (''K'' @ t @ '','' @ ms) now s =
     (Some (ACK (''K'' @ t @ '','' @ ms)),
      s\<lparr>cfgKickThrottle := clampI32 (toInt t) 0 100,
        cfgKickMs := clampI32 (toInt ms) 0 2000,
        cfgKickRampDownMs := 80, cfgKickMaxApply := 15\<rparr>)"
proof -
  have pl: "\<forall>c\<in>set (''K'' @ t @ '','' @ ms). \<not> isSpace c \<and> c \<noteq> CHR 0x00"
    using digits_plain [OF t] digits_plain [OF m] by (simp add: isSpace_def ball_Un)
  note nm = norm_id [OF _ pl, simplified]
  have pl': "\<forall>c\<in>set (t @ '','' @ ms). \<not> isSpace c \<and> c \<noteq> CHR 0x00"
    using pl by simp
  have ne: "t @ '','' @ ms \<noteq> []" by simp
  have tr: "trim (t @ CHR '','' # ms) = t @ CHR '','' # ms"
    using digits_nonempty [OF t] digits_nonempty [OF m] pl'
    by (intro trim_id) (simp_all add: hd_append)
  have tk: "kickTokens 4 (t @ CHR '','' # ms) = [t, ms]"
    using kickTokens_two [OF t m] by simp
  have k: "onWriteKick (''K'' @ t @ '','' @ ms) (''K'' @ t @ '','' @ ms) s =
     (Some (ACK (''K'' @ t @ '','' @ ms)),
      s\<lparr>cfgKickThrottle := clampI32 (toInt t) 0 100,
        cfgKickMs := clampI32 (toInt ms) 0 2000,
        cfgKickRampDownMs := 80, cfgKickMaxApply := 15\<rparr>)"
    using t m by (simp add: onWriteKick_def Let_def substringFrom_def tr tk)
  show ?thesis
    using t m k by (simp add: onWrite_def Let_def nm startsWith_def)
qed

lemmas op_defs =
  setApplied_def setTarget_def throttleToDuty_def driverEnable_def applyPwmOutputs_def
  stopMotorNow_def cancelPendingReverse_def cancelAllMotionActivities_def startRamp_def
  effectiveStartTargetThrottle_def shouldKickOnStart_def beginKick_def
  continueAfterKickIfNeeded_def executeStopRamp_def scheduleReverseAfterStop_def
  executeRampedMove_def executeMomentum_def executeQuickRamp_def onConnect_def
  onDisconnect_def processRamp_def processPendingReverse_def processKick_def
  processBleGrace_def idleReassert_def loop_def

lemmas eval_defs = op_defs [unfolded Let_def] const_defs

lemmas smoothstep_unfold = smoothstepEasedThrottle_def [unfolded Let_def]

lemmas scaled_unfold = scaledDurationMs_def [unfolded Let_def]

lemma boot_eq: "boot = initialGlobals"
  by (simp add: boot_def initialGlobals_def stopMotorNow_def prim_nf const_defs Let_def)

lemma initialGlobals_fields [simp]:
  "pendingFullAccelMs initialGlobals = FULL_MOMENTUM_ACCEL_MS"
  "pendingFullDecelMs initialGlobals = FULL_MOMENTUM_DECEL_MS"
  "pendingSkipDirDelay initialGlobals = False"
  "pendingSuppressKickOnce initialGlobals = False"
  "debugMode initialGlobals = False"
  "appliedThrottle initialGlobals = 0"
  "targetThrottle initialGlobals = 0"
  "currentDirection initialGlobals = STOP"
  "targetDirection initialGlobals = STOP"
  "rampActive initialGlobals = False"
  "rampStartMs initialGlobals = 0"
  "rampDurationMs initialGlobals = 0"
  "rampStartThrottle initialGlobals = 0"
  "rampTargetThrottle initialGlobals = 0"
  "rampDirection initialGlobals = STOP"
  "rampKind initialGlobals = RK_NONE"
  "cfgMinStart initialGlobals = 0"
  "cfgKickThrottle initialGlobals = 0"
  "cfgKickMs initialGlobals = 0"
  "cfgKickRampDownMs initialGlobals = 80"
  "cfgKickMaxApply initialGlobals = 15"
  "kickActive initialGlobals = False"
  "kickEndMs initialGlobals = 0"
  "kickHoldThrottle initialGlobals = 0"
  "kickDirection initialGlobals = STOP"
  "postKickPending initialGlobals = False"
  "postKickDir initialGlobals = STOP"
  "postKickFinalThr initialGlobals = 0"
  "postKickIsInstant initialGlobals = False"
  "postKickIsMomentum initialGlobals = False"
  "postKickFullAccelMs initialGlobals = FULL_MOMENTUM_ACCEL_MS"
  "postKickFullDecelMs initialGlobals = FULL_MOMENTUM_DECEL_MS"
  "reversePending initialGlobals = False"
  "pendingStage initialGlobals = PS_NONE"
  "pendingStageUntilMs initialGlobals = 0"
  "pendingFinalTargetThrottle initialGlobals = 0"
  "pendingFinalDirection initialGlobals = STOP"
  "pendingFinalIsInstant initialGlobals = False"
  "pendingFinalIsMomentum initialGlobals = False"
  "bleConnected initialGlobals = False"
  "graceActive initialGlobals = False"
  "disconnectMs initialGlobals = 0"
  "forcedStopLatched initialGlobals = False"
  "printPeriodic initialGlobals = True"
  "g_peerMtu initialGlobals = 23"
  "ledcDutyR initialGlobals = 0"
  "ledcDutyL initialGlobals = 0"
  "driverEnabled initialGlobals = False"
  by (simp_all add: initialGlobals_def)



lemma cdiv_nonneg: "0 \<le> a \<Longrightarrow> 0 < b \<Longrightarrow> cdiv a b = a div b"
  by (cases "a = 0") (simp_all add: cdiv_def)

lemma smoothstep_matches_spec:
  assumes "unat elapsedMs * 1000 div unat durationMs < 2 ^ 31"
  shows "smoothstepEasedThrottle a b elapsedMs durationMs =
         smoothstep_spec a b (unat elapsedMs) (unat durationMs)"
proof -
  let ?q = "unat elapsedMs * 1000 div unat durationMs"
  have "int ?q < 2 ^ 31"
    using assms by (metis of_nat_less_iff of_nat_numeral of_nat_power)
  then have "sint (word_of_nat ?q :: u32) = int ?q"
    by (simp add: signed_of_nat signed_take_bit_int_eq_self)
  then show ?thesis
    by (simp add: smoothstepEasedThrottle_def smoothstep_spec_def P_SCALE_def Let_def
        unat_eq_0 mult.assoc)
qed

lemma scaledDuration_floor: "0 < delta \<Longrightarrow> 1 \<le> scaledDurationMs full delta"
  using scaled_pos [of delta full] by (simp add: word_le_nat_alt unat_gt_0 Suc_le_eq)


section \<open>Ticks\<close>

lemma controlState_fields:
  assumes "controlState a = controlState b"
  shows "pendingFullAccelMs a = pendingFullAccelMs b"
    and "pendingFullDecelMs a = pendingFullDecelMs b"
    and "pendingSkipDirDelay a = pendingSkipDirDelay b"
    and "pendingSuppressKickOnce a = pendingSuppressKickOnce b"
    and "debugMode a = debugMode b"
    and "targetThrottle a = targetThrottle b"
    and "targetDirection a = targetDirection b"
    and "rampActive a = rampActive b"
    and "rampStartMs a = rampStartMs b"
    and "rampDurationMs a = rampDurationMs b"
    and "rampStartThrottle a = rampStartThrottle b"
    and "rampTargetThrottle a = rampTargetThrottle b"
    and "rampDirection a = rampDirection b"
    and "rampKind a = rampKind b"
    and "cfgMinStart a = cfgMinStart b"
    and "cfgKickThrottle a = cfgKickThrottle b"
    and "cfgKickMs a = cfgKickMs b"
    and "cfgKickRampDownMs a = cfgKickRampDownMs b"
    and "cfgKickMaxApply a = cfgKickMaxApply b"
    and "kickActive a = kickActive b"
    and "kickEndMs a = kickEndMs b"
    and "kickHoldThrottle a = kickHoldThrottle b"
    and "kickDirection a = kickDirection b"
    and "postKickPending a = postKickPending b"
    and "postKickDir a = postKickDir b"
    and "postKickFinalThr a = postKickFinalThr b"
    and "postKickIsInstant a = postKickIsInstant b"
    and "postKickIsMomentum a = postKickIsMomentum b"
    and "postKickFullAccelMs a = postKickFullAccelMs b"
    and "postKickFullDecelMs a = postKickFullDecelMs b"
    and "reversePending a = reversePending b"
    and "pendingStage a = pendingStage b"
    and "pendingStageUntilMs a = pendingStageUntilMs b"
    and "pendingFinalTargetThrottle a = pendingFinalTargetThrottle b"
    and "pendingFinalDirection a = pendingFinalDirection b"
    and "pendingFinalIsInstant a = pendingFinalIsInstant b"
    and "pendingFinalIsMomentum a = pendingFinalIsMomentum b"
    and "bleConnected a = bleConnected b"
    and "graceActive a = graceActive b"
    and "disconnectMs a = disconnectMs b"
    and "forcedStopLatched a = forcedStopLatched b"
    and "printPeriodic a = printPeriodic b"
    and "g_peerMtu a = g_peerMtu b"
proof -
  have e: "\<And>f. f (controlState a) = f (controlState b)"
    using assms by simp
  show "pendingFullAccelMs a = pendingFullAccelMs b"
    using e [of pendingFullAccelMs] by (simp add: controlState_def)
  show "pendingFullDecelMs a = pendingFullDecelMs b"
    using e [of pendingFullDecelMs] by (simp add: controlState_def)
  show "pendingSkipDirDelay a = pendingSkipDirDelay b"
    using e [of pendingSkipDirDelay] by (simp add: controlState_def)
  show "pendingSuppressKickOnce a = pendingSuppressKickOnce b"
    using e [of pendingSuppressKickOnce] by (simp add: controlState_def)
  show "debugMode a = debugMode b"
    using e [of debugMode] by (simp add: controlState_def)
  show "targetThrottle a = targetThrottle b"
    using e [of targetThrottle] by (simp add: controlState_def)
  show "targetDirection a = targetDirection b"
    using e [of targetDirection] by (simp add: controlState_def)
  show "rampActive a = rampActive b"
    using e [of rampActive] by (simp add: controlState_def)
  show "rampStartMs a = rampStartMs b"
    using e [of rampStartMs] by (simp add: controlState_def)
  show "rampDurationMs a = rampDurationMs b"
    using e [of rampDurationMs] by (simp add: controlState_def)
  show "rampStartThrottle a = rampStartThrottle b"
    using e [of rampStartThrottle] by (simp add: controlState_def)
  show "rampTargetThrottle a = rampTargetThrottle b"
    using e [of rampTargetThrottle] by (simp add: controlState_def)
  show "rampDirection a = rampDirection b"
    using e [of rampDirection] by (simp add: controlState_def)
  show "rampKind a = rampKind b"
    using e [of rampKind] by (simp add: controlState_def)
  show "cfgMinStart a = cfgMinStart b"
    using e [of cfgMinStart] by (simp add: controlState_def)
  show "cfgKickThrottle a = cfgKickThrottle b"
    using e [of cfgKickThrottle] by (simp add: controlState_def)
  show "cfgKickMs a = cfgKickMs b"
    using e [of cfgKickMs] by (simp add: controlState_def)
  show "cfgKickRampDownMs a = cfgKickRampDownMs b"
    using e [of cfgKickRampDownMs] by (simp add: controlState_def)
  show "cfgKickMaxApply a = cfgKickMaxApply b"
    using e [of cfgKickMaxApply] by (simp add: controlState_def)
  show "kickActive a = kickActive b"
    using e [of kickActive] by (simp add: controlState_def)
  show "kickEndMs a = kickEndMs b"
    using e [of kickEndMs] by (simp add: controlState_def)
  show "kickHoldThrottle a = kickHoldThrottle b"
    using e [of kickHoldThrottle] by (simp add: controlState_def)
  show "kickDirection a = kickDirection b"
    using e [of kickDirection] by (simp add: controlState_def)
  show "postKickPending a = postKickPending b"
    using e [of postKickPending] by (simp add: controlState_def)
  show "postKickDir a = postKickDir b"
    using e [of postKickDir] by (simp add: controlState_def)
  show "postKickFinalThr a = postKickFinalThr b"
    using e [of postKickFinalThr] by (simp add: controlState_def)
  show "postKickIsInstant a = postKickIsInstant b"
    using e [of postKickIsInstant] by (simp add: controlState_def)
  show "postKickIsMomentum a = postKickIsMomentum b"
    using e [of postKickIsMomentum] by (simp add: controlState_def)
  show "postKickFullAccelMs a = postKickFullAccelMs b"
    using e [of postKickFullAccelMs] by (simp add: controlState_def)
  show "postKickFullDecelMs a = postKickFullDecelMs b"
    using e [of postKickFullDecelMs] by (simp add: controlState_def)
  show "reversePending a = reversePending b"
    using e [of reversePending] by (simp add: controlState_def)
  show "pendingStage a = pendingStage b"
    using e [of pendingStage] by (simp add: controlState_def)
  show "pendingStageUntilMs a = pendingStageUntilMs b"
    using e [of pendingStageUntilMs] by (simp add: controlState_def)
  show "pendingFinalTargetThrottle a = pendingFinalTargetThrottle b"
    using e [of pendingFinalTargetThrottle] by (simp add: controlState_def)
  show "pendingFinalDirection a = pendingFinalDirection b"
    using e [of pendingFinalDirection] by (simp add: controlState_def)
  show "pendingFinalIsInstant a = pendingFinalIsInstant b"
    using e [of pendingFinalIsInstant] by (simp add: controlState_def)
  show "pendingFinalIsMomentum a = pendingFinalIsMomentum b"
    using e [of pendingFinalIsMomentum] by (simp add: controlState_def)
  show "bleConnected a = bleConnected b"
    using e [of bleConnected] by (simp add: controlState_def)
  show "graceActive a = graceActive b"
    using e [of graceActive] by (simp add: controlState_def)
  show "disconnectMs a = disconnectMs b"
    using e [of disconnectMs] by (simp add: controlState_def)
  show "forcedStopLatched a = forcedStopLatched b"
    using e [of forcedStopLatched] by (simp add: controlState_def)
  show "printPeriodic a = printPeriodic b"
    using e [of printPeriodic] by (simp add: controlState_def)
  show "g_peerMtu a = g_peerMtu b"
    using e [of g_peerMtu] by (simp add: controlState_def)
qed

lemma processBleGrace_idle:
  "\<not> (graceActive s \<and> BLE_GRACE_MS \<le> t - disconnectMs s) \<Longrightarrow> processBleGrace t s = s"
  by (auto simp: processBleGrace_def)

lemma processRamp_idle: "\<not> rampActive s \<Longrightarrow> processRamp t s = s"
  by (simp add: processRamp_def)

lemma processKick_idle: "\<not> kickActive s \<Longrightarrow> processKick t s = s"
  by (simp add: processKick_def)

lemma processPendingReverse_idle:
  "\<not> reversePending s \<or> pendingStage s \<noteq> WAIT_DIR_DELAY \<or> sint (t - pendingStageUntilMs s) < 0
   \<Longrightarrow> processPendingReverse t s = s"
  by (auto simp: processPendingReverse_def)

lemma idleReassert_busy: "rampActive s \<or> kickActive s \<Longrightarrow> idleReassert s = s"
  by (auto simp: idleReassert_def)

lemma loop_kick_hold:
  assumes k: "kickActive s" and r: "\<not> rampActive s"
    and st: "pendingStage s \<noteq> WAIT_DIR_DELAY"
    and g: "\<not> (graceActive s \<and> BLE_GRACE_MS \<le> t - disconnectMs s)"
    and h: "sint (t - kickEndMs s) < 0"
  shows "loop t s =
           applyPwmOutputs
             (if clampI32 (kickHoldThrottle s) 0 100 = 0 then STOP else kickDirection s)
             (clampI32 (kickHoldThrottle s) 0 100)
             (setApplied (kickDirection s) (kickHoldThrottle s) s)"
proof -
  let ?a = "applyPwmOutputs
             (if clampI32 (kickHoldThrottle s) 0 100 = 0 then STOP else kickDirection s)
             (clampI32 (kickHoldThrottle s) 0 100)
             (setApplied (kickDirection s) (kickHoldThrottle s) s)"
  have 1: "processKick t s = ?a"
    using k h by (simp add: processKick_def Let_def setApplied_nf)
  have 2: "processRamp t ?a = ?a"
    using r by (simp add: processRamp_idle prim_nf)
  have 3: "processPendingReverse t ?a = ?a"
    using st by (simp add: processPendingReverse_idle prim_nf)
  have 4: "idleReassert ?a = ?a"
    using k by (simp add: idleReassert_busy prim_nf)
  show ?thesis
    by (simp only: loop_def processBleGrace_idle [OF g] 1 2 3 4)
qed

lemma loop_ramp_running:
  assumes r: "rampActive s" and k: "\<not> kickActive s"
    and st: "pendingStage s \<noteq> WAIT_DIR_DELAY"
    and g: "\<not> (graceActive s \<and> BLE_GRACE_MS \<le> t - disconnectMs s)"
    and h: "\<not> rampDurationMs s \<le> t - rampStartMs s"
  shows "controlState (loop t s) = controlState s"
proof -
  have 1: "processKick t s = s"
    using k by (rule processKick_idle)
  have 2: "controlState (processRamp t s) = controlState s"
    "rampActive (processRamp t s)" "pendingStage (processRamp t s) = pendingStage s"
    using r h by (simp_all add: processRamp_def prim_nf Let_def controlState_def)
  have 3: "processPendingReverse t (processRamp t s) = processRamp t s"
    using st 2 by (simp add: processPendingReverse_idle)
  have 4: "idleReassert (processRamp t s) = processRamp t s"
    using 2 by (simp add: idleReassert_busy)
  show ?thesis
    by (simp only: loop_def processBleGrace_idle [OF g] 1 2 3 4)
qed

lemma ticks_Nil [simp]: "ticks [] s = s"
  by (simp add: ticks_def)

lemma ticks_Cons [simp]: "ticks (t # ts) s = ticks ts (loop t s)"
  by (simp add: ticks_def)

lemma ticks_append [simp]: "ticks (ts @ us) s = ticks us (ticks ts s)"
  by (simp add: ticks_def)

lemma run_Nil [simp]: "run [] s = s"
  by (simp add: run_def)

lemma run_Cons [simp]: "run (e # es) s = run es (step e s)"
  by (simp add: run_def)

lemma loop_beginKick_hold:
  assumes r: "\<not> rampActive s0" and st: "pendingStage s0 \<noteq> WAIT_DIR_DELAY"
    and g: "\<not> (graceActive s0 \<and> BLE_GRACE_MS \<le> t - disconnectMs s0)"
    and h: "sint (t - (now + word_of_int (cfgKickMs s0))) < 0"
  shows "loop t (beginKick d fin ai am acc dec now s0) = beginKick d fin ai am acc dec now s0"
proof -
  let ?s = "beginKick d fin ai am acc dec now s0"
  have "loop t ?s =
          applyPwmOutputs
            (if clampI32 (kickHoldThrottle ?s) 0 100 = 0 then STOP else kickDirection ?s)
            (clampI32 (kickHoldThrottle ?s) 0 100)
            (setApplied (kickDirection ?s) (kickHoldThrottle ?s) ?s)"
    using r st g h by (intro loop_kick_hold) (simp_all add: beginKick_nf Let_def)
  also have "\<dots> = ?s"
    by (simp add: beginKick_nf prim_nf Let_def)
  finally show ?thesis .
qed

lemma ticks_beginKick_hold:
  assumes r: "\<not> rampActive s0" and st: "pendingStage s0 \<noteq> WAIT_DIR_DELAY"
    and g: "\<forall>t\<in>set ts. \<not> (graceActive s0 \<and> BLE_GRACE_MS \<le> t - disconnectMs s0)"
    and h: "\<forall>t\<in>set ts. sint (t - (now + word_of_int (cfgKickMs s0))) < 0"
  shows "ticks ts (beginKick d fin ai am acc dec now s0) = beginKick d fin ai am acc dec now s0"
  using g h
proof (induction ts)
  case Nil
  show ?case by simp
next
  case (Cons t ts)
  then show ?case
    using loop_beginKick_hold [OF r st, of t now d fin ai am acc dec] by simp
qed

lemma ticks_ramp_running:
  assumes "rampActive s" and "\<not> kickActive s" and "pendingStage s \<noteq> WAIT_DIR_DELAY"
    and "\<forall>t\<in>set ts. \<not> (graceActive s \<and> BLE_GRACE_MS \<le> t - disconnectMs s)"
    and "\<forall>t\<in>set ts. \<not> rampDurationMs s \<le> t - rampStartMs s"
  shows "controlState (ticks ts s) = controlState s"
  using assms
proof (induction ts arbitrary: s)
  case Nil
  show ?case by simp
next
  case (Cons t ts)
  have c: "controlState (loop t s) = controlState s"
    using Cons.prems by (intro loop_ramp_running) simp_all
  note f = controlState_fields [OF c]
  have "controlState (ticks ts (loop t s)) = controlState (loop t s)"
    using Cons.prems by (intro Cons.IH) (simp_all add: f)
  with c show ?case by simp
qed

lemma processRamp_complete_zero:
  "rampActive s \<Longrightarrow> rampTargetThrottle s = 0 \<Longrightarrow> rampDurationMs s \<le> t - rampStartMs s \<Longrightarrow>
   appliedThrottle (processRamp t s) = 0"
  by (simp add: processRamp_def prim_nf Let_def)

lemma abs_pos_scaled: "0 < fin \<Longrightarrow> scaledDurationMs A \<bar>fin\<bar> = scaledDurationMs A fin"
  by simp

lemma eff_cong:
  "cfgMinStart a = cfgMinStart b \<Longrightarrow>
   effectiveStartTargetThrottle r x a = effectiveStartTargetThrottle r x b"
  by (simp add: effectiveStartTargetThrottle_def Let_def)

lemma kick_cong:
  "cfgKickThrottle a = cfgKickThrottle b \<Longrightarrow> cfgKickMs a = cfgKickMs b \<Longrightarrow>
   cfgKickMaxApply a = cfgKickMaxApply b \<Longrightarrow>
   shouldKickOnStart x r a = shouldKickOnStart x r b"
  by (simp add: shouldKickOnStart_def)

text \<open>
  The pending action fires: the direction-delay stage is due, the kick is suppressed, and the
  staged momentum-style action starts its ramp from 0.
\<close>

lemma processPendingReverse_momentum:
  assumes p: "reversePending s" and st: "pendingStage s = WAIT_DIR_DELAY"
    and due: "\<not> sint (t - pendingStageUntilMs s) < 0"
    and sup: "pendingSuppressKickOnce s"
    and ni: "\<not> pendingFinalIsInstant s" and mo: "pendingFinalIsMomentum s"
    and z: "appliedThrottle s = 0" "currentDirection s = STOP"
    and fin: "0 < pendingFinalTargetThrottle s" "pendingFinalTargetThrottle s \<le> 100"
    and idem: "effectiveStartTargetThrottle (pendingFinalTargetThrottle s) True s =
                 pendingFinalTargetThrottle s"
  shows "processPendingReverse t s =
           startRamp (pendingFinalDirection s) 0 (pendingFinalTargetThrottle s)
             (scaledDurationMs (pendingFullAccelMs s) (pendingFinalTargetThrottle s))
             MOMENTUM t
             (s\<lparr>pendingStage := PS_NONE, pendingSuppressKickOnce := False,
                targetDirection := pendingFinalDirection s,
                targetThrottle := pendingFinalTargetThrottle s,
                reversePending := False\<rparr>)"
  using assms
  by (simp add: processPendingReverse_def Let_def clamp_id setTarget_nf)

lemma startRamp_up_facts:
  assumes "0 < fin" "fin \<le> 100" "d \<noteq> 0"
  shows "rampActive (startRamp dir 0 fin d k t s)"
    and "rampKind (startRamp dir 0 fin d k t s) = k"
    and "rampDirection (startRamp dir 0 fin d k t s) = dir"
    and "rampStartThrottle (startRamp dir 0 fin d k t s) = 0"
    and "rampTargetThrottle (startRamp dir 0 fin d k t s) = fin"
    and "rampStartMs (startRamp dir 0 fin d k t s) = t"
    and "rampDurationMs (startRamp dir 0 fin d k t s) = d"
    and "appliedThrottle (startRamp dir 0 fin d k t s) = appliedThrottle s"
    and "currentDirection (startRamp dir 0 fin d k t s) = dir"
    and "reversePending (startRamp dir 0 fin d k t s) = reversePending s"
    and "\<not> kickActive (startRamp dir 0 fin d k t s)"
  using assms by (simp_all add: startRamp_nf Let_def clamp_id)

lemma loop_ramp_complete_continuation:
  assumes r: "rampActive s" and k: "\<not> kickActive s"
    and tz: "rampTargetThrottle s = 0"
    and g: "\<not> (graceActive s \<and> BLE_GRACE_MS \<le> t - disconnectMs s)"
    and fd: "rampDurationMs s \<le> t - rampStartMs s"
    and p: "reversePending s" and skip: "pendingSkipDirDelay s"
    and sup: "pendingSuppressKickOnce s"
    and ni: "\<not> pendingFinalIsInstant s" and mo: "pendingFinalIsMomentum s"
    and fin: "0 < pendingFinalTargetThrottle s" "pendingFinalTargetThrottle s \<le> 100"
    and idem: "effectiveStartTargetThrottle (pendingFinalTargetThrottle s) True s =
                 pendingFinalTargetThrottle s"
  shows "rampActive (loop t s)" and "rampKind (loop t s) = MOMENTUM"
    and "rampDirection (loop t s) = pendingFinalDirection s"
    and "rampStartThrottle (loop t s) = 0"
    and "rampTargetThrottle (loop t s) = pendingFinalTargetThrottle s"
    and "rampStartMs (loop t s) = t"
    and "rampDurationMs (loop t s) =
           scaledDurationMs (pendingFullAccelMs s) (pendingFinalTargetThrottle s)"
    and "appliedThrottle (loop t s) = 0"
    and "\<not> reversePending (loop t s)" and "\<not> kickActive (loop t s)"
proof -
  let ?y = "processRamp t s"
  have y: "reversePending ?y" "pendingStage ?y = WAIT_DIR_DELAY"
    "pendingStageUntilMs ?y = t" "pendingSuppressKickOnce ?y"
    "\<not> pendingFinalIsInstant ?y" "pendingFinalIsMomentum ?y"
    "appliedThrottle ?y = 0" "currentDirection ?y = STOP"
    "pendingFinalTargetThrottle ?y = pendingFinalTargetThrottle s"
    "pendingFinalDirection ?y = pendingFinalDirection s"
    "pendingFullAccelMs ?y = pendingFullAccelMs s"
    "cfgMinStart ?y = cfgMinStart s"
    using r tz fd p skip sup ni mo
    by (simp_all add: processRamp_def prim_nf Let_def)
  have e: "effectiveStartTargetThrottle (pendingFinalTargetThrottle ?y) True ?y =
             pendingFinalTargetThrottle ?y"
    using idem eff_cong [OF y(12)] by (simp add: y(9))
  have due: "\<not> sint (t - pendingStageUntilMs ?y) < 0"
    by (simp add: y)
  note f = processPendingReverse_momentum
      [OF y(1) y(2) due y(4) y(5) y(6) y(7) y(8) _ _ e, unfolded y(9) y(10) y(11)]
  have d: "scaledDurationMs (pendingFullAccelMs s) (pendingFinalTargetThrottle s) \<noteq> 0"
    using fin by (simp add: scaled_pos)
  note u = startRamp_up_facts [OF fin d]
  have l: "loop t s = processPendingReverse t ?y"
    using u(1) by (simp add: loop_def processBleGrace_idle [OF g] processKick_idle [OF k]
        f fin idleReassert_busy)
  show "rampActive (loop t s)" and "rampKind (loop t s) = MOMENTUM"
    and "rampDirection (loop t s) = pendingFinalDirection s"
    and "rampStartThrottle (loop t s) = 0"
    and "rampTargetThrottle (loop t s) = pendingFinalTargetThrottle s"
    and "rampStartMs (loop t s) = t"
    and "rampDurationMs (loop t s) =
           scaledDurationMs (pendingFullAccelMs s) (pendingFinalTargetThrottle s)"
    and "appliedThrottle (loop t s) = 0"
    and "\<not> reversePending (loop t s)" and "\<not> kickActive (loop t s)"
    by (simp_all add: l f fin u y)
qed

lemma loop_kick_expiry_immediate:
  assumes k: "kickActive s" and r: "\<not> rampActive s"
    and g: "\<not> (graceActive s \<and> BLE_GRACE_MS \<le> t - disconnectMs s)"
    and x: "\<not> sint (t - kickEndMs s) < 0"
    and pk: "postKickPending s" and ni: "\<not> postKickIsInstant s"
    and rd: "(word_of_int (cfgKickRampDownMs s) :: u32) = 0"
    and fin: "0 < postKickFinalThr s" "postKickFinalThr s \<le> 100"
    and idem: "effectiveStartTargetThrottle (postKickFinalThr s) True s = postKickFinalThr s"
  shows "rampActive (loop t s)" and "rampKind (loop t s) = MOMENTUM"
    and "rampDirection (loop t s) = postKickDir s"
    and "rampStartThrottle (loop t s) = 0"
    and "rampTargetThrottle (loop t s) = postKickFinalThr s"
    and "rampStartMs (loop t s) = t"
    and "rampDurationMs (loop t s) =
           scaledDurationMs (postKickFullAccelMs s) (postKickFinalThr s)"
    and "appliedThrottle (loop t s) = 0"
    and "\<not> reversePending (loop t s)" and "\<not> kickActive (loop t s)"
proof -
  let ?y = "processKick t s"
  have y: "reversePending ?y" "pendingStage ?y = WAIT_DIR_DELAY"
    "pendingStageUntilMs ?y = t" "pendingSuppressKickOnce ?y"
    "\<not> pendingFinalIsInstant ?y" "pendingFinalIsMomentum ?y"
    "appliedThrottle ?y = 0" "currentDirection ?y = STOP"
    "pendingFinalTargetThrottle ?y = postKickFinalThr s"
    "pendingFinalDirection ?y = postKickDir s"
    "pendingFullAccelMs ?y = postKickFullAccelMs s"
    "cfgMinStart ?y = cfgMinStart s" "\<not> rampActive ?y"
    using k r x pk ni rd fin
    by (simp_all add: processKick_def continueAfterKickIfNeeded_def prim_nf Let_def clamp_id)
  have e: "effectiveStartTargetThrottle (pendingFinalTargetThrottle ?y) True ?y =
             pendingFinalTargetThrottle ?y"
    using idem eff_cong [OF y(12)] by (simp add: y(9))
  have due: "\<not> sint (t - pendingStageUntilMs ?y) < 0"
    by (simp add: y)
  note f = processPendingReverse_momentum
      [OF y(1) y(2) due y(4) y(5) y(6) y(7) y(8) _ _ e, unfolded y(9) y(10) y(11)]
  have d: "scaledDurationMs (postKickFullAccelMs s) (postKickFinalThr s) \<noteq> 0"
    using fin by (simp add: scaled_pos)
  note u = startRamp_up_facts [OF fin d]
  have l: "loop t s = processPendingReverse t ?y"
    using u(1) by (simp add: loop_def processBleGrace_idle [OF g]
        processRamp_idle [OF y(13)] f fin idleReassert_busy)
  show "rampActive (loop t s)" and "rampKind (loop t s) = MOMENTUM"
    and "rampDirection (loop t s) = postKickDir s"
    and "rampStartThrottle (loop t s) = 0"
    and "rampTargetThrottle (loop t s) = postKickFinalThr s"
    and "rampStartMs (loop t s) = t"
    and "rampDurationMs (loop t s) =
           scaledDurationMs (postKickFullAccelMs s) (postKickFinalThr s)"
    and "appliedThrottle (loop t s) = 0"
    and "\<not> reversePending (loop t s)" and "\<not> kickActive (loop t s)"
    by (simp_all add: l f fin u y)
qed

lemma loop_kick_expiry_recover:
  assumes k: "kickActive s" and r: "\<not> rampActive s"
    and g: "\<not> (graceActive s \<and> BLE_GRACE_MS \<le> t - disconnectMs s)"
    and x: "\<not> sint (t - kickEndMs s) < 0"
    and pk: "postKickPending s" and ni: "\<not> postKickIsInstant s"
    and rd: "(word_of_int (cfgKickRampDownMs s) :: u32) \<noteq> 0"
    and a: "0 < appliedThrottle s" "appliedThrottle s \<le> 100"
    and fin: "0 < postKickFinalThr s" "postKickFinalThr s \<le> 100"
  shows "rampActive (loop t s)" and "rampKind (loop t s) = QUICKSTOP"
    and "rampTargetThrottle (loop t s) = 0" and "rampStartMs (loop t s) = t"
    and "rampDurationMs (loop t s) = word_of_int (cfgKickRampDownMs s)"
    and "\<not> kickActive (loop t s)" and "pendingStage (loop t s) = PS_NONE"
    and "reversePending (loop t s)" and "pendingSkipDirDelay (loop t s)"
    and "pendingSuppressKickOnce (loop t s)" and "\<not> pendingFinalIsInstant (loop t s)"
    and "pendingFinalIsMomentum (loop t s)"
    and "pendingFinalTargetThrottle (loop t s) = postKickFinalThr s"
    and "pendingFinalDirection (loop t s) = postKickDir s"
    and "pendingFullAccelMs (loop t s) = postKickFullAccelMs s"
    and "cfgMinStart (loop t s) = cfgMinStart s"
    and "graceActive (loop t s) = graceActive s"
    and "disconnectMs (loop t s) = disconnectMs s"
proof -
  let ?y = "processKick t s"
  have y: "rampActive ?y" "rampKind ?y = QUICKSTOP" "rampTargetThrottle ?y = 0"
    "rampStartMs ?y = t" "rampDurationMs ?y = word_of_int (cfgKickRampDownMs s)"
    "\<not> kickActive ?y" "pendingStage ?y = PS_NONE" "reversePending ?y"
    "pendingSkipDirDelay ?y" "pendingSuppressKickOnce ?y" "\<not> pendingFinalIsInstant ?y"
    "pendingFinalIsMomentum ?y" "pendingFinalTargetThrottle ?y = postKickFinalThr s"
    "pendingFinalDirection ?y = postKickDir s"
    "pendingFullAccelMs ?y = postKickFullAccelMs s" "cfgMinStart ?y = cfgMinStart s"
    "graceActive ?y = graceActive s" "disconnectMs ?y = disconnectMs s"
    using k r x pk ni rd a fin
    by (simp_all add: processKick_def continueAfterKickIfNeeded_def startRamp_nf prim_nf
        Let_def clamp_id)
  have gy: "\<not> (graceActive ?y \<and> BLE_GRACE_MS \<le> t - disconnectMs ?y)"
    using g by (simp add: y)
  have l: "loop t s = loop t ?y"
    by (simp add: loop_def processBleGrace_idle [OF g] processBleGrace_idle [OF gy]
        processKick_idle [OF y(6)])
  have nd: "\<not> rampDurationMs ?y \<le> t - rampStartMs ?y"
    using rd by (simp add: y)
  have c: "controlState (loop t s) = controlState ?y"
    unfolding l using y(1) y(6) _ gy nd by (rule loop_ramp_running) (simp add: y)
  note f = controlState_fields [OF c]
  show "rampActive (loop t s)" and "rampKind (loop t s) = QUICKSTOP"
    and "rampTargetThrottle (loop t s) = 0" and "rampStartMs (loop t s) = t"
    and "rampDurationMs (loop t s) = word_of_int (cfgKickRampDownMs s)"
    and "\<not> kickActive (loop t s)" and "pendingStage (loop t s) = PS_NONE"
    and "reversePending (loop t s)" and "pendingSkipDirDelay (loop t s)"
    and "pendingSuppressKickOnce (loop t s)" and "\<not> pendingFinalIsInstant (loop t s)"
    and "pendingFinalIsMomentum (loop t s)"
    and "pendingFinalTargetThrottle (loop t s) = postKickFinalThr s"
    and "pendingFinalDirection (loop t s) = postKickDir s"
    and "pendingFullAccelMs (loop t s) = postKickFullAccelMs s"
    and "cfgMinStart (loop t s) = cfgMinStart s"
    and "graceActive (loop t s) = graceActive s"
    and "disconnectMs (loop t s) = disconnectMs s"
    by (simp_all add: f y)
qed

lemma eff_idem:
  "cfgMinStart s \<le> 100 \<Longrightarrow>
   effectiveStartTargetThrottle (effectiveStartTargetThrottle r True s) True s =
     effectiveStartTargetThrottle r True s"
  by (simp add: effectiveStartTargetThrottle_def Let_def clampI32_def max_def)

lemma eff_range:
  "cfgMinStart s \<le> 100 \<Longrightarrow> effectiveStartTargetThrottle r True s \<le> 100"
  "0 \<le> effectiveStartTargetThrottle r True s"
  by (simp_all add: effectiveStartTargetThrottle_def Let_def clampI32_def max_def)

lemma kick_level_pos: "0 < a \<Longrightarrow> 0 < clampI32 (max a b) 0 100"
  by (simp add: clampI32_def max_def)

text \<open>A ramped command from full stop that qualifies for a kick, and the kick it starts.\<close>

lemma kick_start:
  fixes s :: firmware and A D now :: u32 and k :: RampKind
  assumes z: "appliedThrottle s = 0" "currentDirection s = STOP"
    and d: "dir \<noteq> STOP"
    and q: "shouldKickOnStart True (effectiveStartTargetThrottle (clampI32 n 0 100) True s) s"
  defines "eff \<equiv> effectiveStartTargetThrottle (clampI32 n 0 100) True s"
    and "s1 \<equiv> executeRampedMove dir n A D k now s"
  shows "kickActive s1" and "\<not> rampActive s1" and "pendingStage s1 = PS_NONE"
    and "\<not> reversePending s1"
    and "kickEndMs s1 = now + word_of_int (cfgKickMs s)"
    and "postKickPending s1" and "\<not> postKickIsInstant s1" and "postKickDir s1 = dir"
    and "postKickFinalThr s1 = eff" and "postKickFullAccelMs s1 = A"
    and "appliedThrottle s1 = clampI32 (max (cfgKickThrottle s) (cfgMinStart s)) 0 100"
    and "currentDirection s1 = dir" and "targetThrottle s1 = clampI32 eff 0 100"
    and "cfgMinStart s1 = cfgMinStart s" and "cfgKickRampDownMs s1 = cfgKickRampDownMs s"
    and "graceActive s1 = graceActive s" and "disconnectMs s1 = disconnectMs s"
    and "(\<forall>t\<in>set hs. sint (t - (now + word_of_int (cfgKickMs s))) < 0 \<and>
            \<not> (graceActive s \<and> BLE_GRACE_MS \<le> t - disconnectMs s)) \<Longrightarrow>
         ticks hs s1 = s1"
proof -
  have e: "0 < eff" and kt: "0 < cfgKickThrottle s"
    using q by (simp_all add: eff_def shouldKickOnStart_def split: if_splits)
  have n: "clampI32 n 0 100 \<noteq> 0"
    using e by (auto simp: eff_def effectiveStartTargetThrottle_def Let_def)
  let ?s0 = "(setTarget dir eff (cancelAllMotionActivities (cancelPendingReverse s)))
               \<lparr>currentDirection := dir, pendingFullAccelMs := A, pendingFullDecelMs := D\<rparr>"
  have s1: "s1 = beginKick dir eff False True A D now ?s0"
    unfolding s1_def eff_def using n z q by (rule executeRampedMove_kick)
  have p: "0 < clampI32 (max (cfgKickThrottle s) (cfgMinStart s)) 0 100"
    using kt by (rule kick_level_pos)
  show "kickActive s1" and "\<not> rampActive s1" and "pendingStage s1 = PS_NONE"
    and "\<not> reversePending s1"
    and "kickEndMs s1 = now + word_of_int (cfgKickMs s)"
    and "postKickPending s1" and "\<not> postKickIsInstant s1" and "postKickDir s1 = dir"
    and "postKickFinalThr s1 = eff" and "postKickFullAccelMs s1 = A"
    and "appliedThrottle s1 = clampI32 (max (cfgKickThrottle s) (cfgMinStart s)) 0 100"
    and "currentDirection s1 = dir" and "targetThrottle s1 = clampI32 eff 0 100"
    and "cfgMinStart s1 = cfgMinStart s" and "cfgKickRampDownMs s1 = cfgKickRampDownMs s"
    and "graceActive s1 = graceActive s" and "disconnectMs s1 = disconnectMs s"
    using p by (simp_all add: s1 beginKick_nf prim_nf Let_def)
  assume h: "\<forall>t\<in>set hs. sint (t - (now + word_of_int (cfgKickMs s))) < 0 \<and>
            \<not> (graceActive s \<and> BLE_GRACE_MS \<le> t - disconnectMs s)"
  show "ticks hs s1 = s1"
    unfolding s1 using h by (intro ticks_beginKick_hold) (simp_all add: prim_nf)
qed

lemma loop_no_kick:
  assumes k: "\<not> kickActive s" and p: "\<not> reversePending s"
  shows "\<not> kickActive (loop t s)" and "\<not> reversePending (loop t s)"
proof -
  let ?a = "processBleGrace t s"
  have a: "\<not> kickActive ?a" "\<not> reversePending ?a"
    using k p
    by (simp_all add: processBleGrace_def executeStopRamp_def startRamp_nf prim_nf Let_def)
  let ?b = "processRamp t ?a"
  have b: "\<not> kickActive ?b" "\<not> reversePending ?b"
    using a by (simp_all add: processRamp_def prim_nf Let_def)
  have l: "loop t s = idleReassert ?b"
    using a b by (simp add: loop_def processKick_idle processPendingReverse_idle)
  show "\<not> kickActive (loop t s)" and "\<not> reversePending (loop t s)"
    using b by (simp_all add: l idleReassert_def prim_nf Let_def)
qed

lemma ticks_no_kick:
  "\<not> kickActive s \<Longrightarrow> \<not> reversePending s \<Longrightarrow>
   \<not> kickActive (ticks ts s) \<and> \<not> reversePending (ticks ts s)"
  by (induction ts arbitrary: s) (simp_all add: loop_no_kick)

lemma no_kick_start:
  assumes z: "appliedThrottle s = 0" "currentDirection s = STOP"
    and q: "\<not> shouldKickOnStart True
                (effectiveStartTargetThrottle (clampI32 n 0 100) True s) s"
  shows "\<not> kickActive (executeRampedMove dir n A D k now s)"
    and "\<not> reversePending (executeRampedMove dir n A D k now s)"
proof -
  have "\<not> kickActive (executeRampedMove dir n A D k now s) \<and>
        \<not> reversePending (executeRampedMove dir n A D k now s)"
  proof (cases "clampI32 n 0 100 = 0")
    case True
    then show ?thesis
      by (simp add: executeRampedMove_stop executeStopRamp_def startRamp_nf prim_nf Let_def)
  next
    case False
    then show ?thesis
      using z q by (simp add: executeRampedMove_start startRamp_nf prim_nf Let_def)
  qed
  then show "\<not> kickActive (executeRampedMove dir n A D k now s)"
    and "\<not> reversePending (executeRampedMove dir n A D k now s)"
    by simp_all
qed

lemma kick_configured_eq:
  "kick_configured =
     initialGlobals\<lparr>bleConnected := True, cfgKickThrottle := 60, cfgKickMs := 200\<rparr>"
  by (simp add: kick_configured_def boot_eq onWrite_K2 [of "''60''" "''200''", simplified]
      str_defs onConnect_def clampI32_def)

section \<open>A reversal commanded during kick recovery\<close>

lemma ease_60_0_start: "smoothstepEasedThrottle 60 0 0 80 = 60"
  by (simp add: smoothstep_unfold clampI32_def cdiv_def P_SCALE_def)

lemma kick_recovering_unfold: "kick_recovering = loop 1200 (snd (onWrite ''F10'' 1000 kick_configured))"
  by (simp add: kick_recovering_def kick_configured_def)

lemma kick_started_eq: "snd (onWrite ''F10'' 1000 kick_configured) =
    initialGlobals
      \<lparr>bleConnected := True, cfgKickThrottle := 60, cfgKickMs := 200,
           reversePending := False, pendingStage := PS_NONE,
           pendingSuppressKickOnce := False, rampActive := False,
           pendingFullAccelMs := 20000, pendingFullDecelMs := 20000,
           kickActive := True, kickDirection := FWD, kickHoldThrottle := 60,
           kickEndMs := 1200, currentDirection := FWD, appliedThrottle := 60,
           driverEnabled := True, ledcDutyR := 613, ledcDutyL := 0,
           postKickPending := True, postKickDir := FWD,
           postKickFinalThr := 10, postKickIsInstant := False,
           postKickIsMomentum := True, postKickFullAccelMs := 20000,
           postKickFullDecelMs := 20000, targetDirection := FWD,
           targetThrottle := 10\<rparr>"
  by (simp add: kick_configured_eq onWrite_F [of "''10''", simplified]
      str_defs eval_defs clampI32_def scaled_unfold throttleToDuty_def)

lemma kick_recovering_eq: "kick_recovering =
    initialGlobals
      \<lparr>bleConnected := True, cfgKickThrottle := 60, cfgKickMs := 200,
           kickDirection := FWD, kickHoldThrottle := 60, kickEndMs := 1200,
           postKickDir := FWD, postKickFinalThr := 10,
           postKickIsInstant := False, postKickIsMomentum := True,
           postKickFullAccelMs := 20000, postKickFullDecelMs := 20000,
           pendingFinalDirection := FWD, pendingFinalTargetThrottle := 10,
           pendingFinalIsInstant := False, pendingFinalIsMomentum := True,
           pendingFullAccelMs := 20000, pendingFullDecelMs := 20000,
           pendingSkipDirDelay := True, reversePending := True,
           pendingStage := PS_NONE, pendingSuppressKickOnce := True,
           kickActive := False, postKickPending := False,
           rampKind := QUICKSTOP, rampDirection := FWD,
           targetDirection := STOP, targetThrottle := 0, rampActive := True,
           rampStartMs := 1200, rampDurationMs := 80,
           rampStartThrottle := 60, rampTargetThrottle := 0,
           currentDirection := FWD, appliedThrottle := 60,
           driverEnabled := True, ledcDutyR := 613, ledcDutyL := 0\<rparr>"
  by (simp add: kick_recovering_unfold kick_started_eq eval_defs clampI32_def scaled_unfold throttleToDuty_def ease_60_0_start)

lemma reversal_commanded_eq: "reversal_commanded =
    initialGlobals
      \<lparr>bleConnected := True, cfgKickThrottle := 60, cfgKickMs := 200,
           kickDirection := FWD, kickHoldThrottle := 60, kickEndMs := 1200,
           postKickDir := FWD, postKickFinalThr := 10,
           postKickIsInstant := False, postKickIsMomentum := True,
           postKickFullAccelMs := 20000, postKickFullDecelMs := 20000,
           pendingSkipDirDelay := True, appliedThrottle := 60,
           driverEnabled := True, ledcDutyR := 613, ledcDutyL := 0,
           pendingSuppressKickOnce := False,
           pendingFinalTargetThrottle := 10, pendingFinalDirection := REV,
           pendingFinalIsInstant := False, pendingFinalIsMomentum := True,
           reversePending := True, pendingStage := PS_NONE,
           pendingFullAccelMs := 20000, pendingFullDecelMs := 20000,
           kickActive := False, postKickPending := False,
           rampKind := MOMENTUM, rampDirection := FWD,
           targetDirection := STOP, targetThrottle := 0, rampActive := True,
           rampStartMs := 1210, rampDurationMs := 12000,
           rampStartThrottle := 60, rampTargetThrottle := 0,
           currentDirection := FWD\<rparr>"
  by (simp add: reversal_commanded_def kick_recovering_eq onWrite_R [of "''10''", simplified]
      str_defs eval_defs clampI32_def scaled_unfold throttleToDuty_def)

lemma ease_60_0_half: "smoothstepEasedThrottle 60 0 6000 12000 = 30"
  by (simp add: smoothstep_unfold clampI32_def cdiv_def P_SCALE_def)

lemma ease_60_0_done: "smoothstepEasedThrottle 60 0 12000 12000 = 0"
  by (simp add: smoothstep_unfold clampI32_def cdiv_def P_SCALE_def)

lemma reversed_in_recovery_unfold: "reversed_in_recovery = loop 7210 reversal_commanded"
  by (simp add: reversed_in_recovery_def)

lemma reversed_in_recovery_eq: "reversed_in_recovery =
    initialGlobals
      \<lparr>bleConnected := True, cfgKickThrottle := 60, cfgKickMs := 200,
           kickDirection := FWD, kickHoldThrottle := 60, kickEndMs := 1200,
           postKickDir := FWD, postKickFinalThr := 10,
           postKickIsInstant := False, postKickIsMomentum := True,
           postKickFullAccelMs := 20000, postKickFullDecelMs := 20000,
           pendingSkipDirDelay := True, pendingSuppressKickOnce := False,
           pendingFinalTargetThrottle := 10, pendingFinalDirection := REV,
           pendingFinalIsInstant := False, pendingFinalIsMomentum := True,
           reversePending := True, pendingStage := PS_NONE,
           pendingFullAccelMs := 20000, pendingFullDecelMs := 20000,
           kickActive := False, postKickPending := False,
           rampKind := MOMENTUM, rampDirection := FWD,
           targetDirection := STOP, targetThrottle := 0, rampActive := True,
           rampStartMs := 1210, rampDurationMs := 12000,
           rampStartThrottle := 60, rampTargetThrottle := 0,
           currentDirection := FWD, appliedThrottle := 30,
           driverEnabled := True, ledcDutyR := 306, ledcDutyL := 0\<rparr>"
  by (simp add: reversed_in_recovery_unfold reversal_commanded_eq
      eval_defs clampI32_def scaled_unfold throttleToDuty_def ease_60_0_half)

lemma ease_60_0_last: "smoothstepEasedThrottle 60 0 11999 12000 = 0"
  by (simp add: smoothstep_unfold clampI32_def cdiv_def P_SCALE_def)

lemma stopped_in_reversal_eq: "stopped_in_reversal =
    initialGlobals
      \<lparr>bleConnected := True, cfgKickThrottle := 60, cfgKickMs := 200,
         kickDirection := FWD, kickHoldThrottle := 60, kickEndMs := 1200,
         postKickDir := FWD, postKickFinalThr := 10,
         postKickIsInstant := False, postKickIsMomentum := True,
         postKickFullAccelMs := 20000, postKickFullDecelMs := 20000,
         pendingSkipDirDelay := True, pendingSuppressKickOnce := False,
         pendingFinalTargetThrottle := 10, pendingFinalDirection := REV,
         pendingFinalIsInstant := False, pendingFinalIsMomentum := True,
         reversePending := True, pendingStage := PS_NONE,
         pendingFullAccelMs := 20000, pendingFullDecelMs := 20000,
         kickActive := False, postKickPending := False,
         rampKind := MOMENTUM, rampDirection := FWD,
         targetDirection := STOP, targetThrottle := 0, rampActive := True,
         rampStartMs := 1210, rampDurationMs := 12000,
         rampStartThrottle := 60, rampTargetThrottle := 0,
         currentDirection := STOP, appliedThrottle := 0, ledcDutyR := 0,
         ledcDutyL := 0, driverEnabled := False\<rparr>"
  by (simp add: stopped_in_reversal_def reversed_in_recovery_eq
      eval_defs clampI32_def scaled_unfold throttleToDuty_def ease_60_0_last)

section \<open>The latched state of a moving engine\<close>

lemmas num_defs = clampI32_def scaled_unfold throttleToDuty_def

lemma ease_0_50_done: "smoothstepEasedThrottle 0 50 1250 1250 = 50"
  by (simp add: smoothstep_unfold clampI32_def cdiv_def P_SCALE_def)

lemma latched_moving_eq:
  "latched_moving =
     initialGlobals
       \<lparr>appliedThrottle := 50, currentDirection := FWD, driverEnabled := True,
        ledcDutyR := 511, disconnectMs := 2000, forcedStopLatched := True,
        rampKind := QUICKSTOP, rampDirection := FWD, rampActive := True,
        rampStartMs := 17000, rampDurationMs := 1500, rampStartThrottle := 50\<rparr>"
  by (simp add: latched_moving_def run_def boot_eq onWrite_FQ [of "''50''", simplified]
      str_defs eval_defs num_defs ease_0_50_done)

section \<open>The course of a kick and of the ramp that follows\<close>

lemma smoothstep_start:
  "0 \<le> a \<Longrightarrow> a \<le> 100 \<Longrightarrow> d \<noteq> 0 \<Longrightarrow> smoothstepEasedThrottle a b 0 d = a"
  by (simp add: smoothstep_unfold clampI32_def cdiv_def P_SCALE_def)

lemma smoothstep_running_spec:
  assumes "\<not> d \<le> e"
  shows "smoothstepEasedThrottle a b e d = smoothstep_spec a b (unat e) (unat d)"
proof -
  have "unat e < unat d"
    using assms by (simp add: word_le_nat_alt)
  then have "unat e * 1000 div unat d < 1000"
    by (simp add: less_mult_imp_div_less mult.commute)
  then have "unat e * 1000 div unat d < 2 ^ 31"
    by simp
  then show ?thesis
    by (rule smoothstep_matches_spec)
qed

lemma loop_ramp_running_value:
  assumes r: "rampActive s" and k: "\<not> kickActive s"
    and st: "pendingStage s \<noteq> WAIT_DIR_DELAY"
    and g: "\<not> (graceActive s \<and> BLE_GRACE_MS \<le> t - disconnectMs s)"
    and h: "\<not> rampDurationMs s \<le> t - rampStartMs s"
    and z: "0 \<le> rampTargetThrottle s" "rampTargetThrottle s \<le> 100"
  shows "appliedThrottle (loop t s) =
           smoothstepEasedThrottle (rampStartThrottle s) (rampTargetThrottle s)
             (t - rampStartMs s) (rampDurationMs s)"
proof -
  have 1: "processKick t s = s"
    using k by (rule processKick_idle)
  have sr: "0 \<le> smoothstepEasedThrottle (rampStartThrottle s) (rampTargetThrottle s)
                  (t - rampStartMs s) (rampDurationMs s) \<and>
            smoothstepEasedThrottle (rampStartThrottle s) (rampTargetThrottle s)
                  (t - rampStartMs s) (rampDurationMs s) \<le> 100"
    using z by (rule smooth_range)
  have 2: "appliedThrottle (processRamp t s) =
       smoothstepEasedThrottle (rampStartThrottle s) (rampTargetThrottle s)
         (t - rampStartMs s) (rampDurationMs s)"
    "rampActive (processRamp t s)" "pendingStage (processRamp t s) = pendingStage s"
    using r h sr by (auto simp: processRamp_def prim_nf Let_def clamp_id)
  have 3: "processPendingReverse t (processRamp t s) = processRamp t s"
    using st 2 by (simp add: processPendingReverse_idle)
  have 4: "idleReassert (processRamp t s) = processRamp t s"
    using 2 by (simp add: idleReassert_busy)
  show ?thesis
    by (simp only: loop_def processBleGrace_idle [OF g] 1 2 3 4)
qed

lemma ticks_ramp_value:
  assumes r: "rampActive s" and k: "\<not> kickActive s"
    and st: "pendingStage s \<noteq> WAIT_DIR_DELAY"
    and g: "\<forall>t\<in>set ts. \<not> (graceActive s \<and> BLE_GRACE_MS \<le> t - disconnectMs s)"
    and h: "\<forall>t\<in>set ts. \<not> rampDurationMs s \<le> t - rampStartMs s"
    and gt: "\<not> (graceActive s \<and> BLE_GRACE_MS \<le> t - disconnectMs s)"
    and ht: "\<not> rampDurationMs s \<le> t - rampStartMs s"
    and z: "0 \<le> rampTargetThrottle s" "rampTargetThrottle s \<le> 100"
  shows "appliedThrottle (loop t (ticks ts s)) =
           smoothstep_spec (rampStartThrottle s) (rampTargetThrottle s)
             (unat (t - rampStartMs s)) (unat (rampDurationMs s))"
proof -
  have c: "controlState (ticks ts s) = controlState s"
    using r k st g h by (rule ticks_ramp_running)
  note f = controlState_fields [OF c]
  have "appliedThrottle (loop t (ticks ts s)) =
      smoothstepEasedThrottle (rampStartThrottle (ticks ts s)) (rampTargetThrottle (ticks ts s))
        (t - rampStartMs (ticks ts s)) (rampDurationMs (ticks ts s))"
    using r k st gt ht z by (intro loop_ramp_running_value) (simp_all add: f)
  then show ?thesis
    using ht by (simp add: f smoothstep_running_spec)
qed

lemma grace_processKick:
  "graceActive (processKick t s) = graceActive s"
  "disconnectMs (processKick t s) = disconnectMs s"
  by (simp_all add: processKick_def continueAfterKickIfNeeded_def startRamp_nf prim_nf Let_def)

lemma grace_processRamp:
  "graceActive (processRamp t s) = graceActive s"
  "disconnectMs (processRamp t s) = disconnectMs s"
  by (simp_all add: processRamp_def prim_nf Let_def)

lemma grace_processPendingReverse:
  "graceActive (processPendingReverse t s) = graceActive s"
  "disconnectMs (processPendingReverse t s) = disconnectMs s"
  by (simp_all add: processPendingReverse_def startRamp_nf beginKick_nf prim_nf Let_def)

lemma grace_idleReassert:
  "graceActive (idleReassert s) = graceActive s"
  "disconnectMs (idleReassert s) = disconnectMs s"
  by (simp_all add: idleReassert_def prim_nf Let_def)

lemma grace_loop:
  assumes "\<not> (graceActive s \<and> BLE_GRACE_MS \<le> t - disconnectMs s)"
  shows "graceActive (loop t s) = graceActive s" and "disconnectMs (loop t s) = disconnectMs s"
  by (simp_all add: loop_def processBleGrace_idle [OF assms] grace_idleReassert
      grace_processPendingReverse grace_processRamp grace_processKick)

lemma loop_ramp_complete_settled:
  assumes r: "rampActive s" and k: "\<not> kickActive s" and p: "\<not> reversePending s"
    and z: "0 < rampTargetThrottle s" "rampTargetThrottle s \<le> 100"
    and g: "\<not> (graceActive s \<and> BLE_GRACE_MS \<le> t - disconnectMs s)"
    and d: "rampDurationMs s \<le> t - rampStartMs s"
  shows "appliedThrottle (loop t s) = rampTargetThrottle s"
    and "currentDirection (loop t s) = rampDirection s"
    and "\<not> rampActive (loop t s)" and "\<not> kickActive (loop t s)"
    and "\<not> reversePending (loop t s)"
proof -
  let ?b = "processRamp t s"
  have b: "appliedThrottle ?b = rampTargetThrottle s" "currentDirection ?b = rampDirection s"
    "\<not> rampActive ?b" "\<not> kickActive ?b" "\<not> reversePending ?b"
    using r k z d p by (simp_all add: processRamp_def prim_nf Let_def clamp_id)
  have l: "loop t s = idleReassert ?b"
    using b k by (simp add: loop_def processBleGrace_idle [OF g] processKick_idle
        processPendingReverse_idle)
  show "appliedThrottle (loop t s) = rampTargetThrottle s"
    and "currentDirection (loop t s) = rampDirection s"
    and "\<not> rampActive (loop t s)" and "\<not> kickActive (loop t s)"
    and "\<not> reversePending (loop t s)"
    using b z by (simp_all add: l idleReassert_def prim_nf Let_def)
qed

lemma loop_steady:
  assumes r: "\<not> rampActive s" and k: "\<not> kickActive s" and p: "\<not> reversePending s"
    and a: "appliedThrottle s \<noteq> 0"
    and g: "\<not> (graceActive s \<and> BLE_GRACE_MS \<le> t - disconnectMs s)"
  shows "appliedThrottle (loop t s) = appliedThrottle s"
    and "currentDirection (loop t s) = currentDirection s"
    and "\<not> rampActive (loop t s)" and "\<not> kickActive (loop t s)"
    and "\<not> reversePending (loop t s)"
proof -
  have l: "loop t s = idleReassert s"
    using r k p by (simp add: loop_def processBleGrace_idle [OF g] processKick_idle
        processRamp_idle processPendingReverse_idle)
  show "appliedThrottle (loop t s) = appliedThrottle s"
    and "currentDirection (loop t s) = currentDirection s"
    and "\<not> rampActive (loop t s)" and "\<not> kickActive (loop t s)"
    and "\<not> reversePending (loop t s)"
    using r k p a by (simp_all add: l idleReassert_def prim_nf Let_def)
qed

lemma ticks_steady:
  assumes "\<not> rampActive s" and "\<not> kickActive s" and "\<not> reversePending s"
    and "appliedThrottle s \<noteq> 0"
    and "\<forall>t\<in>set ts. \<not> (graceActive s \<and> BLE_GRACE_MS \<le> t - disconnectMs s)"
  shows "appliedThrottle (ticks ts s) = appliedThrottle s \<and>
         currentDirection (ticks ts s) = currentDirection s \<and>
         \<not> rampActive (ticks ts s) \<and> \<not> kickActive (ticks ts s) \<and> \<not> reversePending (ticks ts s)"
  using assms
proof (induction ts arbitrary: s)
  case Nil
  then show ?case by simp
next
  case (Cons t ts)
  have g: "\<not> (graceActive s \<and> BLE_GRACE_MS \<le> t - disconnectMs s)"
    using Cons.prems(5) by simp
  note l = loop_steady [OF Cons.prems(1-4) g]
  note gl = grace_loop [OF g]
  have "appliedThrottle (ticks ts (loop t s)) = appliedThrottle (loop t s) \<and>
         currentDirection (ticks ts (loop t s)) = currentDirection (loop t s) \<and>
         \<not> rampActive (ticks ts (loop t s)) \<and> \<not> kickActive (ticks ts (loop t s)) \<and>
         \<not> reversePending (ticks ts (loop t s))"
    using Cons.prems by (intro Cons.IH) (simp_all add: l gl)
  then show ?case
    by (simp add: l)
qed

lemma wellformed_ramp_stage:
  "wellformed s \<Longrightarrow> rampActive s \<Longrightarrow> pendingStage s \<noteq> WAIT_DIR_DELAY"
  unfolding wellformed_def by blast

lemma loop_kick_expiry_recover_output:
  assumes k: "kickActive s" and r: "\<not> rampActive s"
    and g: "\<not> (graceActive s \<and> BLE_GRACE_MS \<le> t - disconnectMs s)"
    and x: "\<not> sint (t - kickEndMs s) < 0"
    and pk: "postKickPending s" and ni: "\<not> postKickIsInstant s"
    and rd: "(word_of_int (cfgKickRampDownMs s) :: u32) \<noteq> 0"
    and a: "0 < appliedThrottle s" "appliedThrottle s \<le> 100"
    and fin: "0 < postKickFinalThr s" "postKickFinalThr s \<le> 100"
  shows "rampStartThrottle (loop t s) = appliedThrottle s"
    and "rampDirection (loop t s) = postKickDir s"
    and "appliedThrottle (loop t s) = appliedThrottle s"
proof -
  let ?y = "processKick t s"
  have y: "rampActive ?y" "rampTargetThrottle ?y = 0"
    "rampStartMs ?y = t" "rampDurationMs ?y = word_of_int (cfgKickRampDownMs s)"
    "\<not> kickActive ?y" "pendingStage ?y = PS_NONE"
    "graceActive ?y = graceActive s" "disconnectMs ?y = disconnectMs s"
    "rampStartThrottle ?y = appliedThrottle s" "rampDirection ?y = postKickDir s"
    using k r x pk ni rd a fin
    by (simp_all add: processKick_def continueAfterKickIfNeeded_def startRamp_nf prim_nf
        Let_def clamp_id)
  have gy: "\<not> (graceActive ?y \<and> BLE_GRACE_MS \<le> t - disconnectMs ?y)"
    using g by (simp add: y)
  have l: "loop t s = loop t ?y"
    by (simp add: loop_def processBleGrace_idle [OF g] processBleGrace_idle [OF gy]
        processKick_idle [OF y(5)])
  have nd: "\<not> rampDurationMs ?y \<le> t - rampStartMs ?y"
    using rd by (simp add: y)
  have st: "pendingStage ?y \<noteq> WAIT_DIR_DELAY"
    by (simp add: y)
  have c: "controlState (loop t s) = controlState ?y"
    unfolding l using y(1) y(5) st gy nd by (rule loop_ramp_running)
  note f = controlState_fields [OF c]
  show "rampStartThrottle (loop t s) = appliedThrottle s"
    and "rampDirection (loop t s) = postKickDir s"
    by (simp_all add: f y)
  have "appliedThrottle (loop t ?y) =
      smoothstepEasedThrottle (rampStartThrottle ?y) (rampTargetThrottle ?y)
        (t - rampStartMs ?y) (rampDurationMs ?y)"
    using y(1) y(5) st gy nd by (rule loop_ramp_running_value) (simp_all add: y)
  then show "appliedThrottle (loop t s) = appliedThrottle s"
    using a rd by (simp add: l y smoothstep_start)
qed

text \<open>A running ramp towards a non-zero target with nothing else staged: its course.\<close>

lemma ramp_up_course:
  assumes r: "rampActive x" and k: "\<not> kickActive x" and p: "\<not> reversePending x"
    and st: "pendingStage x \<noteq> WAIT_DIR_DELAY"
    and z: "0 < rampTargetThrottle x" "rampTargetThrottle x \<le> 100"
    and up: "\<forall>t\<in>set us. \<not> rampDurationMs x \<le> t - rampStartMs x \<and>
               \<not> (graceActive x \<and> BLE_GRACE_MS \<le> t - disconnectMs x)"
    and fin: "rampDurationMs x \<le> tf - rampStartMs x"
      "\<not> (graceActive x \<and> BLE_GRACE_MS \<le> tf - disconnectMs x)"
    and idle: "\<forall>t\<in>set vs. \<not> (graceActive x \<and> BLE_GRACE_MS \<le> t - disconnectMs x)"
  shows "appliedThrottle (loop tf (ticks us x)) = rampTargetThrottle x"
    and "currentDirection (loop tf (ticks us x)) = rampDirection x"
    and "\<not> rampActive (loop tf (ticks us x))"
    and "\<not> kickActive (loop tf (ticks us x))"
    and "\<not> reversePending (loop tf (ticks us x))"
    and "appliedThrottle (ticks vs (loop tf (ticks us x))) = rampTargetThrottle x"
    and "currentDirection (ticks vs (loop tf (ticks us x))) = rampDirection x"
    and "\<not> rampActive (ticks vs (loop tf (ticks us x)))"
    and "\<not> kickActive (ticks vs (loop tf (ticks us x)))"
proof -
  let ?y = "ticks us x"
  let ?e = "loop tf ?y"
  have g: "\<forall>t\<in>set us. \<not> (graceActive x \<and> BLE_GRACE_MS \<le> t - disconnectMs x)"
    and h: "\<forall>t\<in>set us. \<not> rampDurationMs x \<le> t - rampStartMs x"
    using up by simp_all
  have c: "controlState ?y = controlState x"
    using r k st g h by (rule ticks_ramp_running)
  note f = controlState_fields [OF c]
  have gy: "\<not> (graceActive ?y \<and> BLE_GRACE_MS \<le> tf - disconnectMs ?y)"
    using fin by (simp add: f)
  have yr: "rampActive ?y" "\<not> kickActive ?y" "\<not> reversePending ?y"
    "0 < rampTargetThrottle ?y" "rampTargetThrottle ?y \<le> 100"
    "rampDurationMs ?y \<le> tf - rampStartMs ?y"
    using r k p z fin by (simp_all add: f)
  note e = loop_ramp_complete_settled [OF yr(1) yr(2) yr(3) yr(4) yr(5) gy yr(6)]
  show "appliedThrottle ?e = rampTargetThrottle x" and "currentDirection ?e = rampDirection x"
    and "\<not> rampActive ?e" and "\<not> kickActive ?e" and "\<not> reversePending ?e"
    by (simp_all add: e f)
  note ge = grace_loop [OF gy]
  have nz: "appliedThrottle ?e \<noteq> 0"
    using z by (simp add: e f)
  have ie: "\<forall>t\<in>set vs. \<not> (graceActive ?e \<and> BLE_GRACE_MS \<le> t - disconnectMs ?e)"
    using idle by (simp add: ge f)
  note s = ticks_steady [OF e(3) e(4) e(5) nz ie]
  show "appliedThrottle (ticks vs ?e) = rampTargetThrottle x"
    and "currentDirection (ticks vs ?e) = rampDirection x"
    and "\<not> rampActive (ticks vs ?e)" and "\<not> kickActive (ticks vs ?e)"
    using s by (simp_all add: e f)
qed

text \<open>
  A ramped command from full stop that starts a kick, followed to the tick that arms the
  final ramp: \<open>s1\<close> after the command, \<open>s2\<close> after the tick that ends the kick, \<open>s3\<close> after the
  tick that starts the final ramp.
\<close>

lemma kick_course:
  fixes s :: firmware and A D now te tc rd :: u32 and k :: RampKind
  assumes w: "wellformed s"
    and z: "appliedThrottle s = 0" "currentDirection s = STOP"
    and d: "dir \<noteq> STOP"
    and ed: "eff = effectiveStartTargetThrottle (clampI32 n 0 100) True s"
    and q: "shouldKickOnStart True eff s"
    and rdd: "rd = word_of_int (cfgKickRampDownMs s)"
    and hold: "\<forall>t\<in>set hs. sint (t - (now + word_of_int (cfgKickMs s))) < 0 \<and>
                 \<not> (graceActive s \<and> BLE_GRACE_MS \<le> t - disconnectMs s)"
    and expiry: "\<not> sint (te - (now + word_of_int (cfgKickMs s))) < 0"
      "\<not> (graceActive s \<and> BLE_GRACE_MS \<le> te - disconnectMs s)"
    and rec: "\<forall>t\<in>set rs. \<not> rd \<le> t - te \<and>
                 \<not> (graceActive s \<and> BLE_GRACE_MS \<le> t - disconnectMs s)"
    and fin: "rd \<le> tc - te" "\<not> (graceActive s \<and> BLE_GRACE_MS \<le> tc - disconnectMs s)"
  defines "s1 \<equiv> executeRampedMove dir n A D k now s"
    and "s2 \<equiv> loop te (ticks hs (executeRampedMove dir n A D k now s))"
    and "lv \<equiv> clampI32 (max (cfgKickThrottle s) (cfgMinStart s)) 0 100"
  defines "s3 \<equiv> (if rd = 0 then s2 else loop tc (ticks rs s2))"
  shows "ticks hs s1 = s1" and "appliedThrottle s1 = lv" and "currentDirection s1 = dir"
    and "kickActive s1" and "kickEndMs s1 = now + word_of_int (cfgKickMs s)"
    and "0 < lv" and "lv \<le> 100" and "0 < eff" and "eff \<le> 100"
    and "rd \<noteq> 0 \<Longrightarrow>
         rampActive s2 \<and> rampKind s2 = QUICKSTOP \<and> rampDirection s2 = dir \<and>
         rampStartThrottle s2 = lv \<and> rampTargetThrottle s2 = 0 \<and> rampStartMs s2 = te \<and>
         rampDurationMs s2 = rd \<and> appliedThrottle s2 = lv \<and> \<not> kickActive s2 \<and>
         pendingStage s2 = PS_NONE \<and> reversePending s2 \<and> pendingSkipDirDelay s2 \<and>
         pendingFinalIsMomentum s2 \<and> pendingFinalDirection s2 = dir \<and>
         pendingFinalTargetThrottle s2 = eff \<and> pendingFullAccelMs s2 = A \<and>
         graceActive s2 = graceActive s \<and> disconnectMs s2 = disconnectMs s"
    and "rampActive s3 \<and> rampKind s3 = MOMENTUM \<and> rampDirection s3 = dir \<and>
         rampStartThrottle s3 = 0 \<and> rampTargetThrottle s3 = eff \<and>
         rampDurationMs s3 = scaledDurationMs A eff \<and>
         rampStartMs s3 = (if rd = 0 then te else tc) \<and>
         appliedThrottle s3 = 0 \<and> \<not> reversePending s3 \<and> \<not> kickActive s3 \<and>
         pendingStage s3 \<noteq> WAIT_DIR_DELAY \<and>
         graceActive s3 = graceActive s \<and> disconnectMs s3 = disconnectMs s"
proof -
  note ks = kick_start [OF z d q [unfolded ed], where A = A and D = D and k = k and now = now,
      folded ed s1_def]
  show h: "ticks hs s1 = s1"
    using hold by (rule ks(18))
  have e: "0 < eff" and kt: "0 < cfgKickThrottle s"
    using q by (simp_all add: shouldKickOnStart_def split: if_splits)
  have wm: "cfgMinStart s \<le> 100"
    using w by (simp add: wellformed_def)
  have e100: "eff \<le> 100"
    unfolding ed using wm by (rule eff_range)
  have idem: "effectiveStartTargetThrottle eff True s = eff"
    unfolding ed using wm by (rule eff_idem)
  have idem1: "effectiveStartTargetThrottle (postKickFinalThr s1) True s1 = postKickFinalThr s1"
    using idem eff_cong [OF ks(14)] by (simp add: ks(9))
  have x: "\<not> sint (te - kickEndMs s1) < 0"
    and g: "\<not> (graceActive s1 \<and> BLE_GRACE_MS \<le> te - disconnectMs s1)"
    using expiry by (simp_all add: ks)
  have lv: "0 < lv" "lv \<le> 100"
    using kt by (simp_all add: lv_def kick_level_pos)
  have a: "0 < appliedThrottle s1" "appliedThrottle s1 \<le> 100"
    using lv by (simp_all add: ks(11) lv_def)
  have f1: "0 < postKickFinalThr s1" "postKickFinalThr s1 \<le> 100"
    using e e100 by (simp_all add: ks(9))
  have rd1: "rd = word_of_int (cfgKickRampDownMs s1)"
    by (simp add: rdd ks)
  have s2: "s2 = loop te s1"
    by (simp add: s2_def h [unfolded s1_def] s1_def)
  have w1: "wellformed s1"
    unfolding s1_def using w d by (rule wellformed_executeRampedMove)
  have w3: "wellformed s3"
    by (simp add: s3_def s2 wellformed_loop wellformed_ticks w1)
  show "appliedThrottle s1 = lv" and "currentDirection s1 = dir" and "kickActive s1"
    and "kickEndMs s1 = now + word_of_int (cfgKickMs s)"
    by (simp_all add: ks lv_def)
  show "0 < lv" and "lv \<le> 100" and "0 < eff" and "eff \<le> 100"
    using lv e e100 by simp_all
  have rec2: "rampActive s2 \<and> rampKind s2 = QUICKSTOP \<and> rampDirection s2 = dir \<and>
         rampStartThrottle s2 = lv \<and> rampTargetThrottle s2 = 0 \<and> rampStartMs s2 = te \<and>
         rampDurationMs s2 = rd \<and> appliedThrottle s2 = lv \<and> \<not> kickActive s2 \<and>
         pendingStage s2 = PS_NONE \<and> reversePending s2 \<and> pendingSkipDirDelay s2 \<and>
         pendingFinalIsMomentum s2 \<and> pendingFinalDirection s2 = dir \<and>
         pendingFinalTargetThrottle s2 = eff \<and> pendingFullAccelMs s2 = A \<and>
         graceActive s2 = graceActive s \<and> disconnectMs s2 = disconnectMs s"
    if nz: "rd \<noteq> 0"
  proof -
    note r = loop_kick_expiry_recover [OF ks(1) ks(2) g x ks(6) ks(7) nz [unfolded rd1] a f1]
    note o = loop_kick_expiry_recover_output
        [OF ks(1) ks(2) g x ks(6) ks(7) nz [unfolded rd1] a f1]
    show ?thesis
      by (simp add: s2 r o ks rdd lv_def)
  qed
  then show "rd \<noteq> 0 \<Longrightarrow>
         rampActive s2 \<and> rampKind s2 = QUICKSTOP \<and> rampDirection s2 = dir \<and>
         rampStartThrottle s2 = lv \<and> rampTargetThrottle s2 = 0 \<and> rampStartMs s2 = te \<and>
         rampDurationMs s2 = rd \<and> appliedThrottle s2 = lv \<and> \<not> kickActive s2 \<and>
         pendingStage s2 = PS_NONE \<and> reversePending s2 \<and> pendingSkipDirDelay s2 \<and>
         pendingFinalIsMomentum s2 \<and> pendingFinalDirection s2 = dir \<and>
         pendingFinalTargetThrottle s2 = eff \<and> pendingFullAccelMs s2 = A \<and>
         graceActive s2 = graceActive s \<and> disconnectMs s2 = disconnectMs s" .
  have main: "rampActive s3 \<and> rampKind s3 = MOMENTUM \<and> rampDirection s3 = dir \<and>
         rampStartThrottle s3 = 0 \<and> rampTargetThrottle s3 = eff \<and>
         rampDurationMs s3 = scaledDurationMs A eff \<and>
         rampStartMs s3 = (if rd = 0 then te else tc) \<and>
         appliedThrottle s3 = 0 \<and> \<not> reversePending s3 \<and> \<not> kickActive s3 \<and>
         graceActive s3 = graceActive s \<and> disconnectMs s3 = disconnectMs s"
  proof (cases "rd = 0")
    case True
    note r = loop_kick_expiry_immediate
        [OF ks(1) ks(2) g x ks(6) ks(7) True [unfolded rd1] f1 idem1]
    note gl = grace_loop [OF g]
    show ?thesis
      using True by (simp add: s3_def s2 r gl ks)
  next
    case False
    note m = rec2 [OF False]
    have rg: "\<forall>t\<in>set rs. \<not> (graceActive s2 \<and> BLE_GRACE_MS \<le> t - disconnectMs s2)"
      using rec by (simp add: m)
    have rr: "\<forall>t\<in>set rs. \<not> rampDurationMs s2 \<le> t - rampStartMs s2"
      using rec by (simp add: m)
    have st: "pendingStage s2 \<noteq> WAIT_DIR_DELAY"
      by (simp add: m)
    have c: "controlState (ticks rs s2) = controlState s2"
      using m [THEN conjunct1] _ st rg rr by (rule ticks_ramp_running) (simp add: m)
    note f = controlState_fields [OF c]
    let ?s' = "ticks rs s2"
    have g': "\<not> (graceActive ?s' \<and> BLE_GRACE_MS \<le> tc - disconnectMs ?s')"
      using fin by (simp add: f m)
    have fd: "rampDurationMs ?s' \<le> tc - rampStartMs ?s'"
      using fin by (simp add: f m)
    have idem': "effectiveStartTargetThrottle (pendingFinalTargetThrottle ?s') True ?s' =
                   pendingFinalTargetThrottle ?s'"
      using idem eff_cong [of ?s' s] loop_kick_expiry_recover(16)
          [OF ks(1) ks(2) g x ks(6) ks(7) False [unfolded rd1] a f1]
      by (simp add: f m s2 [symmetric] ks)
    have c1: "rampActive ?s'" and c2: "\<not> kickActive ?s'" and c3: "rampTargetThrottle ?s' = 0"
      and c4: "reversePending ?s'" and c5: "pendingSkipDirDelay ?s'"
      and c6: "pendingSuppressKickOnce ?s'" and c7: "\<not> pendingFinalIsInstant ?s'"
      and c8: "pendingFinalIsMomentum ?s'"
      and c9: "0 < pendingFinalTargetThrottle ?s'" "pendingFinalTargetThrottle ?s' \<le> 100"
      using e e100 loop_kick_expiry_recover(10,11)
          [OF ks(1) ks(2) g x ks(6) ks(7) False [unfolded rd1] a f1]
      by (simp_all add: f m s2 [symmetric])
    note u = loop_ramp_complete_continuation [OF c1 c2 c3 g' fd c4 c5 c6 c7 c8 c9 idem']
    note gl = grace_loop [OF g']
    show ?thesis
      using False by (simp add: s3_def u gl f m)
  qed
  have st3: "pendingStage s3 \<noteq> WAIT_DIR_DELAY"
    using w3 main by (intro wellformed_ramp_stage) simp_all
  show "rampActive s3 \<and> rampKind s3 = MOMENTUM \<and> rampDirection s3 = dir \<and>
         rampStartThrottle s3 = 0 \<and> rampTargetThrottle s3 = eff \<and>
         rampDurationMs s3 = scaledDurationMs A eff \<and>
         rampStartMs s3 = (if rd = 0 then te else tc) \<and>
         appliedThrottle s3 = 0 \<and> \<not> reversePending s3 \<and> \<not> kickActive s3 \<and>
         pendingStage s3 \<noteq> WAIT_DIR_DELAY \<and>
         graceActive s3 = graceActive s \<and> disconnectMs s3 = disconnectMs s"
    using main st3 by simp
qed

lemma no_kick_ramp_start:
  fixes s :: firmware and A D now :: u32 and k :: RampKind
  assumes w: "wellformed s"
    and z: "appliedThrottle s = 0" "currentDirection s = STOP"
    and d: "dir \<noteq> STOP"
    and ed: "eff = effectiveStartTargetThrottle (clampI32 n 0 100) True s"
    and e: "cfgKickMaxApply s < eff"
  defines "x \<equiv> executeRampedMove dir n A D k now s"
  shows "rampActive x \<and> rampKind x = MOMENTUM \<and> rampDirection x = dir \<and>
         rampStartThrottle x = 0 \<and> rampTargetThrottle x = eff \<and> rampStartMs x = now \<and>
         rampDurationMs x = scaledDurationMs A eff \<and> appliedThrottle x = 0 \<and>
         \<not> kickActive x \<and> \<not> reversePending x \<and> pendingStage x \<noteq> WAIT_DIR_DELAY \<and>
         graceActive x = graceActive s \<and> disconnectMs x = disconnectMs s"
    and "0 < eff" and "eff \<le> 100"
proof -
  have m: "0 \<le> cfgKickMaxApply s" and wm: "cfgMinStart s \<le> 100"
    using w by (simp_all add: wellformed_def)
  show p: "0 < eff"
    using m e by simp
  show e100: "eff \<le> 100"
    unfolding ed using wm by (rule eff_range)
  have n: "clampI32 n 0 100 \<noteq> 0"
    using p by (auto simp: ed effectiveStartTargetThrottle_def Let_def)
  have q: "\<not> shouldKickOnStart True (effectiveStartTargetThrottle (clampI32 n 0 100) True s) s"
    using e by (simp add: shouldKickOnStart_def ed)
  let ?b = "(setTarget dir eff (cancelAllMotionActivities (cancelPendingReverse s)))
              \<lparr>currentDirection := dir\<rparr>"
  have x: "x = startRamp dir 0 eff (scaledDurationMs A eff) MOMENTUM now ?b"
    unfolding x_def using executeRampedMove_start [OF n z q, of dir A D k now] p
    by (simp add: ed)
  have dz: "scaledDurationMs A eff \<noteq> 0"
    using p by (rule scaled_pos)
  note u = startRamp_up_facts [OF p e100 dz, of dir MOMENTUM now ?b]
  have b: "appliedThrottle ?b = 0" "\<not> reversePending ?b"
    using z by (simp_all add: prim_nf)
  have gf: "graceActive x = graceActive s" "disconnectMs x = disconnectMs s"
    by (simp_all add: x startRamp_nf prim_nf Let_def)
  have wx: "wellformed x"
    unfolding x_def using w d by (rule wellformed_executeRampedMove)
  have st: "pendingStage x \<noteq> WAIT_DIR_DELAY"
    using wx u(1) by (intro wellformed_ramp_stage) (simp_all add: x)
  show "rampActive x \<and> rampKind x = MOMENTUM \<and> rampDirection x = dir \<and>
         rampStartThrottle x = 0 \<and> rampTargetThrottle x = eff \<and> rampStartMs x = now \<and>
         rampDurationMs x = scaledDurationMs A eff \<and> appliedThrottle x = 0 \<and>
         \<not> kickActive x \<and> \<not> reversePending x \<and> pendingStage x \<noteq> WAIT_DIR_DELAY \<and>
         graceActive x = graceActive s \<and> disconnectMs x = disconnectMs s"
    using st gf by (simp add: x [symmetric]) (simp add: x u b)
qed

section \<open>Grace expiry while a reversal is pending\<close>

lemma ease_0_100_done: "smoothstepEasedThrottle 0 100 2500 2500 = 100"
  by (simp add: smoothstep_unfold clampI32_def cdiv_def P_SCALE_def)

lemma ease_100_0_three_quarters: "smoothstepEasedThrottle 100 0 15000 20000 = 16"
  by (simp add: smoothstep_unfold clampI32_def cdiv_def P_SCALE_def)

lemma ease_16_0_start: "smoothstepEasedThrottle 16 0 0 480 = 16"
  by (simp add: smoothstep_unfold clampI32_def cdiv_def P_SCALE_def)

lemma ease_16_0_half: "smoothstepEasedThrottle 16 0 240 480 = 8"
  by (simp add: smoothstep_unfold clampI32_def cdiv_def P_SCALE_def)

lemma ease_16_0_done: "smoothstepEasedThrottle 16 0 480 480 = 0"
  by (simp add: smoothstep_unfold clampI32_def cdiv_def P_SCALE_def)

lemma ease_0_30_half: "smoothstepEasedThrottle 0 30 3000 6000 = 15"
  by (simp add: smoothstep_unfold clampI32_def cdiv_def P_SCALE_def)

lemma ease_0_30_done: "smoothstepEasedThrottle 0 30 6000 6000 = 30"
  by (simp add: smoothstep_unfold clampI32_def cdiv_def P_SCALE_def)

lemma cruising_eq:
  "cruising =
     initialGlobals
       \<lparr>bleConnected := True, g_peerMtu := 23, reversePending := False,
        pendingStage := PS_NONE, pendingSuppressKickOnce := False, kickActive := False,
        postKickPending := False, rampKind := MOMENTUM, rampDirection := FWD,
        targetDirection := FWD, targetThrottle := 100, rampStartMs := 0,
        rampDurationMs := 2500, rampStartThrottle := 0, rampTargetThrottle := 100,
        rampActive := False, currentDirection := FWD, appliedThrottle := 100,
        driverEnabled := True, ledcDutyR := 1023, ledcDutyL := 0\<rparr>"
  by (simp add: cruising_def boot_eq onWrite_FQ [of "''100''", simplified] str_defs eval_defs
      num_defs ease_0_100_done)

lemma reversal_on_link_loss_eq:
  "reversal_on_link_loss =
     initialGlobals
       \<lparr>pendingSuppressKickOnce := False, pendingFinalTargetThrottle := 30,
        pendingFinalDirection := REV, pendingFinalIsInstant := False,
        pendingFinalIsMomentum := True, reversePending := True, pendingStage := PS_NONE,
        pendingFullAccelMs := 20000, pendingFullDecelMs := 20000, kickActive := False,
        postKickPending := False, rampKind := MOMENTUM, rampDirection := FWD,
        targetDirection := STOP, targetThrottle := 0, rampActive := True,
        rampStartMs := 3000, rampDurationMs := 20000, rampStartThrottle := 100,
        rampTargetThrottle := 0, bleConnected := False, g_peerMtu := 23,
        graceActive := True, disconnectMs := 4000, currentDirection := FWD,
        appliedThrottle := 16, driverEnabled := True, ledcDutyR := 163,
        ledcDutyL := 0\<rparr>"
  by (simp add: reversal_on_link_loss_def cruising_eq onWrite_R [of "''30''", simplified]
      str_defs eval_defs num_defs ease_100_0_three_quarters)

lemma latched_reversing_eq:
  "latched_reversing =
     initialGlobals
       \<lparr>pendingSuppressKickOnce := False, pendingFinalTargetThrottle := 30,
        pendingFinalDirection := REV, pendingFinalIsInstant := False,
        pendingFinalIsMomentum := True, reversePending := True, pendingStage := PS_NONE,
        pendingFullAccelMs := 20000, pendingFullDecelMs := 20000, bleConnected := False,
        g_peerMtu := 23, disconnectMs := 4000, graceActive := False,
        forcedStopLatched := True, kickActive := False, postKickPending := False,
        rampKind := QUICKSTOP, rampDirection := FWD, targetDirection := STOP,
        targetThrottle := 0, rampActive := True, rampStartMs := 19000,
        rampDurationMs := 480, rampStartThrottle := 16, rampTargetThrottle := 0,
        currentDirection := FWD, appliedThrottle := 16, driverEnabled := True,
        ledcDutyR := 163, ledcDutyL := 0\<rparr>"
  by (simp add: latched_reversing_def reversal_on_link_loss_eq eval_defs num_defs
      ease_16_0_start)

lemma stopped_while_latched_eq:
  "stopped_while_latched =
     initialGlobals
       \<lparr>pendingSuppressKickOnce := False, pendingFinalTargetThrottle := 30,
        pendingFinalDirection := REV, pendingFinalIsInstant := False,
        pendingFinalIsMomentum := True, reversePending := True,
        pendingFullAccelMs := 20000, pendingFullDecelMs := 20000, bleConnected := False,
        g_peerMtu := 23, disconnectMs := 4000, graceActive := False,
        forcedStopLatched := True, kickActive := False, postKickPending := False,
        rampKind := QUICKSTOP, rampDirection := FWD, targetDirection := STOP,
        targetThrottle := 0, rampStartMs := 19000, rampDurationMs := 480,
        rampStartThrottle := 16, rampTargetThrottle := 0, rampActive := False,
        appliedThrottle := 0, pendingStage := WAIT_DIR_DELAY, pendingStageUntilMs := 21480,
        pendingSkipDirDelay := False, currentDirection := STOP, ledcDutyR := 0,
        ledcDutyL := 0, driverEnabled := False\<rparr>"
  by (simp add: stopped_while_latched_def latched_reversing_eq eval_defs num_defs
      ease_16_0_half ease_16_0_done)

lemma resumed_while_latched_eq:
  "resumed_while_latched =
     initialGlobals
       \<lparr>pendingFinalTargetThrottle := 30, pendingFinalDirection := REV,
        pendingFinalIsInstant := False, pendingFinalIsMomentum := True,
        pendingFullAccelMs := 20000, pendingFullDecelMs := 20000, bleConnected := False,
        g_peerMtu := 23, disconnectMs := 4000, graceActive := False,
        forcedStopLatched := True, pendingStageUntilMs := 21480,
        pendingSkipDirDelay := False, pendingStage := PS_NONE,
        pendingSuppressKickOnce := False, reversePending := False, kickActive := False,
        postKickPending := False, rampKind := MOMENTUM, rampDirection := REV,
        targetDirection := REV, targetThrottle := 30, rampStartMs := 21480,
        rampDurationMs := 6000, rampStartThrottle := 0, rampTargetThrottle := 30,
        rampActive := False, currentDirection := REV, appliedThrottle := 30,
        driverEnabled := True, ledcDutyR := 0, ledcDutyL := 306\<rparr>"
  by (simp add: resumed_while_latched_def stopped_while_latched_eq eval_defs num_defs
      ease_0_30_half ease_0_30_done)

lemma ease_100_0_start: "smoothstepEasedThrottle 100 0 0 80 = 100"
  by (simp add: smoothstep_unfold clampI32_def cdiv_def P_SCALE_def)

lemma strong_kick_configured_eq:
  "snd (onWrite ''K100,200'' 500 (onConnect 23 boot)) =
     initialGlobals
       \<lparr>bleConnected := True, g_peerMtu := 23, cfgKickThrottle := 100,
        cfgKickMs := 200, cfgKickRampDownMs := 80, cfgKickMaxApply := 15\<rparr>"
  by (simp add: boot_eq onWrite_K2 [of "''100''" "''200''", simplified] str_defs
      onConnect_def clampI32_def)

lemma strong_kick_recovering_eq:
  "strong_kick_recovering =
     initialGlobals
       \<lparr>bleConnected := True, g_peerMtu := 23, cfgKickThrottle := 100,
        cfgKickMs := 200, cfgKickRampDownMs := 80, cfgKickMaxApply := 15,
        kickDirection := FWD, kickHoldThrottle := 100, kickEndMs := 1200,
        postKickDir := FWD, postKickFinalThr := 10, postKickIsInstant := False,
        postKickIsMomentum := True, postKickFullAccelMs := 20000,
        postKickFullDecelMs := 20000, pendingFinalDirection := FWD,
        pendingFinalTargetThrottle := 10, pendingFinalIsInstant := False,
        pendingFinalIsMomentum := True, pendingFullAccelMs := 20000,
        pendingFullDecelMs := 20000, pendingSkipDirDelay := True, reversePending := True,
        pendingStage := PS_NONE, pendingSuppressKickOnce := True, kickActive := False,
        postKickPending := False, rampKind := QUICKSTOP, rampDirection := FWD,
        targetDirection := STOP, targetThrottle := 0, rampActive := True,
        rampStartMs := 1200, rampDurationMs := 80, rampStartThrottle := 100,
        rampTargetThrottle := 0, currentDirection := FWD, appliedThrottle := 100,
        driverEnabled := True, ledcDutyR := 1023, ledcDutyL := 0\<rparr>"
  by (simp only: strong_kick_recovering_def run_Cons run_Nil step.simps
      strong_kick_configured_eq) (simp add: onWrite_F [of "''10''", simplified] str_defs
      eval_defs num_defs ease_100_0_start)

lemma strong_kick_reversal_eq:
  "strong_kick_reversal =
     initialGlobals
       \<lparr>cfgKickThrottle := 100, cfgKickMs := 200, cfgKickRampDownMs := 80,
        cfgKickMaxApply := 15, kickDirection := FWD, kickHoldThrottle := 100,
        kickEndMs := 1200, postKickDir := FWD, postKickFinalThr := 10,
        postKickIsInstant := False, postKickIsMomentum := True,
        postKickFullAccelMs := 20000, postKickFullDecelMs := 20000,
        pendingSkipDirDelay := True, pendingSuppressKickOnce := False,
        pendingFinalTargetThrottle := 10, pendingFinalDirection := REV,
        pendingFinalIsInstant := False, pendingFinalIsMomentum := True,
        reversePending := True, pendingStage := PS_NONE, pendingFullAccelMs := 20000,
        pendingFullDecelMs := 20000, kickActive := False, postKickPending := False,
        rampKind := MOMENTUM, rampDirection := FWD, targetDirection := STOP,
        targetThrottle := 0, rampActive := True, rampStartMs := 1210,
        rampDurationMs := 20000, rampStartThrottle := 100, rampTargetThrottle := 0,
        bleConnected := False, g_peerMtu := 23, graceActive := True, disconnectMs := 2000,
        currentDirection := FWD, appliedThrottle := 16, driverEnabled := True,
        ledcDutyR := 163, ledcDutyL := 0\<rparr>"
  by (simp add: strong_kick_reversal_def strong_kick_recovering_eq onWrite_R [of "''10''",
      simplified] str_defs eval_defs num_defs ease_100_0_three_quarters)

lemma latched_in_reversal_eq:
  "latched_in_reversal =
     initialGlobals
       \<lparr>cfgKickThrottle := 100, cfgKickMs := 200, cfgKickRampDownMs := 80,
        cfgKickMaxApply := 15, kickDirection := FWD, kickHoldThrottle := 100,
        kickEndMs := 1200, postKickDir := FWD, postKickFinalThr := 10,
        postKickIsInstant := False, postKickIsMomentum := True,
        postKickFullAccelMs := 20000, postKickFullDecelMs := 20000,
        pendingSkipDirDelay := True, pendingSuppressKickOnce := False,
        pendingFinalTargetThrottle := 10, pendingFinalDirection := REV,
        pendingFinalIsInstant := False, pendingFinalIsMomentum := True,
        reversePending := True, pendingStage := PS_NONE, pendingFullAccelMs := 20000,
        pendingFullDecelMs := 20000, bleConnected := False, g_peerMtu := 23,
        disconnectMs := 2000, graceActive := False, forcedStopLatched := True,
        kickActive := False, postKickPending := False, rampKind := QUICKSTOP,
        rampDirection := FWD, targetDirection := STOP, targetThrottle := 0,
        rampActive := True, rampStartMs := 17000, rampDurationMs := 480,
        rampStartThrottle := 16, rampTargetThrottle := 0, currentDirection := FWD,
        appliedThrottle := 16, driverEnabled := True, ledcDutyR := 163,
        ledcDutyL := 0\<rparr>"
  by (simp add: latched_in_reversal_def strong_kick_reversal_eq eval_defs num_defs
      ease_16_0_start)

lemma reversed_while_latched_eq:
  "reversed_while_latched =
     initialGlobals
       \<lparr>cfgKickThrottle := 100, cfgKickMs := 200, cfgKickRampDownMs := 80,
        cfgKickMaxApply := 15, pendingFinalTargetThrottle := 10,
        pendingFinalDirection := REV, pendingFinalIsInstant := False,
        pendingFinalIsMomentum := True, reversePending := True,
        pendingFullAccelMs := 20000, pendingFullDecelMs := 20000, bleConnected := False,
        g_peerMtu := 23, disconnectMs := 2000, graceActive := False,
        forcedStopLatched := True, rampKind := QUICKSTOP, rampDirection := FWD,
        rampStartMs := 17000, rampDurationMs := 480, rampStartThrottle := 16,
        rampTargetThrottle := 0, rampActive := False, pendingStageUntilMs := 17480,
        pendingSkipDirDelay := False, pendingStage := PS_NONE,
        pendingSuppressKickOnce := False, kickActive := True, kickDirection := REV,
        kickHoldThrottle := 100, kickEndMs := 17680, currentDirection := REV,
        appliedThrottle := 100, driverEnabled := True, ledcDutyR := 0, ledcDutyL := 1023,
        postKickPending := True, postKickDir := REV, postKickFinalThr := 10,
        postKickIsInstant := False, postKickIsMomentum := True,
        postKickFullAccelMs := 20000, postKickFullDecelMs := 20000, targetDirection := REV,
        targetThrottle := 10\<rparr>"
  by (simp add: reversed_while_latched_def latched_in_reversal_eq eval_defs num_defs
      ease_16_0_done)

section \<open>Ramp start and pending reverse (C8)\<close>

text \<open>
  Claim C8. Every call to \<open>startRamp\<close> clears the active kick and the stored post-kick
  continuation and replaces any active ramp (a ramp that is active afterwards is the one just
  requested), while the pending-reverse flag and its staged final direction and throttle are
  left as they were; \<open>executeStopRamp\<close> and every step of \<open>processRamp\<close> leave them alone as
  well, so a pending reverse survives a whole stop ramp.
\<close>

theorem startRamp_keeps_pending_reverse:
  "(let s' = startRamp dir a b d k now s
    in \<not> kickActive s' \<and> \<not> postKickPending s' \<and>
       (rampActive s' \<longrightarrow>
          rampStartMs s' = now \<and> rampDurationMs s' = d \<and>
          rampStartThrottle s' = clampI32 a 0 100 \<and>
          rampTargetThrottle s' = clampI32 b 0 100 \<and>
          rampKind s' = k \<and> rampDirection s' = dir) \<and>
       reversePending s' = reversePending s \<and>
       pendingFinalDirection s' = pendingFinalDirection s \<and>
       pendingFinalTargetThrottle s' = pendingFinalTargetThrottle s) \<and>
   (let s' = executeStopRamp k now s
    in reversePending s' = reversePending s \<and>
       pendingFinalDirection s' = pendingFinalDirection s \<and>
       pendingFinalTargetThrottle s' = pendingFinalTargetThrottle s) \<and>
   (let s' = processRamp now s
    in reversePending s' = reversePending s \<and>
       pendingFinalDirection s' = pendingFinalDirection s \<and>
       pendingFinalTargetThrottle s' = pendingFinalTargetThrottle s)"
proof -
  have 1: "reversePending (processRamp now s) = reversePending s"
    and 2: "pendingFinalDirection (processRamp now s) = pendingFinalDirection s"
    and 3: "pendingFinalTargetThrottle (processRamp now s) = pendingFinalTargetThrottle s"
    by (simp_all add: processRamp_def prim_nf Let_def)
  show ?thesis
    by (simp add: 1 2 3 startRamp_nf executeStopRamp_def prim_nf Let_def)
qed

theorem startRamp_keeps_pending_reverse_witness:
  "rampActive (startRamp FWD 50 0 1500 QUICKSTOP 17000
     (initialGlobals\<lparr>reversePending := True, pendingFinalDirection := REV,
        pendingFinalTargetThrottle := 30\<rparr>)) \<and>
   rampStartMs (startRamp FWD 50 0 1500 QUICKSTOP 17000
     (initialGlobals\<lparr>reversePending := True, pendingFinalDirection := REV,
        pendingFinalTargetThrottle := 30\<rparr>)) = 17000 \<and>
   reversePending (startRamp FWD 50 0 1500 QUICKSTOP 17000
     (initialGlobals\<lparr>reversePending := True, pendingFinalDirection := REV,
        pendingFinalTargetThrottle := 30\<rparr>))"
  using startRamp_keeps_pending_reverse [of FWD 50 0 1500 QUICKSTOP 17000
      "initialGlobals\<lparr>reversePending := True, pendingFinalDirection := REV,
         pendingFinalTargetThrottle := 30\<rparr>"]
  by (simp add: Let_def startRamp_nf clampI32_def)

section \<open>The easing curve (C9)\<close>

text \<open>
  Claim C9 (the code departs from it). The specification clamps the progress
  \<open>elapsed * 1000 / duration\<close> to \<open>[0, 1000]\<close>; the code narrows the 64-bit quotient to
  \<^verbatim>\<open>int32_t\<close> first and clamps afterwards. At \<open>elapsed = 4294968\<close> and \<open>duration = 1\<close> the
  quotient \<open>4294968000\<close> wraps to \<open>704\<close>, and a ramp from 0 to 100 that is long over is
  eased to 78 instead of 100. Where the quotient stays below \<open>2\<^sup>3\<^sup>1\<close> the code and the
  specification agree (\<open>smoothstep_matches_spec\<close>), a zero duration returns the end value, and
  the scaled duration of a non-zero delta is at least 1 ms (\<open>scaledDuration_floor\<close>).
\<close>

theorem smoothstep_progress_wraps:
  "smoothstepEasedThrottle 0 100 4294968 1 = 78 \<and> smoothstep_spec 0 100 4294968 1 = 100"
  by (simp add: smoothstep_unfold smoothstep_spec_def [unfolded Let_def] clampI32_def cdiv_def
      P_SCALE_def)

section \<open>Kick configuration (C10, C5)\<close>

text \<open>
  Claim C10. A valid two-argument kick command \<^verbatim>\<open>K<t>,<ms>\<close> is acknowledged, stores the
  clamped throttle and duration, and also sets the ramp-down time to 80 and the maximum
  apply threshold to 15, whatever those two were before.
\<close>

theorem kick_two_args_resets_defaults:
  "isDigitStr t \<Longrightarrow> isDigitStr ms \<Longrightarrow>
   onWrite (''K'' @ t @ '','' @ ms) now s =
     (Some (ACK (''K'' @ t @ '','' @ ms)),
      s\<lparr>cfgKickThrottle := clampI32 (toInt t) 0 100,
        cfgKickMs := clampI32 (toInt ms) 0 2000,
        cfgKickRampDownMs := 80, cfgKickMaxApply := 15\<rparr>)"
  by (rule onWrite_K2)

lemma onWrite_K4_example:
  "onWrite ''K60,200,100,20'' now s =
     (Some (ACK ''K60,200,100,20''),
      s\<lparr>cfgKickThrottle := 60, cfgKickMs := 200, cfgKickRampDownMs := 100,
        cfgKickMaxApply := 20\<rparr>)"
  by (simp add: onWrite_def [unfolded Let_def] onWriteKick_def [unfolded Let_def] str_defs
      clampI32_def numeral_eq_Suc)

theorem kick_two_args_resets_defaults_witness:
  "isDigitStr ''60'' \<and> isDigitStr ''200'' \<and>
   cfgKickRampDownMs (snd (onWrite ''K60,200,100,20'' 0 boot)) = 100 \<and>
   cfgKickMaxApply (snd (onWrite ''K60,200,100,20'' 0 boot)) = 20 \<and>
   cfgKickRampDownMs
     (snd (onWrite ''K60,200'' 1 (snd (onWrite ''K60,200,100,20'' 0 boot)))) = 80 \<and>
   cfgKickMaxApply
     (snd (onWrite ''K60,200'' 1 (snd (onWrite ''K60,200,100,20'' 0 boot)))) = 15"
  using kick_two_args_resets_defaults
    [of "''60''" "''200''" 1 "snd (onWrite ''K60,200,100,20'' 0 boot)"]
  by (simp add: onWrite_K4_example isDigitStr_def isDigit_def)

lemma onWrite_K4_rejected_example:
  "onWrite ''K60,200,x,20'' now s =
     (Some (ERR ''K60,200,x,20''), s\<lparr>cfgKickThrottle := 60, cfgKickMs := 200\<rparr>)"
  by (simp add: onWrite_def [unfolded Let_def] onWriteKick_def [unfolded Let_def] str_defs
      clampI32_def numeral_eq_Suc)

text \<open>
  Claim C5 (the code departs from it). A four-argument kick command whose first two
  arguments are valid and whose third or fourth is not a digit string is answered with
  \<^verbatim>\<open>ERR\<close>, but the handler has already stored the first two: from the boot configuration
  \<open>(0, 0)\<close> the rejected command \<^verbatim>\<open>K60,200,x,20\<close> leaves kick throttle 60 and duration 200.
\<close>

theorem kick_rejected_after_partial_update:
  "fst (onWrite ''K60,200,x,20'' 0 boot) = Some (ERR ''K60,200,x,20'') \<and>
   cfgKickThrottle boot = 0 \<and> cfgKickMs boot = 0 \<and>
   cfgKickThrottle (snd (onWrite ''K60,200,x,20'' 0 boot)) = 60 \<and>
   cfgKickMs (snd (onWrite ''K60,200,x,20'' 0 boot)) = 200"
  by (simp add: onWrite_K4_rejected_example boot_eq)

section \<open>Forced-stop latch and the stop commands (C4)\<close>

text \<open>
  Claim C4, as stated, fails for the stop commands. In \<open>latched_moving\<close> the latch is set,
  the link is down and the engine still runs at 50 percent; the command \<^verbatim>\<open>S\<close> is then
  executed as \<open>stopMotorNow\<close> (throttle 0 at once, no ramp), where the normal QuickStop
  ramp would have kept the throttle at 50 with a ramp active.
\<close>

theorem stop_while_latched_is_hard_stop:
  "forcedStopLatched latched_moving \<and> \<not> bleConnected latched_moving \<and>
   appliedThrottle latched_moving = 50 \<and>
   snd (onWrite ''S'' 17100 latched_moving) = stopMotorNow latched_moving \<and>
   appliedThrottle (snd (onWrite ''S'' 17100 latched_moving)) = 0 \<and>
   \<not> rampActive (snd (onWrite ''S'' 17100 latched_moving)) \<and>
   rampActive (executeStopRamp QUICKSTOP 17100 latched_moving) \<and>
   appliedThrottle (executeStopRamp QUICKSTOP 17100 latched_moving) = 50 \<and>
   snd (onWrite ''S'' 17100 latched_moving) \<noteq> executeStopRamp QUICKSTOP 17100 latched_moving"
proof -
  have l: "forcedStopLatched latched_moving" "\<not> bleConnected latched_moving"
    "appliedThrottle latched_moving = 50"
    by (simp_all add: latched_moving_eq)
  have w: "snd (onWrite ''S'' 17100 latched_moving) = stopMotorNow latched_moving"
    using l by (simp add: onWrite_S)
  have h: "appliedThrottle (stopMotorNow latched_moving) = 0"
    "\<not> rampActive (stopMotorNow latched_moving)"
    by (simp_all add: stopMotorNow_def prim_nf Let_def)
  have r: "rampActive (executeStopRamp QUICKSTOP 17100 latched_moving)"
    "appliedThrottle (executeStopRamp QUICKSTOP 17100 latched_moving) = 50"
    by (simp_all add: latched_moving_eq eval_defs num_defs)
  from h(2) r(1) have "stopMotorNow latched_moving \<noteq> executeStopRamp QUICKSTOP 17100 latched_moving"
    by metis
  with l w h r show ?thesis by simp
qed

text \<open>
  Claim C4, amended. While the latch is set and the link is down, every motion command
  (\<^verbatim>\<open>F\<close>, \<^verbatim>\<open>R\<close>, \<^verbatim>\<open>FQ\<close>, \<^verbatim>\<open>RQ\<close> with a digit argument) is answered through \<^verbatim>\<open>sendACK\<close> and
  executed as \<open>stopMotorNow\<close>, and so are \<^verbatim>\<open>S\<close> and \<^verbatim>\<open>B\<close>; in every other state \<^verbatim>\<open>S\<close> and \<^verbatim>\<open>B\<close>
  run the QuickStop and the Brake stop ramp and a motion command clears the latch and is
  executed. Nothing of an answer is transmitted while the link is down, and \<open>stopMotorNow\<close>
  leaves throttle 0 with no ramp, kick or pending reverse.
\<close>

theorem latched_commands_become_hard_stop:
  assumes "isDigitStr n"
  shows
   "onWrite (''F'' @ n) now s =
      (Some (ACK (''F'' @ n)),
       if forcedStopLatched s \<and> \<not> bleConnected s then stopMotorNow s
       else executeMomentum FWD (clampI32 (toInt n) 0 100) now
              (if forcedStopLatched s \<and> bleConnected s
               then s\<lparr>forcedStopLatched := False\<rparr> else s)) \<and>
    onWrite (''R'' @ n) now s =
      (Some (ACK (''R'' @ n)),
       if forcedStopLatched s \<and> \<not> bleConnected s then stopMotorNow s
       else executeMomentum REV (clampI32 (toInt n) 0 100) now
              (if forcedStopLatched s \<and> bleConnected s
               then s\<lparr>forcedStopLatched := False\<rparr> else s)) \<and>
    onWrite (''FQ'' @ n) now s =
      (Some (ACK (''FQ'' @ n)),
       if forcedStopLatched s \<and> \<not> bleConnected s then stopMotorNow s
       else executeQuickRamp FWD (clampI32 (toInt n) 0 100) now
              (if forcedStopLatched s \<and> bleConnected s
               then s\<lparr>forcedStopLatched := False\<rparr> else s)) \<and>
    onWrite (''RQ'' @ n) now s =
      (Some (ACK (''RQ'' @ n)),
       if forcedStopLatched s \<and> \<not> bleConnected s then stopMotorNow s
       else executeQuickRamp REV (clampI32 (toInt n) 0 100) now
              (if forcedStopLatched s \<and> bleConnected s
               then s\<lparr>forcedStopLatched := False\<rparr> else s)) \<and>
    onWrite ''S'' now s =
      (Some (ACK ''S''),
       if forcedStopLatched s \<and> \<not> bleConnected s then stopMotorNow s
       else executeStopRamp QUICKSTOP now s) \<and>
    onWrite ''B'' now s =
      (Some (ACK ''B''),
       if forcedStopLatched s \<and> \<not> bleConnected s then stopMotorNow s
       else executeStopRamp BRAKE now s) \<and>
    (\<not> bleConnected s \<longrightarrow> transmitted r s = []) \<and>
    appliedThrottle (stopMotorNow s) = 0 \<and> currentDirection (stopMotorNow s) = STOP \<and>
    \<not> rampActive (stopMotorNow s) \<and> \<not> kickActive (stopMotorNow s) \<and>
    \<not> reversePending (stopMotorNow s)"
proof -
  have t: "\<not> bleConnected s \<longrightarrow> transmitted r s = []"
    by (cases r) (simp_all add: transmitted_def bleNotifyChunked_def)
  have h: "appliedThrottle (stopMotorNow s) = 0" "currentDirection (stopMotorNow s) = STOP"
    "\<not> rampActive (stopMotorNow s)" "\<not> kickActive (stopMotorNow s)"
    "\<not> reversePending (stopMotorNow s)"
    by (simp_all add: stopMotorNow_def prim_nf Let_def)
  show ?thesis
    using t h onWrite_F [OF assms, of now s] onWrite_R [OF assms, of now s]
      onWrite_FQ [OF assms, of now s] onWrite_RQ [OF assms, of now s]
    by (simp add: onWrite_S onWrite_B)
qed

theorem latched_commands_become_hard_stop_witness:
  "isDigitStr ''30'' \<and> forcedStopLatched latched_moving \<and> \<not> bleConnected latched_moving \<and>
   onWrite ''F30'' 17100 latched_moving = (Some (ACK ''F30''), stopMotorNow latched_moving) \<and>
   onWrite ''B'' 17100 latched_moving = (Some (ACK ''B''), stopMotorNow latched_moving) \<and>
   transmitted (ACK ''F30'') latched_moving = []"
  using latched_commands_become_hard_stop [of "''30''" 17100 latched_moving "ACK ''F30''"]
  by (simp add: latched_moving_eq isDigitStr_def isDigit_def)

section \<open>Applied throttle and direction (C2)\<close>

lemma ramp_started_eq:
  "ramp_started =
     initialGlobals
       \<lparr>bleConnected := True, targetDirection := FWD, targetThrottle := 40,
        currentDirection := FWD, rampKind := MOMENTUM, rampDirection := FWD,
        rampActive := True, rampStartMs := 1000, rampDurationMs := 8000,
        rampTargetThrottle := 40\<rparr>"
  by (simp add: ramp_started_def run_def boot_eq onWrite_F [of "''40''", simplified]
      str_defs eval_defs num_defs)

text \<open>
  Claim C2, as stated, fails in one direction. Right after \<^verbatim>\<open>F40\<close> is accepted from rest the
  ramp is armed: the current direction is already forward while the applied throttle is
  still 0.
\<close>

theorem direction_set_before_throttle:
  "\<not> (currentDirection ramp_started = STOP \<longleftrightarrow> appliedThrottle ramp_started = 0)"
  by (simp add: ramp_started_eq)

text \<open>
  Claim C2, amended. In every execution from boot, after any sequence of commands, link
  notifications and tick sub-steps, the applied throttle is within \<open>[0, 100]\<close>, and whenever
  the current direction is Stop the applied throttle is 0 (a non-zero throttle always has a
  driving direction). The converse is not promised: a ramp armed from rest has a direction
  before it has throttle.
\<close>

theorem applied_throttle_invariant:
  "0 \<le> appliedThrottle (run evs boot) \<and> appliedThrottle (run evs boot) \<le> 100 \<and>
   (currentDirection (run evs boot) = STOP \<longrightarrow> appliedThrottle (run evs boot) = 0)"
proof -
  have "wellformed (run evs boot)"
    by (rule wellformed_run [OF wellformed_boot])
  then show ?thesis
    by (simp add: wellformed_def) blast
qed

theorem applied_throttle_invariant_witness:
  "currentDirection (run [Connect 23, Write ''F40'' 1000, Write ''S'' 1001] boot) = STOP \<and>
   appliedThrottle (run [Connect 23, Write ''F40'' 1000, Write ''S'' 1001] boot) = 0"
proof -
  have "currentDirection (run [Connect 23, Write ''F40'' 1000, Write ''S'' 1001] boot) = STOP"
    by (simp add: run_def boot_eq onWrite_F [of "''40''", simplified] onWrite_S
        str_defs eval_defs num_defs)
  then show ?thesis
    using applied_throttle_invariant [of "[Connect 23, Write ''F40'' 1000, Write ''S'' 1001]"]
    by simp
qed

section \<open>Start assist (C6, C7)\<close>

text \<open>
  Claim C6. A ramped motion command issued at full stop in a reachable state, whose
  effective target \<open>eff\<close> (after the MinStart floor) satisfies \<open>0 < eff \<le> kickMaxApply\<close> while
  kick throttle and kick duration are both positive, at once applies the kick level \<open>lv\<close>,
  which is \<open>max kickThrottle minStart\<close> clamped to \<open>[0, 100]\<close>, in the commanded direction,
  with the kick deadline \<open>kickDurationMs\<close> after the command; every tick before the deadline
  (and before a grace expiry) keeps exactly that output. The first tick \<open>te\<close> at or after the
  deadline ends the kick. The throttle then settles at \<open>eff\<close>: after the recovery (ticks \<open>rs\<close>
  of the ramp-down time \<open>rd\<close> and the tick \<open>tc\<close> that ends it, or nothing when \<open>rd\<close> is zero)
  the throttle is 0 and a ramp from 0 to \<open>eff\<close> runs; after each tick \<open>tu\<close> of that ramp the
  throttle is the eased value for the elapsed time, the first tick \<open>tf\<close> at or after its end
  leaves the throttle at \<open>eff\<close> in the commanded direction, and every later tick before a
  grace expiry keeps it there.

  A command from full stop in a reachable state whose effective target \<open>eff'\<close> exceeds
  \<open>kickMaxApply\<close> applies nothing at once and starts no kick: it starts the plain ramp from 0
  to \<open>eff'\<close>, the throttle after each tick of that ramp is the eased value, the first tick
  at or after its end leaves the throttle at \<open>eff'\<close>, and no tick whatever starts a kick.
\<close>

theorem kick_transient_on_start:
  fixes s s' :: firmware and A D now te tc ts tu tf rd A' D' now' tu' tf' :: u32
    and k k' :: RampKind
  assumes reach: "s = run evs boot"
    and z: "appliedThrottle s = 0" "currentDirection s = STOP"
    and d: "dir \<noteq> STOP"
    and ed: "eff = effectiveStartTargetThrottle (clampI32 n 0 100) True s"
    and e: "0 < eff" "eff \<le> cfgKickMaxApply s"
    and kc: "0 < cfgKickThrottle s" "0 < cfgKickMs s"
    and lvd: "lv = clampI32 (max (cfgKickThrottle s) (cfgMinStart s)) 0 100"
    and rdd: "rd = word_of_int (cfgKickRampDownMs s)"
    and hold: "\<forall>t\<in>set hs. sint (t - (now + word_of_int (cfgKickMs s))) < 0 \<and>
                 \<not> (graceActive s \<and> BLE_GRACE_MS \<le> t - disconnectMs s)"
    and expiry: "\<not> sint (te - (now + word_of_int (cfgKickMs s))) < 0"
      "\<not> (graceActive s \<and> BLE_GRACE_MS \<le> te - disconnectMs s)"
    and rec: "\<forall>t\<in>set rs. \<not> rd \<le> t - te \<and>
                 \<not> (graceActive s \<and> BLE_GRACE_MS \<le> t - disconnectMs s)"
    and fin: "rd \<le> tc - te" "\<not> (graceActive s \<and> BLE_GRACE_MS \<le> tc - disconnectMs s)"
    and tsd: "ts = (if rd = 0 then te else tc)"
    and up: "\<forall>t\<in>set us. \<not> scaledDurationMs A eff \<le> t - ts \<and>
                 \<not> (graceActive s \<and> BLE_GRACE_MS \<le> t - disconnectMs s)"
    and upt: "\<not> scaledDurationMs A eff \<le> tu - ts"
      "\<not> (graceActive s \<and> BLE_GRACE_MS \<le> tu - disconnectMs s)"
    and fe: "scaledDurationMs A eff \<le> tf - ts"
      "\<not> (graceActive s \<and> BLE_GRACE_MS \<le> tf - disconnectMs s)"
    and idle: "\<forall>t\<in>set vs. \<not> (graceActive s \<and> BLE_GRACE_MS \<le> t - disconnectMs s)"
    and reach': "s' = run evs' boot"
    and z': "appliedThrottle s' = 0" "currentDirection s' = STOP"
    and d': "dir' \<noteq> STOP"
    and ed': "eff' = effectiveStartTargetThrottle (clampI32 n' 0 100) True s'"
    and e': "cfgKickMaxApply s' < eff'"
    and up': "\<forall>t\<in>set us'. \<not> scaledDurationMs A' eff' \<le> t - now' \<and>
                 \<not> (graceActive s' \<and> BLE_GRACE_MS \<le> t - disconnectMs s')"
    and upt': "\<not> scaledDurationMs A' eff' \<le> tu' - now'"
      "\<not> (graceActive s' \<and> BLE_GRACE_MS \<le> tu' - disconnectMs s')"
    and fe': "scaledDurationMs A' eff' \<le> tf' - now'"
      "\<not> (graceActive s' \<and> BLE_GRACE_MS \<le> tf' - disconnectMs s')"
  shows
    "(let x = ticks hs (executeRampedMove dir n A D k now s);
          s2 = loop te x;
          s3 = (if rd = 0 then s2 else loop tc (ticks rs s2));
          s4 = loop tf (ticks us s3)
      in appliedThrottle (executeRampedMove dir n A D k now s) = lv \<and>
         0 < lv \<and> appliedThrottle x = lv \<and> currentDirection x = dir \<and> kickActive x \<and>
         kickEndMs x = now + word_of_int (cfgKickMs s) \<and>
         \<not> kickActive s2 \<and>
         rampActive s3 \<and> rampStartThrottle s3 = 0 \<and> rampTargetThrottle s3 = eff \<and>
         rampDirection s3 = dir \<and> appliedThrottle s3 = 0 \<and> \<not> kickActive s3 \<and>
         appliedThrottle (loop tu (ticks us s3)) =
           smoothstep_spec 0 eff (unat (tu - ts)) (unat (scaledDurationMs A eff)) \<and>
         appliedThrottle s4 = eff \<and> currentDirection s4 = dir \<and>
         \<not> rampActive s4 \<and> \<not> kickActive s4 \<and>
         appliedThrottle (ticks vs s4) = eff \<and> currentDirection (ticks vs s4) = dir \<and>
         \<not> rampActive (ticks vs s4) \<and> \<not> kickActive (ticks vs s4)) \<and>
     (let x' = executeRampedMove dir' n' A' D' k' now' s'
      in appliedThrottle x' = 0 \<and> \<not> kickActive x' \<and>
         rampActive x' \<and> rampStartThrottle x' = 0 \<and> rampTargetThrottle x' = eff' \<and>
         rampStartMs x' = now' \<and> rampDurationMs x' = scaledDurationMs A' eff' \<and>
         appliedThrottle (loop tu' (ticks us' x')) =
           smoothstep_spec 0 eff' (unat (tu' - now')) (unat (scaledDurationMs A' eff')) \<and>
         appliedThrottle (loop tf' (ticks us' x')) = eff' \<and>
         currentDirection (loop tf' (ticks us' x')) = dir' \<and>
         \<not> kickActive (loop tf' (ticks us' x')) \<and>
         \<not> kickActive (ticks ts' x'))"
proof -
  define s1 where "s1 = executeRampedMove dir n A D k now s"
  define s2 where "s2 = loop te (ticks hs s1)"
  define s3 where "s3 = (if rd = 0 then s2 else loop tc (ticks rs s2))"
  define x' where "x' = executeRampedMove dir' n' A' D' k' now' s'"
  have w: "wellformed s"
    unfolding reach by (rule wellformed_run [OF wellformed_boot])
  have w': "wellformed s'"
    unfolding reach' by (rule wellformed_run [OF wellformed_boot])
  have q: "shouldKickOnStart True eff s"
    using e kc by (simp add: shouldKickOnStart_def)
  note kh = kick_course(1-5) [OF w z d ed q rdd hold expiry rec fin,
      where A = A and D = D and k = k, folded s1_def, folded lvd]
  note kr = kick_course(10,11) [OF w z d ed q rdd hold expiry rec fin,
      where A = A and D = D and k = k, folded s1_def, folded s2_def, folded s3_def lvd]
  note er = kick_course(6-9) [OF w z d ed q rdd hold expiry rec fin, folded lvd]
  note m = kr(2)
  have h: "appliedThrottle s1 = lv \<and> 0 < lv \<and> appliedThrottle (ticks hs s1) = lv \<and>
      currentDirection (ticks hs s1) = dir \<and> kickActive (ticks hs s1) \<and>
      kickEndMs (ticks hs s1) = now + word_of_int (cfgKickMs s)"
    using er by (simp add: kh)
  have k2: "\<not> kickActive s2"
  proof (cases "rd = 0")
    case True
    then show ?thesis using m by (simp add: s3_def)
  next
    case False
    then show ?thesis using kr(1) by simp
  qed
  have x: "rampActive s3" "\<not> kickActive s3" "\<not> reversePending s3"
    "pendingStage s3 \<noteq> WAIT_DIR_DELAY" "0 < rampTargetThrottle s3"
    "rampTargetThrottle s3 \<le> 100"
    using er by (simp_all add: m)
  have up3: "\<forall>t\<in>set us. \<not> rampDurationMs s3 \<le> t - rampStartMs s3 \<and>
               \<not> (graceActive s3 \<and> BLE_GRACE_MS \<le> t - disconnectMs s3)"
    using up by (simp add: m tsd)
  have upg: "\<forall>t\<in>set us. \<not> (graceActive s3 \<and> BLE_GRACE_MS \<le> t - disconnectMs s3)"
    and upr: "\<forall>t\<in>set us. \<not> rampDurationMs s3 \<le> t - rampStartMs s3"
    using up3 by simp_all
  have tu3: "\<not> (graceActive s3 \<and> BLE_GRACE_MS \<le> tu - disconnectMs s3)"
    "\<not> rampDurationMs s3 \<le> tu - rampStartMs s3"
    using upt by (simp_all add: m tsd)
  have end3: "rampDurationMs s3 \<le> tf - rampStartMs s3"
    "\<not> (graceActive s3 \<and> BLE_GRACE_MS \<le> tf - disconnectMs s3)"
    using fe by (simp_all add: m tsd)
  have idle3: "\<forall>t\<in>set vs. \<not> (graceActive s3 \<and> BLE_GRACE_MS \<le> t - disconnectMs s3)"
    using idle by (simp add: m)
  have "appliedThrottle (loop tu (ticks us s3)) =
      smoothstep_spec (rampStartThrottle s3) (rampTargetThrottle s3)
        (unat (tu - rampStartMs s3)) (unat (rampDurationMs s3))"
    using x(1) x(2) x(4) upg upr tu3
    by (rule ticks_ramp_value) (simp_all add: x less_imp_le [OF x(5)])
  then have course: "appliedThrottle (loop tu (ticks us s3)) =
      smoothstep_spec 0 eff (unat (tu - ts)) (unat (scaledDurationMs A eff))"
    using m by (simp add: tsd)
  note c = ramp_up_course [OF x(1) x(2) x(3) x(4) x(5) x(6) up3 end3 idle3]
  have arm: "rampActive s3 \<and> rampStartThrottle s3 = 0 \<and> rampTargetThrottle s3 = eff \<and>
      rampDirection s3 = dir \<and> appliedThrottle s3 = 0 \<and> \<not> kickActive s3"
    by (simp add: m)
  have settle: "appliedThrottle (loop tf (ticks us s3)) = eff \<and>
      currentDirection (loop tf (ticks us s3)) = dir \<and>
      \<not> rampActive (loop tf (ticks us s3)) \<and> \<not> kickActive (loop tf (ticks us s3)) \<and>
      appliedThrottle (ticks vs (loop tf (ticks us s3))) = eff \<and>
      currentDirection (ticks vs (loop tf (ticks us s3))) = dir \<and>
      \<not> rampActive (ticks vs (loop tf (ticks us s3))) \<and>
      \<not> kickActive (ticks vs (loop tf (ticks us s3)))"
    by (simp add: c m)
  note n = no_kick_ramp_start(1) [OF w' z' d' ed' e', where A = A' and D = D' and k = k'
      and now = now', folded x'_def]
  note ns = no_kick_ramp_start(2,3) [OF w' z' d' ed' e']
  have y: "rampActive x'" "\<not> kickActive x'" "\<not> reversePending x'"
    "pendingStage x' \<noteq> WAIT_DIR_DELAY" "0 < rampTargetThrottle x'"
    "rampTargetThrottle x' \<le> 100"
    using ns by (simp_all add: n)
  have upx: "\<forall>t\<in>set us'. \<not> rampDurationMs x' \<le> t - rampStartMs x' \<and>
               \<not> (graceActive x' \<and> BLE_GRACE_MS \<le> t - disconnectMs x')"
    using up' by (simp add: n)
  have upgx: "\<forall>t\<in>set us'. \<not> (graceActive x' \<and> BLE_GRACE_MS \<le> t - disconnectMs x')"
    and uprx: "\<forall>t\<in>set us'. \<not> rampDurationMs x' \<le> t - rampStartMs x'"
    using upx by simp_all
  have tux: "\<not> (graceActive x' \<and> BLE_GRACE_MS \<le> tu' - disconnectMs x')"
    "\<not> rampDurationMs x' \<le> tu' - rampStartMs x'"
    using upt' by (simp_all add: n)
  have endx: "rampDurationMs x' \<le> tf' - rampStartMs x'"
    "\<not> (graceActive x' \<and> BLE_GRACE_MS \<le> tf' - disconnectMs x')"
    using fe' by (simp_all add: n)
  have none: "\<forall>t\<in>set []. \<not> (graceActive x' \<and> BLE_GRACE_MS \<le> t - disconnectMs x')"
    by simp
  have "appliedThrottle (loop tu' (ticks us' x')) =
      smoothstep_spec (rampStartThrottle x') (rampTargetThrottle x')
        (unat (tu' - rampStartMs x')) (unat (rampDurationMs x'))"
    using y(1) y(2) y(4) upgx uprx tux
    by (rule ticks_ramp_value) (simp_all add: y less_imp_le [OF y(5)])
  then have course': "appliedThrottle (loop tu' (ticks us' x')) =
      smoothstep_spec 0 eff' (unat (tu' - now')) (unat (scaledDurationMs A' eff'))"
    by (simp add: n)
  note c' = ramp_up_course [OF y(1) y(2) y(3) y(4) y(5) y(6) upx endx none]
  have start': "appliedThrottle x' = 0 \<and> \<not> kickActive x' \<and>
      rampActive x' \<and> rampStartThrottle x' = 0 \<and> rampTargetThrottle x' = eff' \<and>
      rampStartMs x' = now' \<and> rampDurationMs x' = scaledDurationMs A' eff'"
    by (simp add: n)
  have settle': "appliedThrottle (loop tf' (ticks us' x')) = eff' \<and>
      currentDirection (loop tf' (ticks us' x')) = dir' \<and>
      \<not> kickActive (loop tf' (ticks us' x'))"
    by (simp add: c' n)
  have never: "\<not> kickActive (ticks ts' x')"
    using ticks_no_kick [OF y(2) y(3), of ts'] by simp
  show ?thesis
    unfolding Let_def s1_def [symmetric] s2_def [symmetric] s3_def [symmetric]
      x'_def [symmetric]
    using h k2 arm course settle start' course' settle' never by blast
qed

theorem kick_transient_on_start_witness:
  "kick_configured = run [Connect 23, Write ''K60,200'' 500] boot \<and>
   appliedThrottle kick_configured = 0 \<and> currentDirection kick_configured = STOP \<and>
   effectiveStartTargetThrottle (clampI32 10 0 100) True kick_configured = 10 \<and>
   10 \<le> cfgKickMaxApply kick_configured \<and>
   0 < cfgKickThrottle kick_configured \<and> 0 < cfgKickMs kick_configured \<and>
   clampI32 (max (cfgKickThrottle kick_configured) (cfgMinStart kick_configured)) 0 100 = 60 \<and>
   (word_of_int (cfgKickRampDownMs kick_configured) :: u32) = 80 \<and>
   scaledDurationMs 20000 10 = 2000 \<and>
   appliedThrottle (executeRampedMove FWD 10 20000 20000 MOMENTUM 1000 kick_configured) = 60 \<and>
   appliedThrottle
     (ticks [1050, 1199] (executeRampedMove FWD 10 20000 20000 MOMENTUM 1000 kick_configured))
     = 60 \<and>
   \<not> kickActive (loop 1200
     (ticks [1050, 1199] (executeRampedMove FWD 10 20000 20000 MOMENTUM 1000 kick_configured))) \<and>
   appliedThrottle (loop 1280 (ticks [1210, 1230] (loop 1200
     (ticks [1050, 1199]
       (executeRampedMove FWD 10 20000 20000 MOMENTUM 1000 kick_configured))))) = 0 \<and>
   rampTargetThrottle (loop 1280 (ticks [1210, 1230] (loop 1200
     (ticks [1050, 1199]
       (executeRampedMove FWD 10 20000 20000 MOMENTUM 1000 kick_configured))))) = 10 \<and>
   appliedThrottle (loop 2280 (ticks [1500, 2000] (loop 1280 (ticks [1210, 1230] (loop 1200
     (ticks [1050, 1199]
       (executeRampedMove FWD 10 20000 20000 MOMENTUM 1000 kick_configured))))))) = 5 \<and>
   appliedThrottle (loop 3280 (ticks [1500, 2000] (loop 1280 (ticks [1210, 1230] (loop 1200
     (ticks [1050, 1199]
       (executeRampedMove FWD 10 20000 20000 MOMENTUM 1000 kick_configured))))))) = 10 \<and>
   currentDirection (loop 3280 (ticks [1500, 2000] (loop 1280 (ticks [1210, 1230] (loop 1200
     (ticks [1050, 1199]
       (executeRampedMove FWD 10 20000 20000 MOMENTUM 1000 kick_configured))))))) = FWD \<and>
   appliedThrottle (ticks [3300, 5000] (loop 3280 (ticks [1500, 2000] (loop 1280
     (ticks [1210, 1230] (loop 1200 (ticks [1050, 1199]
       (executeRampedMove FWD 10 20000 20000 MOMENTUM 1000 kick_configured)))))))) = 10 \<and>
   effectiveStartTargetThrottle (clampI32 40 0 100) True kick_configured = 40 \<and>
   cfgKickMaxApply kick_configured < 40 \<and>
   scaledDurationMs 20000 40 = 8000 \<and>
   appliedThrottle (executeRampedMove REV 40 20000 20000 MOMENTUM 1000 kick_configured) = 0 \<and>
   \<not> kickActive (executeRampedMove REV 40 20000 20000 MOMENTUM 1000 kick_configured) \<and>
   appliedThrottle (loop 5000 (ticks [1050, 4000]
     (executeRampedMove REV 40 20000 20000 MOMENTUM 1000 kick_configured))) = 20 \<and>
   appliedThrottle (loop 9000 (ticks [1050, 4000]
     (executeRampedMove REV 40 20000 20000 MOMENTUM 1000 kick_configured))) = 40 \<and>
   currentDirection (loop 9000 (ticks [1050, 4000]
     (executeRampedMove REV 40 20000 20000 MOMENTUM 1000 kick_configured))) = REV \<and>
   \<not> kickActive
       (ticks [1050, 9000] (executeRampedMove REV 40 20000 20000 MOMENTUM 1000 kick_configured))"
proof -
  have r: "kick_configured = run [Connect 23, Write ''K60,200'' 500] boot"
    by (simp add: kick_configured_def)
  have z: "appliedThrottle kick_configured = 0" "currentDirection kick_configured = STOP"
    by (simp_all add: kick_configured_eq)
  have d: "FWD \<noteq> STOP" by simp
  have ed: "10 = effectiveStartTargetThrottle (clampI32 10 0 100) True kick_configured"
    by (simp add: kick_configured_eq effectiveStartTargetThrottle_def clampI32_def)
  have e: "0 < (10::int)" "10 \<le> cfgKickMaxApply kick_configured"
    by (simp_all add: kick_configured_eq)
  have kc: "0 < cfgKickThrottle kick_configured" "0 < cfgKickMs kick_configured"
    by (simp_all add: kick_configured_eq)
  have lvd: "60 = clampI32 (max (cfgKickThrottle kick_configured) (cfgMinStart kick_configured))
      0 100"
    by (simp add: kick_configured_eq clampI32_def)
  have rdd: "(80::u32) = word_of_int (cfgKickRampDownMs kick_configured)"
    by (simp add: kick_configured_eq)
  have sd: "scaledDurationMs 20000 10 = 2000" "scaledDurationMs 20000 40 = 8000"
    by (simp_all add: scaled_unfold clampI32_def)
  have hold: "\<forall>t\<in>set [1050, 1199].
      sint (t - (1000 + word_of_int (cfgKickMs kick_configured))) < 0 \<and>
      \<not> (graceActive kick_configured \<and> BLE_GRACE_MS \<le> t - disconnectMs kick_configured)"
    by (simp add: kick_configured_eq)
  have expiry: "\<not> sint (1200 - (1000 + word_of_int (cfgKickMs kick_configured))) < 0"
    "\<not> (graceActive kick_configured \<and> BLE_GRACE_MS \<le> 1200 - disconnectMs kick_configured)"
    by (simp_all add: kick_configured_eq)
  have rec: "\<forall>t\<in>set [1210, 1230]. \<not> (80::u32) \<le> t - 1200 \<and>
      \<not> (graceActive kick_configured \<and> BLE_GRACE_MS \<le> t - disconnectMs kick_configured)"
    by (simp add: kick_configured_eq)
  have fin: "(80::u32) \<le> 1280 - 1200"
    "\<not> (graceActive kick_configured \<and> BLE_GRACE_MS \<le> 1280 - disconnectMs kick_configured)"
    by (simp_all add: kick_configured_eq)
  have tsd: "(1280::u32) = (if (80::u32) = 0 then 1200 else 1280)"
    by simp
  have up: "\<forall>t\<in>set [1500, 2000]. \<not> scaledDurationMs 20000 10 \<le> t - 1280 \<and>
      \<not> (graceActive kick_configured \<and> BLE_GRACE_MS \<le> t - disconnectMs kick_configured)"
    by (simp add: kick_configured_eq sd)
  have upt: "\<not> scaledDurationMs 20000 10 \<le> 2280 - 1280"
    "\<not> (graceActive kick_configured \<and> BLE_GRACE_MS \<le> 2280 - disconnectMs kick_configured)"
    by (simp_all add: kick_configured_eq sd)
  have fe: "scaledDurationMs 20000 10 \<le> 3280 - 1280"
    "\<not> (graceActive kick_configured \<and> BLE_GRACE_MS \<le> 3280 - disconnectMs kick_configured)"
    by (simp_all add: kick_configured_eq sd)
  have idle: "\<forall>t\<in>set [3300, 5000].
      \<not> (graceActive kick_configured \<and> BLE_GRACE_MS \<le> t - disconnectMs kick_configured)"
    by (simp add: kick_configured_eq)
  have d': "REV \<noteq> STOP" by simp
  have ed': "40 = effectiveStartTargetThrottle (clampI32 40 0 100) True kick_configured"
    by (simp add: kick_configured_eq effectiveStartTargetThrottle_def clampI32_def)
  have e': "cfgKickMaxApply kick_configured < 40"
    by (simp add: kick_configured_eq)
  have up': "\<forall>t\<in>set [1050, 4000]. \<not> scaledDurationMs 20000 40 \<le> t - 1000 \<and>
      \<not> (graceActive kick_configured \<and> BLE_GRACE_MS \<le> t - disconnectMs kick_configured)"
    by (simp add: kick_configured_eq sd)
  have upt': "\<not> scaledDurationMs 20000 40 \<le> 5000 - 1000"
    "\<not> (graceActive kick_configured \<and> BLE_GRACE_MS \<le> 5000 - disconnectMs kick_configured)"
    by (simp_all add: kick_configured_eq sd)
  have fe': "scaledDurationMs 20000 40 \<le> 9000 - 1000"
    "\<not> (graceActive kick_configured \<and> BLE_GRACE_MS \<le> 9000 - disconnectMs kick_configured)"
    by (simp_all add: kick_configured_eq sd)
  have v: "smoothstep_spec 0 10 1000 2000 = 5" "smoothstep_spec 0 40 4000 8000 = 20"
    by (simp_all add: smoothstep_spec_def clampI32_def cdiv_def)
  note t = kick_transient_on_start
      [OF r z d ed e kc lvd rdd hold expiry rec fin tsd up upt fe idle
          r z d' ed' e' up' upt' fe',
       where D = 20000 and k = MOMENTUM and ts' = "[1050, 9000]"
        and D' = 20000 and k' = MOMENTUM]
  show ?thesis
    using t r z ed [symmetric] ed' [symmetric] e e' kc lvd [symmetric] rdd [symmetric]
    by (simp add: Let_def sd v)
qed

text \<open>
  Claim C7. Let a ramped command (momentum or quick-ramp: any full-scale constants \<open>A\<close>,
  \<open>D\<close> and stop flavor) start a kick at full stop in a reachable state, with effective target
  \<open>eff\<close> and kick level \<open>lv\<close>. At the first tick \<open>te\<close> at or after the kick deadline the
  recovery goes to 0, not to \<open>eff\<close>. With a non-zero ramp-down time \<open>rd\<close> a QuickStop ramp
  from \<open>lv\<close> to 0 of that duration runs, the throttle after each of its ticks being the
  eased value of the elapsed time, and the continuation is staged as a pending
  momentum-style action of target \<open>eff\<close> and acceleration constant \<open>A\<close>, its direction delay
  suppressed. The final ramp is a Momentum ramp from 0 to \<open>eff\<close> of duration
  \<open>scaledDurationMs A eff\<close>; it starts at \<open>ts\<close>, which is the expiry tick when \<open>rd\<close> is zero
  and else the very tick \<open>tc\<close> that completes the recovery ramp, so no direction-change delay
  is waited. The ramp-up is performed with that pacing: after each tick \<open>tu\<close> before its end
  the throttle is the eased value for the elapsed time \<open>tu - ts\<close> over that duration, and the
  first tick \<open>tf\<close> at or after its end leaves the throttle at \<open>eff\<close> in the commanded direction
  with nothing staged.
\<close>

theorem kick_continuation_is_momentum_paced:
  fixes s :: firmware and A D now te tc tr ts tu tf rd dur :: u32 and k :: RampKind
  assumes reach: "s = run evs boot"
    and z: "appliedThrottle s = 0" "currentDirection s = STOP"
    and d: "dir \<noteq> STOP"
    and ed: "eff = effectiveStartTargetThrottle (clampI32 n 0 100) True s"
    and q: "shouldKickOnStart True eff s"
    and lvd: "lv = clampI32 (max (cfgKickThrottle s) (cfgMinStart s)) 0 100"
    and rdd: "rd = word_of_int (cfgKickRampDownMs s)"
    and durd: "dur = scaledDurationMs A eff"
    and hold: "\<forall>t\<in>set hs. sint (t - (now + word_of_int (cfgKickMs s))) < 0 \<and>
                 \<not> (graceActive s \<and> BLE_GRACE_MS \<le> t - disconnectMs s)"
    and expiry: "\<not> sint (te - (now + word_of_int (cfgKickMs s))) < 0"
      "\<not> (graceActive s \<and> BLE_GRACE_MS \<le> te - disconnectMs s)"
    and rec: "\<forall>t\<in>set rs. \<not> rd \<le> t - te \<and>
                 \<not> (graceActive s \<and> BLE_GRACE_MS \<le> t - disconnectMs s)"
    and fin: "rd \<le> tc - te" "\<not> (graceActive s \<and> BLE_GRACE_MS \<le> tc - disconnectMs s)"
    and tsd: "ts = (if rd = 0 then te else tc)"
    and up: "\<forall>t\<in>set us. \<not> dur \<le> t - ts \<and>
                 \<not> (graceActive s \<and> BLE_GRACE_MS \<le> t - disconnectMs s)"
    and upt: "\<not> dur \<le> tu - ts" "\<not> (graceActive s \<and> BLE_GRACE_MS \<le> tu - disconnectMs s)"
    and fe: "dur \<le> tf - ts" "\<not> (graceActive s \<and> BLE_GRACE_MS \<le> tf - disconnectMs s)"
  shows
    "(let s2 = loop te (ticks hs (executeRampedMove dir n A D k now s));
          s3 = (if rd = 0 then s2 else loop tc (ticks rs s2));
          s4 = loop tf (ticks us s3)
      in (rd \<noteq> 0 \<longrightarrow>
            rampActive s2 \<and> rampKind s2 = QUICKSTOP \<and> rampStartThrottle s2 = lv \<and>
            rampTargetThrottle s2 = 0 \<and> rampStartMs s2 = te \<and> rampDurationMs s2 = rd \<and>
            appliedThrottle s2 = lv \<and>
            reversePending s2 \<and> pendingSkipDirDelay s2 \<and>
            pendingFinalIsMomentum s2 \<and> pendingFinalDirection s2 = dir \<and>
            pendingFinalTargetThrottle s2 = eff \<and> pendingFullAccelMs s2 = A \<and>
            (\<not> rd \<le> tr - te \<and> \<not> (graceActive s \<and> BLE_GRACE_MS \<le> tr - disconnectMs s) \<longrightarrow>
               appliedThrottle (loop tr (ticks rs s2)) =
                 smoothstep_spec lv 0 (unat (tr - te)) (unat rd))) \<and>
         rampActive s3 \<and> rampKind s3 = MOMENTUM \<and> rampDirection s3 = dir \<and>
         rampStartThrottle s3 = 0 \<and> rampTargetThrottle s3 = eff \<and>
         rampDurationMs s3 = dur \<and> rampStartMs s3 = ts \<and>
         appliedThrottle s3 = 0 \<and> \<not> reversePending s3 \<and> \<not> kickActive s3 \<and>
         appliedThrottle (loop tu (ticks us s3)) =
           smoothstep_spec 0 eff (unat (tu - ts)) (unat dur) \<and>
         appliedThrottle s4 = eff \<and> currentDirection s4 = dir \<and>
         \<not> rampActive s4 \<and> \<not> kickActive s4 \<and> \<not> reversePending s4)"
proof -
  define s2 where "s2 = loop te (ticks hs (executeRampedMove dir n A D k now s))"
  define s3 where "s3 = (if rd = 0 then s2 else loop tc (ticks rs s2))"
  have w: "wellformed s"
    unfolding reach by (rule wellformed_run [OF wellformed_boot])
  note kc = kick_course(10,11) [OF w z d ed q rdd hold expiry rec fin,
      where A = A and D = D and k = k, folded s2_def, folded s3_def lvd]
  note er = kick_course(8,9) [OF w z d ed q rdd hold expiry rec fin]
  have first: "rampActive s2 \<and> rampKind s2 = QUICKSTOP \<and> rampStartThrottle s2 = lv \<and>
      rampTargetThrottle s2 = 0 \<and> rampStartMs s2 = te \<and> rampDurationMs s2 = rd \<and>
      appliedThrottle s2 = lv \<and>
      reversePending s2 \<and> pendingSkipDirDelay s2 \<and>
      pendingFinalIsMomentum s2 \<and> pendingFinalDirection s2 = dir \<and>
      pendingFinalTargetThrottle s2 = eff \<and> pendingFullAccelMs s2 = A \<and>
      (\<not> rd \<le> tr - te \<and> \<not> (graceActive s \<and> BLE_GRACE_MS \<le> tr - disconnectMs s) \<longrightarrow>
         appliedThrottle (loop tr (ticks rs s2)) =
           smoothstep_spec lv 0 (unat (tr - te)) (unat rd))"
    if nz: "rd \<noteq> 0"
  proof -
    note m = kc(1) [OF nz]
    have v: "appliedThrottle (loop tr (ticks rs s2)) =
        smoothstep_spec lv 0 (unat (tr - te)) (unat rd)"
      if tr: "\<not> rd \<le> tr - te" "\<not> (graceActive s \<and> BLE_GRACE_MS \<le> tr - disconnectMs s)"
    proof -
      have "appliedThrottle (loop tr (ticks rs s2)) =
          smoothstep_spec (rampStartThrottle s2) (rampTargetThrottle s2)
            (unat (tr - rampStartMs s2)) (unat (rampDurationMs s2))"
        using rec tr by (intro ticks_ramp_value) (simp_all add: m)
      then show ?thesis
        by (simp add: m)
    qed
    show ?thesis
      using m v by simp
  qed
  note m = kc(2)
  have x: "rampActive s3" "\<not> kickActive s3" "\<not> reversePending s3"
    "pendingStage s3 \<noteq> WAIT_DIR_DELAY" "0 < rampTargetThrottle s3"
    "rampTargetThrottle s3 \<le> 100"
    using er by (simp_all add: m)
  have sf: "rampStartMs s3 = ts" "rampDurationMs s3 = dur"
    by (simp_all add: m tsd durd)
  have up3: "\<forall>t\<in>set us. \<not> rampDurationMs s3 \<le> t - rampStartMs s3 \<and>
               \<not> (graceActive s3 \<and> BLE_GRACE_MS \<le> t - disconnectMs s3)"
    using up by (simp add: sf m)
  have upg: "\<forall>t\<in>set us. \<not> (graceActive s3 \<and> BLE_GRACE_MS \<le> t - disconnectMs s3)"
    and upr: "\<forall>t\<in>set us. \<not> rampDurationMs s3 \<le> t - rampStartMs s3"
    using up3 by simp_all
  have tu3: "\<not> (graceActive s3 \<and> BLE_GRACE_MS \<le> tu - disconnectMs s3)"
    "\<not> rampDurationMs s3 \<le> tu - rampStartMs s3"
    using upt by (simp_all add: sf m)
  have end3: "rampDurationMs s3 \<le> tf - rampStartMs s3"
    "\<not> (graceActive s3 \<and> BLE_GRACE_MS \<le> tf - disconnectMs s3)"
    using fe by (simp_all add: sf m)
  have "appliedThrottle (loop tu (ticks us s3)) =
      smoothstep_spec (rampStartThrottle s3) (rampTargetThrottle s3)
        (unat (tu - rampStartMs s3)) (unat (rampDurationMs s3))"
    using x(1) x(2) x(4) upg upr tu3
    by (rule ticks_ramp_value) (simp_all add: x less_imp_le [OF x(5)])
  then have second: "appliedThrottle (loop tu (ticks us s3)) =
      smoothstep_spec 0 eff (unat (tu - ts)) (unat dur)"
    by (simp add: sf m)
  have none: "\<forall>t\<in>set []. \<not> (graceActive s3 \<and> BLE_GRACE_MS \<le> t - disconnectMs s3)"
    by simp
  note c = ramp_up_course [OF x(1) x(2) x(3) x(4) x(5) x(6) up3 end3 none]
  have third: "appliedThrottle (loop tf (ticks us s3)) = eff \<and>
      currentDirection (loop tf (ticks us s3)) = dir \<and>
      \<not> rampActive (loop tf (ticks us s3)) \<and> \<not> kickActive (loop tf (ticks us s3)) \<and>
      \<not> reversePending (loop tf (ticks us s3))"
    by (simp add: c m)
  have arm: "rampActive s3 \<and> rampKind s3 = MOMENTUM \<and> rampDirection s3 = dir \<and>
      rampStartThrottle s3 = 0 \<and> rampTargetThrottle s3 = eff \<and>
      rampDurationMs s3 = dur \<and> rampStartMs s3 = ts \<and>
      appliedThrottle s3 = 0 \<and> \<not> reversePending s3 \<and> \<not> kickActive s3"
    using m by (simp add: tsd durd)
  show ?thesis
    unfolding Let_def s2_def [symmetric] s3_def [symmetric]
    using first arm second third by blast
qed

theorem kick_continuation_is_momentum_paced_witness:
  "kick_configured = run [Connect 23, Write ''K60,200'' 500] boot \<and>
   appliedThrottle kick_configured = 0 \<and> currentDirection kick_configured = STOP \<and>
   effectiveStartTargetThrottle (clampI32 10 0 100) True kick_configured = 10 \<and>
   shouldKickOnStart True 10 kick_configured \<and>
   clampI32 (max (cfgKickThrottle kick_configured) (cfgMinStart kick_configured)) 0 100 = 60 \<and>
   (word_of_int (cfgKickRampDownMs kick_configured) :: u32) = 80 \<and>
   scaledDurationMs 2500 10 = 250 \<and>
   rampKind (loop 1200 (ticks [1050, 1199]
     (executeRampedMove FWD 10 2500 2500 QUICKSTOP 1000 kick_configured))) = QUICKSTOP \<and>
   rampTargetThrottle (loop 1200 (ticks [1050, 1199]
     (executeRampedMove FWD 10 2500 2500 QUICKSTOP 1000 kick_configured))) = 0 \<and>
   appliedThrottle (loop 1200 (ticks [1050, 1199]
     (executeRampedMove FWD 10 2500 2500 QUICKSTOP 1000 kick_configured))) = 60 \<and>
   pendingSkipDirDelay (loop 1200 (ticks [1050, 1199]
     (executeRampedMove FWD 10 2500 2500 QUICKSTOP 1000 kick_configured))) \<and>
   appliedThrottle (loop 1240 (ticks [1210, 1230] (loop 1200 (ticks [1050, 1199]
     (executeRampedMove FWD 10 2500 2500 QUICKSTOP 1000 kick_configured))))) = 30 \<and>
   rampKind (loop 1280 (ticks [1210, 1230] (loop 1200 (ticks [1050, 1199]
     (executeRampedMove FWD 10 2500 2500 QUICKSTOP 1000 kick_configured))))) = MOMENTUM \<and>
   rampDurationMs (loop 1280 (ticks [1210, 1230] (loop 1200 (ticks [1050, 1199]
     (executeRampedMove FWD 10 2500 2500 QUICKSTOP 1000 kick_configured))))) = 250 \<and>
   rampStartMs (loop 1280 (ticks [1210, 1230] (loop 1200 (ticks [1050, 1199]
     (executeRampedMove FWD 10 2500 2500 QUICKSTOP 1000 kick_configured))))) = 1280 \<and>
   appliedThrottle (loop 1280 (ticks [1210, 1230] (loop 1200 (ticks [1050, 1199]
     (executeRampedMove FWD 10 2500 2500 QUICKSTOP 1000 kick_configured))))) = 0 \<and>
   appliedThrottle (loop 1405 (ticks [1300, 1400] (loop 1280 (ticks [1210, 1230]
     (loop 1200 (ticks [1050, 1199]
       (executeRampedMove FWD 10 2500 2500 QUICKSTOP 1000 kick_configured))))))) = 5 \<and>
   appliedThrottle (loop 1530 (ticks [1300, 1400] (loop 1280 (ticks [1210, 1230]
     (loop 1200 (ticks [1050, 1199]
       (executeRampedMove FWD 10 2500 2500 QUICKSTOP 1000 kick_configured))))))) = 10 \<and>
   \<not> rampActive (loop 1530 (ticks [1300, 1400] (loop 1280 (ticks [1210, 1230]
     (loop 1200 (ticks [1050, 1199]
       (executeRampedMove FWD 10 2500 2500 QUICKSTOP 1000 kick_configured)))))))"
proof -
  have r: "kick_configured = run [Connect 23, Write ''K60,200'' 500] boot"
    by (simp add: kick_configured_def)
  have z: "appliedThrottle kick_configured = 0" "currentDirection kick_configured = STOP"
    by (simp_all add: kick_configured_eq)
  have d: "FWD \<noteq> STOP" by simp
  have ed: "10 = effectiveStartTargetThrottle (clampI32 10 0 100) True kick_configured"
    by (simp add: kick_configured_eq effectiveStartTargetThrottle_def clampI32_def)
  have q: "shouldKickOnStart True 10 kick_configured"
    by (simp add: kick_configured_eq shouldKickOnStart_def)
  have lvd: "60 = clampI32 (max (cfgKickThrottle kick_configured) (cfgMinStart kick_configured))
      0 100"
    by (simp add: kick_configured_eq clampI32_def)
  have rdd: "(80::u32) = word_of_int (cfgKickRampDownMs kick_configured)"
    by (simp add: kick_configured_eq)
  have durd: "(250::u32) = scaledDurationMs 2500 10"
    by (simp add: scaled_unfold clampI32_def)
  have hold: "\<forall>t\<in>set [1050, 1199].
      sint (t - (1000 + word_of_int (cfgKickMs kick_configured))) < 0 \<and>
      \<not> (graceActive kick_configured \<and> BLE_GRACE_MS \<le> t - disconnectMs kick_configured)"
    by (simp add: kick_configured_eq)
  have expiry: "\<not> sint (1200 - (1000 + word_of_int (cfgKickMs kick_configured))) < 0"
    "\<not> (graceActive kick_configured \<and> BLE_GRACE_MS \<le> 1200 - disconnectMs kick_configured)"
    by (simp_all add: kick_configured_eq)
  have rec: "\<forall>t\<in>set [1210, 1230]. \<not> (80::u32) \<le> t - 1200 \<and>
      \<not> (graceActive kick_configured \<and> BLE_GRACE_MS \<le> t - disconnectMs kick_configured)"
    by (simp add: kick_configured_eq)
  have fin: "(80::u32) \<le> 1280 - 1200"
    "\<not> (graceActive kick_configured \<and> BLE_GRACE_MS \<le> 1280 - disconnectMs kick_configured)"
    by (simp_all add: kick_configured_eq)
  have tsd: "(1280::u32) = (if (80::u32) = 0 then 1200 else 1280)"
    by simp
  have up: "\<forall>t\<in>set [1300, 1400]. \<not> (250::u32) \<le> t - 1280 \<and>
      \<not> (graceActive kick_configured \<and> BLE_GRACE_MS \<le> t - disconnectMs kick_configured)"
    by (simp add: kick_configured_eq)
  have upt: "\<not> (250::u32) \<le> 1405 - 1280"
    "\<not> (graceActive kick_configured \<and> BLE_GRACE_MS \<le> 1405 - disconnectMs kick_configured)"
    by (simp_all add: kick_configured_eq)
  have fe: "(250::u32) \<le> 1530 - 1280"
    "\<not> (graceActive kick_configured \<and> BLE_GRACE_MS \<le> 1530 - disconnectMs kick_configured)"
    by (simp_all add: kick_configured_eq)
  have rt: "\<not> (80::u32) \<le> 1240 - 1200 \<and>
      \<not> (graceActive kick_configured \<and> BLE_GRACE_MS \<le> 1240 - disconnectMs kick_configured)"
    by (simp add: kick_configured_eq)
  have v: "smoothstep_spec 60 0 40 80 = 30" "smoothstep_spec 0 10 125 250 = 5"
    by (simp_all add: smoothstep_spec_def clampI32_def cdiv_def)
  note t = kick_continuation_is_momentum_paced
      [OF r z d ed q lvd rdd durd hold expiry rec fin tsd up upt fe,
       where D = 2500 and k = QUICKSTOP and tr = 1240]
  show ?thesis
    using t rt r z ed [symmetric] q lvd [symmetric] rdd [symmetric] durd [symmetric]
    by (simp add: Let_def v)
qed

section \<open>Stop-first reversing (C1)\<close>

text \<open>
  Claim C1 fails in the code. From boot: connect, \<^verbatim>\<open>K60,200\<close>, then \<^verbatim>\<open>F10\<close> at 1000 ms starts a
  kick; the tick at 1200 ms ends it and stages the post-kick continuation, which sets
  \<open>pendingSkipDirDelay\<close>. \<^verbatim>\<open>R10\<close> at 1210 ms, while the engine drives forward at 60 percent,
  cancels that continuation (\<open>cancelPendingReverse\<close>) and schedules an ordinary stop-first
  reversal, but the flag stays set. At the tick of 7210 ms the stop ramp is at forward 30. A
  tick at 13210 ms completes the stop ramp, arms the direction-delay stage with delay 0 and
  in the same pass starts reverse at 60 percent: the output steps from forward 30 to
  reverse 60. With a tick at 13209 ms in between, the throttle is 0 for 1 ms, not for
  \<open>DIR_CHANGE_DELAY_MS\<close>.
\<close>

theorem reversal_skips_direction_delay:
  "stopped_in_reversal =
     run [Connect 23, Write ''K60,200'' 500, Write ''F10'' 1000, Tick 1200,
          Write ''R10'' 1210, Tick 7210, Tick 13209] boot \<and>
   currentDirection kick_recovering = FWD \<and> appliedThrottle kick_recovering = 60 \<and>
   pendingSkipDirDelay kick_recovering \<and>
   currentDirection reversal_commanded = FWD \<and> appliedThrottle reversal_commanded = 60 \<and>
   reversePending reversal_commanded \<and> pendingFinalDirection reversal_commanded = REV \<and>
   pendingSkipDirDelay reversal_commanded \<and>
   currentDirection reversed_in_recovery = FWD \<and> appliedThrottle reversed_in_recovery = 30 \<and>
   currentDirection (loop 13210 reversed_in_recovery) = REV \<and>
   appliedThrottle (loop 13210 reversed_in_recovery) = 60 \<and>
   currentDirection stopped_in_reversal = STOP \<and> appliedThrottle stopped_in_reversal = 0 \<and>
   currentDirection (loop 13210 stopped_in_reversal) = REV \<and>
   appliedThrottle (loop 13210 stopped_in_reversal) = 60 \<and>
   (13210 - 13209 :: u32) < DIR_CHANGE_DELAY_MS"
proof -
  have a: "stopped_in_reversal =
     run [Connect 23, Write ''K60,200'' 500, Write ''F10'' 1000, Tick 1200,
          Write ''R10'' 1210, Tick 7210, Tick 13209] boot"
    by (simp add: stopped_in_reversal_def reversed_in_recovery_def reversal_commanded_def
        kick_recovering_def)
  have b: "currentDirection kick_recovering = FWD" "appliedThrottle kick_recovering = 60"
    "pendingSkipDirDelay kick_recovering"
    by (simp_all add: kick_recovering_eq)
  have c: "currentDirection reversal_commanded = FWD" "appliedThrottle reversal_commanded = 60"
    "reversePending reversal_commanded" "pendingFinalDirection reversal_commanded = REV"
    "pendingSkipDirDelay reversal_commanded"
    by (simp_all add: reversal_commanded_eq)
  have d: "currentDirection reversed_in_recovery = FWD"
    "appliedThrottle reversed_in_recovery = 30"
    by (simp_all add: reversed_in_recovery_eq)
  have e: "currentDirection (loop 13210 reversed_in_recovery) = REV"
    "appliedThrottle (loop 13210 reversed_in_recovery) = 60"
    by (simp_all add: reversed_in_recovery_eq eval_defs clampI32_def scaled_unfold
        throttleToDuty_def ease_60_0_done)
  have f: "currentDirection stopped_in_reversal = STOP" "appliedThrottle stopped_in_reversal = 0"
    by (simp_all add: stopped_in_reversal_eq)
  have g: "currentDirection (loop 13210 stopped_in_reversal) = REV"
    "appliedThrottle (loop 13210 stopped_in_reversal) = 60"
    by (simp_all add: stopped_in_reversal_eq eval_defs clampI32_def scaled_unfold
        throttleToDuty_def ease_60_0_done)
  have h: "(13210 - 13209 :: u32) < DIR_CHANGE_DELAY_MS"
    by (simp add: DIR_CHANGE_DELAY_MS_def)
  show ?thesis
    by (intro conjI a b c d e f g h)
qed

section \<open>Grace expiry (C3)\<close>

text \<open>
  Claim C3 fails in the code when a reversal is pending at the grace expiry: the forced stop
  does not hold. From boot: connect, \<^verbatim>\<open>FQ100\<close> brings the engine to 100 percent forward;
  \<^verbatim>\<open>R30\<close> at 3000 ms starts the stop ramp of a reversal; the link drops at 4000 ms. At the
  tick of 19000 ms the grace countdown expires with the throttle at 16: the latch is set and
  a QuickStop ramp of 480 ms starts, which is at 8 half-way and at 0 at its end. That ramp
  has kept the pending reversal, so 2000 ms later the engine starts in reverse and reaches
  30 percent, with the latch set, the link down and no command received.

  When in addition the pending reversal carries a stale \<open>pendingSkipDirDelay\<close> (set by the
  continuation of a kick that the \<^verbatim>\<open>R\<close> command cancelled) and qualifies for a kick, the very
  tick that ends the QuickStop ramp ends with the engine in reverse at the kick level: here
  from forward 16 to reverse 100 in one tick, latched and disconnected.
\<close>

theorem forced_stop_resumes_pending_reversal:
  "resumed_while_latched =
     run [Connect 23, Write ''FQ100'' 0, Ramp 2500, Write ''R30'' 3000, Disconnect 4000,
          Tick 18000, Tick 19000, Tick 19240, Tick 19480, Tick 21480, Tick 24480, Tick 27480]
       boot \<and>
   graceActive reversal_on_link_loss \<and> \<not> bleConnected reversal_on_link_loss \<and>
   \<not> forcedStopLatched reversal_on_link_loss \<and>
   BLE_GRACE_MS \<le> 19000 - disconnectMs reversal_on_link_loss \<and>
   currentDirection reversal_on_link_loss = FWD \<and> appliedThrottle reversal_on_link_loss = 16 \<and>
   reversePending reversal_on_link_loss \<and>
   forcedStopLatched latched_reversing \<and> \<not> bleConnected latched_reversing \<and>
   rampActive latched_reversing \<and> rampKind latched_reversing = QUICKSTOP \<and>
   rampTargetThrottle latched_reversing = 0 \<and> rampStartMs latched_reversing = 19000 \<and>
   rampDurationMs latched_reversing = 480 \<and> appliedThrottle latched_reversing = 16 \<and>
   reversePending latched_reversing \<and>
   appliedThrottle (loop 19240 latched_reversing) = 8 \<and>
   appliedThrottle stopped_while_latched = 0 \<and> currentDirection stopped_while_latched = STOP \<and>
   reversePending stopped_while_latched \<and>
   pendingStage stopped_while_latched = WAIT_DIR_DELAY \<and>
   pendingStageUntilMs stopped_while_latched = 19480 + DIR_CHANGE_DELAY_MS \<and>
   rampActive (loop 21480 stopped_while_latched) \<and>
   rampDirection (loop 21480 stopped_while_latched) = REV \<and>
   rampTargetThrottle (loop 21480 stopped_while_latched) = 30 \<and>
   forcedStopLatched (loop 21480 stopped_while_latched) \<and>
   appliedThrottle resumed_while_latched = 30 \<and> currentDirection resumed_while_latched = REV \<and>
   driverEnabled resumed_while_latched \<and> ledcDutyL resumed_while_latched = 306 \<and>
   forcedStopLatched resumed_while_latched \<and> \<not> bleConnected resumed_while_latched \<and>
   \<not> graceActive resumed_while_latched \<and>
   reversed_while_latched =
     run [Connect 23, Write ''K100,200'' 500, Write ''F10'' 1000, Tick 1200, Write ''R10'' 1210,
          Disconnect 2000, Tick 16210, Tick 17000, Tick 17480] boot \<and>
   graceActive strong_kick_reversal \<and> \<not> bleConnected strong_kick_reversal \<and>
   BLE_GRACE_MS \<le> 17000 - disconnectMs strong_kick_reversal \<and>
   reversePending strong_kick_reversal \<and> pendingSkipDirDelay strong_kick_reversal \<and>
   forcedStopLatched latched_in_reversal \<and> \<not> bleConnected latched_in_reversal \<and>
   rampKind latched_in_reversal = QUICKSTOP \<and> rampStartMs latched_in_reversal = 17000 \<and>
   rampDurationMs latched_in_reversal = 480 \<and>
   currentDirection latched_in_reversal = FWD \<and> appliedThrottle latched_in_reversal = 16 \<and>
   appliedThrottle (processRamp 17480 latched_in_reversal) = 0 \<and>
   currentDirection reversed_while_latched = REV \<and> appliedThrottle reversed_while_latched = 100 \<and>
   kickActive reversed_while_latched \<and> ledcDutyL reversed_while_latched = 1023 \<and>
   forcedStopLatched reversed_while_latched \<and> \<not> bleConnected reversed_while_latched"
proof -
  have a: "resumed_while_latched =
     run [Connect 23, Write ''FQ100'' 0, Ramp 2500, Write ''R30'' 3000, Disconnect 4000,
          Tick 18000, Tick 19000, Tick 19240, Tick 19480, Tick 21480, Tick 24480, Tick 27480]
       boot"
    by (simp add: resumed_while_latched_def stopped_while_latched_def latched_reversing_def
        reversal_on_link_loss_def cruising_def)
  have b: "graceActive reversal_on_link_loss" "\<not> bleConnected reversal_on_link_loss"
    "\<not> forcedStopLatched reversal_on_link_loss"
    "BLE_GRACE_MS \<le> 19000 - disconnectMs reversal_on_link_loss"
    "currentDirection reversal_on_link_loss = FWD" "appliedThrottle reversal_on_link_loss = 16"
    "reversePending reversal_on_link_loss"
    by (simp_all add: reversal_on_link_loss_eq BLE_GRACE_MS_def)
  have c: "forcedStopLatched latched_reversing" "\<not> bleConnected latched_reversing"
    "rampActive latched_reversing" "rampKind latched_reversing = QUICKSTOP"
    "rampTargetThrottle latched_reversing = 0" "rampStartMs latched_reversing = 19000"
    "rampDurationMs latched_reversing = 480" "appliedThrottle latched_reversing = 16"
    "reversePending latched_reversing"
    by (simp_all add: latched_reversing_eq)
  have d: "appliedThrottle (loop 19240 latched_reversing) = 8"
    by (simp add: latched_reversing_eq eval_defs num_defs ease_16_0_half)
  have e: "appliedThrottle stopped_while_latched = 0"
    "currentDirection stopped_while_latched = STOP"
    "reversePending stopped_while_latched"
    "pendingStage stopped_while_latched = WAIT_DIR_DELAY"
    "pendingStageUntilMs stopped_while_latched = 19480 + DIR_CHANGE_DELAY_MS"
    by (simp_all add: stopped_while_latched_eq DIR_CHANGE_DELAY_MS_def)
  have f: "rampActive (loop 21480 stopped_while_latched)"
    "rampDirection (loop 21480 stopped_while_latched) = REV"
    "rampTargetThrottle (loop 21480 stopped_while_latched) = 30"
    "forcedStopLatched (loop 21480 stopped_while_latched)"
    by (simp_all add: stopped_while_latched_eq eval_defs num_defs)
  have g: "appliedThrottle resumed_while_latched = 30"
    "currentDirection resumed_while_latched = REV"
    "driverEnabled resumed_while_latched" "ledcDutyL resumed_while_latched = 306"
    "forcedStopLatched resumed_while_latched" "\<not> bleConnected resumed_while_latched"
    "\<not> graceActive resumed_while_latched"
    by (simp_all add: resumed_while_latched_eq)
  have h: "reversed_while_latched =
     run [Connect 23, Write ''K100,200'' 500, Write ''F10'' 1000, Tick 1200, Write ''R10'' 1210,
          Disconnect 2000, Tick 16210, Tick 17000, Tick 17480] boot"
    by (simp add: reversed_while_latched_def latched_in_reversal_def strong_kick_reversal_def
        strong_kick_recovering_def)
  have i: "graceActive strong_kick_reversal" "\<not> bleConnected strong_kick_reversal"
    "BLE_GRACE_MS \<le> 17000 - disconnectMs strong_kick_reversal"
    "reversePending strong_kick_reversal" "pendingSkipDirDelay strong_kick_reversal"
    by (simp_all add: strong_kick_reversal_eq BLE_GRACE_MS_def)
  have j: "forcedStopLatched latched_in_reversal" "\<not> bleConnected latched_in_reversal"
    "rampKind latched_in_reversal = QUICKSTOP" "rampStartMs latched_in_reversal = 17000"
    "rampDurationMs latched_in_reversal = 480"
    "currentDirection latched_in_reversal = FWD" "appliedThrottle latched_in_reversal = 16"
    by (simp_all add: latched_in_reversal_eq)
  have k: "appliedThrottle (processRamp 17480 latched_in_reversal) = 0"
    by (simp add: latched_in_reversal_eq eval_defs num_defs ease_16_0_done)
  have l: "currentDirection reversed_while_latched = REV"
    "appliedThrottle reversed_while_latched = 100"
    "kickActive reversed_while_latched" "ledcDutyL reversed_while_latched = 1023"
    "forcedStopLatched reversed_while_latched" "\<not> bleConnected reversed_while_latched"
    by (simp_all add: reversed_while_latched_eq)
  show ?thesis
    by (intro conjI a b c d e f g h i j k l)
qed

end
